(* ===== verification/Proc_Prelude.thy ===== *)
theory Proc_Prelude
  imports Main "HOL-Library.Word" "HOL-Library.State_Monad" "HOL-Library.Multiset"
begin

unbundle bit_operations_syntax

text \<open>
  Shared vocabulary of the development: the C integer types of the i386 kernel the sources are
  written for, the error numbers and mode bits they use, the part of the C string and formatted
  output library they call, and generic lemmas on digit strings that several components share.

  Conventions. An unsigned C value whose wrap-around matters is a word; a signed C value is an
  \<open>int\<close>, and every narrowing assignment of the source is written as one of the conversions
  \<open>s32\<close> and \<open>s64\<close> below. A pointer is a \<open>nat\<close> address and \<open>NULL\<close> is 0.
\<close>

section \<open>Machine types\<close>

type_synonym u16 = "16 word"
type_synonym u32 = "32 word"
type_synonym u64 = "64 word"
type_synonym ptr = nat

abbreviation (input) NULL :: ptr where "NULL \<equiv> 0"

text \<open>Conversion of an integer value to a signed C type (\<open>int\<close>/\<open>long\<close>, \<open>loff_t\<close>).\<close>

definition s32 :: "int \<Rightarrow> int" where
  "s32 x = signed_take_bit 31 x"

definition s64 :: "int \<Rightarrow> int" where
  "s64 x = signed_take_bit 63 x"

lemma s32_id [simp]: "- (2 ^ 31) \<le> x \<Longrightarrow> x < 2 ^ 31 \<Longrightarrow> s32 x = x"
  by (simp add: s32_def signed_take_bit_int_eq_self)

lemma s64_id [simp]: "- (2 ^ 63) \<le> x \<Longrightarrow> x < 2 ^ 63 \<Longrightarrow> s64 x = x"
  by (simp add: s64_def signed_take_bit_int_eq_self)

lemma s32_range: "- (2 ^ 31) \<le> s32 x" "s32 x < 2 ^ 31"
  using signed_take_bit_int_greater_eq_minus_exp [of 31 x] signed_take_bit_int_less_exp [of 31 x]
  by (simp_all add: s32_def)

lemma unat_inc:
  fixes i n :: "'a::len word"
  assumes "i < n"
  shows "unat (i + 1) = Suc (unat i)"
proof -
  have "Suc (unat i) \<le> unat n" using assms by (simp add: word_less_nat_alt Suc_le_eq)
  also have "\<dots> < 2 ^ LENGTH('a)" by simp
  finally have "unat i + unat (1 :: 'a word) < 2 ^ LENGTH('a)" by simp
  then show ?thesis using unat_add_lem [of i 1] by simp
qed

lemma unat_of_nat_less [simp]:
  "n < 2 ^ LENGTH('a) \<Longrightarrow> unat (of_nat n :: 'a::len word) = n"
  by (simp add: unat_of_nat)

text \<open>A \<open>char\<close> of the source is signed: promoted to \<open>int\<close> and then converted to unsigned.\<close>

definition char_u32 :: "char \<Rightarrow> u32" where
  "char_u32 c = word_of_int (signed_take_bit 7 (of_char c))"

section \<open>Constants of the kernel headers\<close>

abbreviation (input) EPERM :: int where "EPERM \<equiv> 1"
abbreviation (input) ENOENT :: int where "ENOENT \<equiv> 2"
abbreviation (input) ESRCH :: int where "ESRCH \<equiv> 3"
abbreviation (input) EIO :: int where "EIO \<equiv> 5"
abbreviation (input) ENOMEM :: int where "ENOMEM \<equiv> 12"
abbreviation (input) EACCES :: int where "EACCES \<equiv> 13"
abbreviation (input) EFAULT :: int where "EFAULT \<equiv> 14"
abbreviation (input) EBUSY :: int where "EBUSY \<equiv> 16"
abbreviation (input) ENODEV :: int where "ENODEV \<equiv> 19"
abbreviation (input) EINVAL :: int where "EINVAL \<equiv> 22"

abbreviation (input) PAGE_SIZE :: nat where "PAGE_SIZE \<equiv> 4096"

abbreviation (input) S_IFMT :: u16 where "S_IFMT \<equiv> 0xF000"
abbreviation (input) S_IFDIR :: u16 where "S_IFDIR \<equiv> 0x4000"
abbreviation (input) S_IFREG :: u16 where "S_IFREG \<equiv> 0x8000"
abbreviation (input) S_IFLNK :: u16 where "S_IFLNK \<equiv> 0xA000"
abbreviation (input) S_ISUID :: u16 where "S_ISUID \<equiv> 0x800"
abbreviation (input) S_ISGID :: u16 where "S_ISGID \<equiv> 0x400"
abbreviation (input) S_IRUSR :: u16 where "S_IRUSR \<equiv> 0x100"
abbreviation (input) S_IWUSR :: u16 where "S_IWUSR \<equiv> 0x80"
abbreviation (input) S_IXUSR :: u16 where "S_IXUSR \<equiv> 0x40"
abbreviation (input) S_IRUGO :: u16 where "S_IRUGO \<equiv> 0x124"
abbreviation (input) S_IWUGO :: u16 where "S_IWUGO \<equiv> 0x92"
abbreviation (input) S_IXUGO :: u16 where "S_IXUGO \<equiv> 0x49"
abbreviation (input) S_IRWXUGO :: u16 where "S_IRWXUGO \<equiv> 0x1FF"

definition S_ISDIR :: "u16 \<Rightarrow> bool" where
  "S_ISDIR m \<longleftrightarrow> m AND S_IFMT = S_IFDIR"

definition S_ISLNK :: "u16 \<Rightarrow> bool" where
  "S_ISLNK m \<longleftrightarrow> m AND S_IFMT = S_IFLNK"

section \<open>Formatted output and strings\<close>

text \<open>
  The conversions of \<open>sprintf\<close> the sources use: \<open>%u\<close> and \<open>%lu\<close>, \<open>%d\<close> and \<open>%i\<close>,
  \<open>%lx\<close>, \<open>%o\<close>, a left-justified field \<open>%-25s\<close> and a zero-padded field \<open>%08lx\<close>.
\<close>

definition digit_char :: "nat \<Rightarrow> char" where
  "digit_char d = char_of (if d < 10 then 48 + d else 87 + d)"

fun radix_str :: "nat \<Rightarrow> nat \<Rightarrow> string" where
  "radix_str b n =
     (if n < b \<or> b < 2 then [digit_char n] else radix_str b (n div b) @ [digit_char (n mod b)])"

declare radix_str.simps [simp del]

abbreviation fmt_u :: "nat \<Rightarrow> string" where "fmt_u \<equiv> radix_str 10"
abbreviation fmt_x :: "nat \<Rightarrow> string" where "fmt_x \<equiv> radix_str 16"
abbreviation fmt_o :: "nat \<Rightarrow> string" where "fmt_o \<equiv> radix_str 8"

definition fmt_d :: "int \<Rightarrow> string" where
  "fmt_d i = (if i < 0 then CHR ''-'' # fmt_u (nat (- i)) else fmt_u (nat i))"

definition fmt_ljust :: "nat \<Rightarrow> string \<Rightarrow> string" where
  "fmt_ljust w s = s @ replicate (w - length s) CHR '' ''"

definition fmt_zpad :: "nat \<Rightarrow> string \<Rightarrow> string" where
  "fmt_zpad w s = replicate (w - length s) CHR ''0'' @ s"

text \<open>
  \<open>snprintf\<close> into a buffer of \<open>n\<close> bytes returns the untruncated length; the buffer
  then holds the C string below (the terminating NUL is left implicit).
\<close>

definition snprintf_buf :: "nat \<Rightarrow> string \<Rightarrow> string" where
  "snprintf_buf n s = take (n - 1) s"

text \<open>\<open>strnlen\<close> on a buffer, and the C string a buffer holds.\<close>

definition strnlen :: "string \<Rightarrow> nat \<Rightarrow> nat" where
  "strnlen s n = length (takeWhile (\<lambda>c. c \<noteq> CHR 0x00) (take n s))"

lemma strnlen_le [simp]: "strnlen s n \<le> n"
proof -
  have "length (takeWhile (\<lambda>c. c \<noteq> CHR 0x00) (take n s)) \<le> length (take n s)"
    by (rule length_takeWhile_le)
  then show ?thesis by (simp add: strnlen_def)
qed

text \<open>\<open>memcmp (a, b, n) == 0\<close>.\<close>

definition memcmp_eq :: "string \<Rightarrow> string \<Rightarrow> nat \<Rightarrow> bool" where
  "memcmp_eq a b n \<longleftrightarrow> take n a = take n b"

section \<open>Lemmas on digit strings\<close>

lemma radix_str_ne [simp]: "radix_str b n \<noteq> []"
  by (subst radix_str.simps) simp

lemma radix_str_small: "n < b \<Longrightarrow> radix_str b n = [digit_char n]"
  by (subst radix_str.simps) simp

lemma radix_str_step:
  "2 \<le> b \<Longrightarrow> b \<le> n \<Longrightarrow> radix_str b n = radix_str b (n div b) @ [digit_char (n mod b)]"
  by (subst radix_str.simps) simp

text \<open>The length of a printed number is bounded by the number of digits of its bound.\<close>

lemma length_radix_str:
  "2 \<le> b \<Longrightarrow> n < b ^ k \<Longrightarrow> 0 < k \<Longrightarrow> length (radix_str b n) \<le> k"
proof (induction k arbitrary: n)
  case 0
  then show ?case by simp
next
  case (Suc k)
  show ?case
  proof (cases "n < b")
    case True
    then show ?thesis by (simp add: radix_str_small)
  next
    case False
    then have "0 < k" using Suc.prems(2) by (cases k) auto
    moreover have "n div b < b ^ k"
      using Suc.prems(1,2) by (simp add: less_mult_imp_div_less mult.commute)
    ultimately have "length (radix_str b (n div b)) \<le> k" using Suc by blast
    then show ?thesis using False Suc.prems(1) by (simp add: radix_str_step)
  qed
qed

lemma length_fmt_u: "n < 10 ^ k \<Longrightarrow> 0 < k \<Longrightarrow> length (fmt_u n) \<le> k"
  by (rule length_radix_str) simp_all

lemma of_char_digit_char: "d < 10 \<Longrightarrow> of_char (digit_char d) = (48 + d :: nat)"
  by (simp add: digit_char_def)

lemma digit_char_inj: "d < 10 \<Longrightarrow> e < 10 \<Longrightarrow> digit_char d = digit_char e \<longleftrightarrow> d = e"
  using of_char_digit_char by (metis add_left_cancel)

lemma digit_char_0: "digit_char 0 = CHR ''0''"
  by code_simp

text \<open>The value of a decimal string, most significant digit first.\<close>

definition is_digit :: "char \<Rightarrow> bool" where
  "is_digit c \<longleftrightarrow> 48 \<le> (of_char c :: nat) \<and> (of_char c :: nat) \<le> 57"

definition dec_value_from :: "nat \<Rightarrow> string \<Rightarrow> nat" where
  "dec_value_from v s = foldl (\<lambda>a c. a * 10 + (of_char c - 48)) v s"

abbreviation dec_value :: "string \<Rightarrow> nat" where "dec_value \<equiv> dec_value_from 0"

lemma dec_value_simps [simp]:
  "dec_value_from v [] = v"
  "dec_value_from v (c # s) = dec_value_from (v * 10 + (of_char c - 48)) s"
  "dec_value_from v (s @ t) = dec_value_from (dec_value_from v s) t"
  by (simp_all add: dec_value_from_def)

lemma dec_value_from_mono: "v \<le> dec_value_from v s"
proof (induction s arbitrary: v)
  case (Cons c s)
  have "v \<le> v * 10 + (of_char c - 48)" by simp
  also have "\<dots> \<le> dec_value_from (v * 10 + (of_char c - 48)) s" by (rule Cons.IH)
  finally show ?case by simp
qed simp

lemma is_digit_digit_char: "d < 10 \<Longrightarrow> is_digit (digit_char d)"
  by (simp add: is_digit_def of_char_digit_char)

lemma fmt_u_digits: "\<forall>c \<in> set (fmt_u n). is_digit c"
proof (induction n rule: less_induct)
  case (less n)
  show ?case
  proof (cases "n < 10")
    case False
    then have "\<forall>c \<in> set (fmt_u (n div 10)). is_digit c" by (intro less) simp
    with False show ?thesis by (simp add: radix_str_step ball_Un is_digit_digit_char)
  qed (simp add: radix_str_small is_digit_digit_char)
qed

lemma dec_value_fmt_u: "dec_value (fmt_u n) = n"
proof (induction n rule: less_induct)
  case (less n)
  show ?case
  proof (cases "n < 10")
    case False
    then have "dec_value (fmt_u (n div 10)) = n div 10" using less by simp
    with False show ?thesis by (simp add: radix_str_step of_char_digit_char)
  qed (simp add: radix_str_small of_char_digit_char)
qed

lemma fmt_u_no_leading_zero: "0 < n \<Longrightarrow> hd (fmt_u n) \<noteq> CHR ''0''"
proof (induction n rule: less_induct)
  case (less n)
  show ?case
  proof (cases "n < 10")
    case True
    then show ?thesis
      using less.prems digit_char_inj [of n 0] by (simp add: radix_str_small digit_char_0)
  next
    case False
    then have "hd (fmt_u (n div 10)) \<noteq> CHR ''0''" using less by simp
    with False show ?thesis by (simp add: radix_str_step hd_append)
  qed
qed

lemma fmt_u_inj: "fmt_u m = fmt_u n \<longleftrightarrow> m = n"
  by (metis dec_value_fmt_u)

end
