(* ===== verification/Kernel_Env.thy ===== *)
theory Kernel_Env
  imports Proc_Prelude
begin

text \<open>
  The kernel as the procfs code sees it.

  \<^item> The objects the code reads and writes (\<open>struct inode\<close> with its \<open>proc_inode\<close>,
    \<open>struct dentry\<close>, \<open>struct file\<close>, the fields of tasks and memory descriptors that
    \<open>base.c\<close> assigns) are records kept in the \<open>store\<close>.
  \<^item> Everything else (the process table, memory management, the dcache, locks) is code that is not
    part of the sources. A call to it is a \<open>query\<close>; its answer is a parameter, the record
    \<open>kenv\<close>, which may depend on the whole history of the run, so that every interleaving
    with other CPUs is an instance. What a theorem needs of an answer is a hypothesis on \<open>kenv\<close>.
  \<^item> The history is a list of events: a reference or lock taken (\<open>Acq\<close>) or given up
    (\<open>Rel\<close>), a query, and an effect on the rest of the kernel (\<open>Fx\<close>).
  The second half is the calculus \<open>owns\<close>: a total-correctness specification of a computation
  that accounts for every reference it holds.
\<close>

section \<open>Operation tables\<close>

datatype inode_operations =
    proc_def_inode_operations | proc_pid_link_inode_operations | proc_fd_inode_operations
  | proc_fdinfo_inode_operations | proc_attr_dir_inode_operations | proc_self_inode_operations
  | proc_tgid_base_inode_operations | proc_tid_base_inode_operations
  | proc_task_inode_operations | proc_net_inode_operations

datatype file_operations =
    proc_lstats_operations | proc_mounts_operations | proc_mountinfo_operations
  | proc_mountstats_operations | proc_info_file_operations | proc_single_file_operations
  | proc_mem_operations | proc_environ_operations | proc_oom_adjust_operations
  | proc_loginuid_operations | proc_sessionid_operations | proc_fault_inject_operations
  | proc_pid_sched_operations | proc_fdinfo_file_operations | proc_fd_operations
  | proc_fdinfo_operations | proc_pid_attr_operations | proc_attr_dir_operations
  | proc_coredump_filter_operations | proc_tgid_base_operations | proc_tid_base_operations
  | proc_task_operations | proc_net_operations | proc_maps_operations
  | proc_numa_maps_operations | proc_clear_refs_operations | proc_smaps_operations
  | proc_pagemap_operations | proc_cpuset_operations | proc_cgroup_operations

datatype dentry_operations =
    pid_dentry_operations | tid_fd_dentry_operations | proc_base_dentry_operations

text \<open>\<open>union proc_op\<close>: the functions its members can point to.\<close>

datatype link_fn = L_cwd | L_root | L_exe | L_fd

datatype read_fn =
    R_auxv | R_limits | R_syscall | R_cmdline | R_wchan | R_schedstat | R_oom_score
  | R_tgid_io | R_tid_io

datatype show_fn = S_status | S_personality | S_tgid_stat | S_tid_stat | S_statm | S_stack

datatype proc_op =
    No_op | Proc_get_link link_fn | Proc_read read_fn | Proc_show show_fn

section \<open>Objects\<close>

text \<open>\<open>struct inode\<close> and the \<open>struct proc_inode\<close> around it (\<open>PROC_I\<close>).\<close>

record inode =
  i_ino :: u32
  i_mode :: u16
  i_uid :: u32
  i_gid :: u32
  i_nlink :: u32
  i_size :: int
  i_flags :: u32
  i_time :: int \<comment> \<open>\<open>i_mtime\<close>, \<open>i_atime\<close> and \<open>i_ctime\<close>, always assigned together\<close>
  i_op :: "inode_operations option"
  i_fop :: "file_operations option"
  i_sb :: ptr
  ei_pid :: ptr
  ei_fd :: int
  ei_op :: proc_op

record dentry =
  d_name :: string
  d_inode :: ptr
  d_op :: "dentry_operations option"
  d_sb :: ptr

datatype private_data = No_private | Private_long int | Private_ptr ptr

record file_struct =
  f_pos :: int
  f_version :: u64
  f_dentry :: ptr
  f_private :: private_data

text \<open>One entry accepted by the caller's \<open>filldir\<close>: name, offset, inode number, type.\<close>

record dirent =
  de_name :: string
  de_off :: int
  de_ino :: u32
  de_type :: nat

datatype hook_fn = Dummy_in_proc_pid_readdir | Null_hook | Module_hook ptr

record honeypot_hooks_s =
  in_proc_pid_readdir :: hook_fn
  dummy_hook :: hook_fn

text \<open>
  \<open>struct seq_file\<close> and the \<open>struct proc_mounts\<close> around it; \<open>struct nameidata\<close>.
  A \<open>struct path\<close> is the pointer to a mounted dentry.
\<close>

record proc_mounts =
  m_private :: ptr
  pm_ns :: ptr
  pm_root :: ptr
  pm_event :: int

datatype last_type = LAST_NORM | LAST_BIND

record nameidata =
  nd_path :: ptr
  nd_last_type :: last_type

record store =
  inodes :: "ptr \<Rightarrow> inode"
  dentries :: "ptr \<Rightarrow> dentry"
  filps :: "ptr \<Rightarrow> file_struct"
  dirents :: "dirent list" \<comment> \<open>what the caller's \<open>filldir\<close> accepted so far\<close>
  uout :: string \<comment> \<open>bytes copied to the caller's buffer so far\<close>
  vm_writes :: "(ptr \<times> u32 \<times> string) list" \<comment> \<open>what was written into the memory of tasks so far\<close>
  oomkilladj :: "ptr \<Rightarrow> int"
  make_it_fail :: "ptr \<Rightarrow> int"
  mm_flags :: "ptr \<Rightarrow> u32"
  exe_file :: "ptr \<Rightarrow> ptr"
  num_exe_file_vmas :: "ptr \<Rightarrow> u32"
  honeypot_hooks :: honeypot_hooks_s
  seqs :: "ptr \<Rightarrow> proc_mounts"
  nds :: "ptr \<Rightarrow> nameidata"

section \<open>Resources, queries and events\<close>

datatype lock =
    Task_lock ptr | Fs_lock ptr | Rcu_read | Mmap_sem ptr | File_lock ptr | Sighand_lock ptr
  | Vfsmount_lock | Tasklist_lock

datatype res =
    RTask ptr | RMm ptr | RPage ptr | RMem ptr | RFiles ptr | RPath ptr | RMntNs ptr
  | RFile ptr | RInode ptr | RDentry ptr | RLock lock

datatype task_query =
    Q_get_proc_task ptr | Q_get_pid_task ptr | Q_pid_task ptr | Q_get_task_pid ptr
  | Q_find_task_by_pid_ns u32 ptr | Q_find_ge_pid u32 ptr | Q_pid_nr_ns ptr ptr
  | Q_task_pid_nr_ns ptr ptr | Q_task_tgid_nr_ns ptr ptr | Q_has_group_leader_pid ptr
  | Q_thread_group_leader ptr | Q_pid_alive ptr | Q_same_thread_group ptr ptr
  | Q_next_thread ptr | Q_group_leader ptr | Q_task_pid ptr | Q_task_tgid ptr
  | Q_pid_tasks_first ptr | Q_pid_level ptr | Q_upid_nr ptr nat | Q_upid_ns ptr nat
  | Q_proc_mnt ptr | Q_mnt_root ptr | Q_current | Q_s_fs_info ptr | Q_task_flags ptr
  | Q_lock_task_sighand ptr | Q_signal_count ptr | Q_self_exec_id ptr
  | Q_field ptr string \<comment> \<open>a field of a kernel object, by its C name\<close>
  | Q_elem ptr string nat \<comment> \<open>an element of an array field\<close>
  | Q_call string "int list" \<comment> \<open>the result of a kernel function on these arguments\<close>

datatype access_query =
    Q_task_cred ptr | Q_cred_euid ptr | Q_cred_egid ptr | Q_get_dumpable ptr | Q_ptrace_may_access ptr nat
  | Q_ptrace_may_access_locked ptr nat | Q_task_is_stopped_or_traced ptr
  | Q_tracehook_tracer_task ptr | Q_capable nat | Q_generic_permission ptr int
  | Q_inode_change_ok ptr | Q_inode_setattr ptr | Q_ia_valid ptr

datatype mm_query =
    Q_task_mm ptr | Q_get_task_mm ptr | Q_arg_start ptr | Q_arg_end ptr | Q_env_start ptr
  | Q_env_end ptr | Q_saved_auxv ptr nat | Q_access_process_vm ptr u32 nat
  | Q_vm_bytes ptr u32 nat | Q_vm_write ptr u32 nat | Q_get_free_page | Q_kmalloc nat
  | Q_copy_to_user nat | Q_copy_from_user ptr nat | Q_user_bytes ptr nat

datatype vfs_query =
    Q_task_fs ptr | Q_fs_root ptr | Q_fs_pwd ptr | Q_get_files_struct ptr
  | Q_fcheck_files ptr u32 | Q_max_fds ptr | Q_file_mode ptr | Q_file_path ptr
  | Q_file_pos ptr | Q_file_flags ptr | Q_new_inode ptr | Q_inode_ino ptr | Q_CURRENT_TIME
  | Q_d_lookup ptr string | Q_d_alloc ptr string | Q_find_inode_number ptr string
  | Q_parent_ino ptr | Q_filldir string int u32 nat | Q_d_hash_and_lookup ptr string
  | Q_simple_read nat int string
  | Q_security ptr string | Q_d_path ptr

datatype query = TaskQ task_query | AccessQ access_query | MmQ mm_query | VfsQ vfs_query

datatype fx =
    D_add ptr ptr | D_drop ptr | Security_task_to_inode ptr ptr | Shrink_dcache_parent ptr
  | Pid_ns_release_proc ptr | Hook_call hook_fn | Force_successful_syscall_return

datatype event = Acq res | Rel res | Ask query | Fx fx

record kstate =
  trace :: "event list"
  st :: store

type_synonym 'a k = "(kstate, 'a) state"

text \<open>The fields of \<open>struct kstat\<close> that procfs overrides.\<close>

record kstat =
  ks_uid :: u32
  ks_gid :: u32
  ks_nlink :: u32

text \<open>
  The rest of the kernel. A pointer-valued, integer-valued and byte-valued answer for each
  query; the number parsers of \<open>lib/vsprintf.c\<close> are pure (value and characters consumed);
  \<open>d_add\<close> changes dentries, and \<open>generic_fillattr\<close> reads an inode.
\<close>

record kenv =
  ans_ptr :: "event list \<Rightarrow> query \<Rightarrow> ptr"
  ans_int :: "event list \<Rightarrow> query \<Rightarrow> int"
  ans_str :: "event list \<Rightarrow> query \<Rightarrow> string"
  simple_strtol :: "string \<Rightarrow> nat \<Rightarrow> int \<times> nat"
  simple_strtoul :: "string \<Rightarrow> nat \<Rightarrow> nat \<times> nat"
  d_add_effect :: "ptr \<Rightarrow> ptr \<Rightarrow> (ptr \<Rightarrow> dentry) \<Rightarrow> (ptr \<Rightarrow> dentry)"
  generic_fillattr :: "inode \<Rightarrow> kstat"

section \<open>Primitive computations\<close>

abbreviation return :: "'a \<Rightarrow> 'a k" where "return \<equiv> State_Monad.return"

definition emit :: "event \<Rightarrow> unit k" where
  "emit e = State (\<lambda>s. ((), s\<lparr>trace := trace s @ [e]\<rparr>))"

definition ask_ptr :: "kenv \<Rightarrow> query \<Rightarrow> ptr k" where
  "ask_ptr K q = State (\<lambda>s. (ans_ptr K (trace s) q, s\<lparr>trace := trace s @ [Ask q]\<rparr>))"

definition ask_int :: "kenv \<Rightarrow> query \<Rightarrow> int k" where
  "ask_int K q = State (\<lambda>s. (ans_int K (trace s) q, s\<lparr>trace := trace s @ [Ask q]\<rparr>))"

definition ask_str :: "kenv \<Rightarrow> query \<Rightarrow> string k" where
  "ask_str K q = State (\<lambda>s. (ans_str K (trace s) q, s\<lparr>trace := trace s @ [Ask q]\<rparr>))"

definition get_st :: "store k" where
  "get_st = State (\<lambda>s. (st s, s))"

definition upd_st :: "(store \<Rightarrow> store) \<Rightarrow> unit k" where
  "upd_st f = State (\<lambda>s. ((), s\<lparr>st := f (st s)\<rparr>))"

text \<open>A call that returns a counted reference, or \<open>NULL\<close> and no reference.\<close>

definition acq_ptr :: "kenv \<Rightarrow> query \<Rightarrow> (ptr \<Rightarrow> res) \<Rightarrow> ptr k" where
  "acq_ptr K q R = do {
     p \<leftarrow> ask_ptr K q;
     (if p = NULL then return NULL else do { emit (Acq (R p)); return p })
   }"

section \<open>The ownership calculus\<close>

text \<open>
  \<open>replay d es\<close> runs the reference events of a history from the references \<open>d\<close>;
  giving up a reference that is not held makes it fail.
\<close>

fun replay :: "res multiset \<Rightarrow> event list \<Rightarrow> res multiset option" where
  "replay d [] = Some d"
| "replay d (Acq r # es) = replay (add_mset r d) es"
| "replay d (Rel r # es) = (if r \<in># d then replay (d - {#r#}) es else None)"
| "replay d (Ask q # es) = replay d es"
| "replay d (Fx f # es) = replay d es"

lemma replay_append: "replay d (es @ fs) = Option.bind (replay d es) (\<lambda>d'. replay d' fs)"
  by (induction d es rule: replay.induct) auto

lemma replay_frame: "replay d es = Some d' \<Longrightarrow> replay (d + F) es = Some (d' + F)"
proof (induction d es rule: replay.induct)
  case (3 d r es)
  then have r: "r \<in># d" and "replay (d - {#r#}) es = Some d'"
    by (auto split: if_splits)
  moreover have "d - {#r#} + F = d + F - {#r#}"
    using r by simp
  ultimately show ?case using 3 by simp
qed auto

text \<open>
  \<open>owns d \<sigma> m Q\<close>: started with the references \<open>d\<close> and the store \<open>\<sigma>\<close>, in every
  history, \<open>m\<close> returns a value, references and a store that satisfy \<open>Q\<close>, and never gives
  up a reference it does not hold on the way.
\<close>

definition owns ::
    "res multiset \<Rightarrow> store \<Rightarrow> 'a k \<Rightarrow> ('a \<Rightarrow> res multiset \<Rightarrow> store \<Rightarrow> bool) \<Rightarrow> bool" where
  "owns d \<sigma> m Q \<longleftrightarrow>
     (\<forall>s. st s = \<sigma> \<longrightarrow>
       (case run_state m s of (x, s') \<Rightarrow>
          \<exists>new d'. trace s' = trace s @ new \<and> replay d new = Some d' \<and> Q x d' (st s')))"

text \<open>The answers the kernel may give to a query, over all histories.\<close>

definition may_ptr :: "kenv \<Rightarrow> query \<Rightarrow> ptr \<Rightarrow> bool" where
  "may_ptr K q x \<longleftrightarrow> (\<exists>tr. ans_ptr K tr q = x)"

definition may_int :: "kenv \<Rightarrow> query \<Rightarrow> int \<Rightarrow> bool" where
  "may_int K q x \<longleftrightarrow> (\<exists>tr. ans_int K tr q = x)"

definition may_str :: "kenv \<Rightarrow> query \<Rightarrow> string \<Rightarrow> bool" where
  "may_str K q x \<longleftrightarrow> (\<exists>tr. ans_str K tr q = x)"

named_theorems owns_intros \<open>specifications of computations, in continuation form\<close>
named_theorems kernel_defs \<open>calls into the kernel, unfolded to primitives\<close>

lemma owns_return [owns_intros]: "Q x d \<sigma> \<Longrightarrow> owns d \<sigma> (return x) Q"
  by (simp add: owns_def)

lemma owns_bind [owns_intros]:
  assumes "owns d \<sigma> m (\<lambda>x d' \<sigma>'. owns d' \<sigma>' (f x) Q)"
  shows "owns d \<sigma> (m \<bind> f) Q"
  unfolding owns_def
proof (intro allI impI)
  fix s :: kstate
  assume "st s = \<sigma>"
  obtain x s1 where m: "run_state m s = (x, s1)" by fastforce
  from assms \<open>st s = \<sigma>\<close> m obtain n1 d1 where 1: "trace s1 = trace s @ n1"
      "replay d n1 = Some d1" "owns d1 (st s1) (f x) Q"
    by (auto simp: owns_def)
  obtain y s2 where f: "run_state (f x) s1 = (y, s2)" by fastforce
  from 1(3) f obtain n2 d2 where 2: "trace s2 = trace s1 @ n2" "replay d1 n2 = Some d2"
      "Q y d2 (st s2)"
    by (auto simp: owns_def)
  have "trace s2 = trace s @ (n1 @ n2) \<and> replay d (n1 @ n2) = Some d2 \<and> Q y d2 (st s2)"
    using 1 2 by (simp add: replay_append)
  then show "case run_state (m \<bind> f) s of (x, s') \<Rightarrow>
      \<exists>new d'. trace s' = trace s @ new \<and> replay d new = Some d' \<and> Q x d' (st s')"
    using m f by auto
qed

lemma owns_if [owns_intros]:
  "(b \<Longrightarrow> owns d \<sigma> m Q) \<Longrightarrow> (\<not> b \<Longrightarrow> owns d \<sigma> n Q) \<Longrightarrow> owns d \<sigma> (if b then m else n) Q"
  by simp

lemma owns_acq [owns_intros]: "Q () (add_mset r d) \<sigma> \<Longrightarrow> owns d \<sigma> (emit (Acq r)) Q"
  by (simp add: owns_def emit_def)

lemma owns_rel [owns_intros]:
  "r \<in># d \<Longrightarrow> Q () (d - {#r#}) \<sigma> \<Longrightarrow> owns d \<sigma> (emit (Rel r)) Q"
  by (simp add: owns_def emit_def)

lemma owns_fx [owns_intros]: "Q () d \<sigma> \<Longrightarrow> owns d \<sigma> (emit (Fx f)) Q"
  by (simp add: owns_def emit_def)

lemma owns_ask_ptr [owns_intros]:
  "(\<And>x. may_ptr K q x \<Longrightarrow> Q x d \<sigma>) \<Longrightarrow> owns d \<sigma> (ask_ptr K q) Q"
  by (auto simp: owns_def ask_ptr_def may_ptr_def)

lemma owns_ask_int [owns_intros]:
  "(\<And>x. may_int K q x \<Longrightarrow> Q x d \<sigma>) \<Longrightarrow> owns d \<sigma> (ask_int K q) Q"
  by (auto simp: owns_def ask_int_def may_int_def)

lemma owns_ask_str [owns_intros]:
  "(\<And>x. may_str K q x \<Longrightarrow> Q x d \<sigma>) \<Longrightarrow> owns d \<sigma> (ask_str K q) Q"
  by (auto simp: owns_def ask_str_def may_str_def)

lemma owns_get_st [owns_intros]: "Q \<sigma> d \<sigma> \<Longrightarrow> owns d \<sigma> get_st Q"
  by (simp add: owns_def get_st_def)

lemma owns_upd_st [owns_intros]: "Q () d (f \<sigma>) \<Longrightarrow> owns d \<sigma> (upd_st f) Q"
  by (simp add: owns_def upd_st_def)

lemma owns_acq_ptr [owns_intros]:
  "(may_ptr K q NULL \<Longrightarrow> Q NULL d \<sigma>) \<Longrightarrow>
   (\<And>p. may_ptr K q p \<Longrightarrow> p \<noteq> NULL \<Longrightarrow> Q p (add_mset (R p) d) \<sigma>) \<Longrightarrow>
   owns d \<sigma> (acq_ptr K q R) Q"
  unfolding acq_ptr_def by (intro owns_intros) simp_all

lemma owns_mono:
  "owns d \<sigma> m P \<Longrightarrow> (\<And>x d' \<sigma>'. P x d' \<sigma>' \<Longrightarrow> Q x d' \<sigma>') \<Longrightarrow> owns d \<sigma> m Q"
  unfolding owns_def by (simp add: case_prod_beta) blast

lemma owns_frame:
  assumes "owns d \<sigma> m P"
  shows "owns (d + F) \<sigma> m (\<lambda>x d' \<sigma>'. \<exists>e. d' = e + F \<and> P x e \<sigma>')"
  unfolding owns_def
proof (intro allI impI)
  fix s :: kstate
  assume "st s = \<sigma>"
  obtain x s' where m: "run_state m s = (x, s')" by fastforce
  with assms \<open>st s = \<sigma>\<close> obtain new d' where
      "trace s' = trace s @ new" "replay d new = Some d'" "P x d' (st s')"
    by (auto simp: owns_def)
  then show "case run_state m s of (x, s') \<Rightarrow> \<exists>new d'. trace s' = trace s @ new \<and>
      replay (d + F) new = Some d' \<and> (\<exists>e. d' = e + F \<and> P x e (st s'))"
    using m replay_frame by auto
qed

text \<open>A specification that returns exactly the references it started with can be used anywhere.\<close>

lemma owns_neutral:
  assumes "owns {#} \<sigma> m (\<lambda>x d' \<sigma>'. d' = {#} \<and> P x \<sigma>')" "\<And>x \<sigma>'. P x \<sigma>' \<Longrightarrow> Q x d \<sigma>'"
  shows "owns d \<sigma> m Q"
  using owns_mono [OF owns_frame [OF assms(1), where F = d], of Q] assms(2) by auto

text \<open>What a specification says of one run.\<close>

lemma owns_run:
  assumes "owns d \<sigma> m Q" "st s = \<sigma>"
  shows "\<exists>new d'. trace (snd (run_state m s)) = trace s @ new \<and> replay d new = Some d' \<and>
    Q (fst (run_state m s)) d' (st (snd (run_state m s)))"
  using assms by (auto simp: owns_def split: prod.splits)

end
