(* ===== verification/Kernel_Calls.thy ===== *)
theory Kernel_Calls
  imports Kernel_Env
begin

text \<open>
  The calls of \<open>base.c\<close> into the rest of the kernel, under their C names. A function that
  returns a counted reference logs \<open>Acq\<close> for it, a put logs \<open>Rel\<close>, locks likewise; a
  read of a field owned by other code is a query. None of these definitions says how the kernel
  answers: that is the parameter \<open>K\<close>.
\<close>

declare Let_def [kernel_defs]

section \<open>Objects of the store\<close>

definition get_inode :: "ptr \<Rightarrow> inode k" where [kernel_defs]:
  "get_inode p = do { \<sigma> \<leftarrow> get_st; return (inodes \<sigma> p) }"

definition upd_inode :: "ptr \<Rightarrow> (inode \<Rightarrow> inode) \<Rightarrow> unit k" where [kernel_defs]:
  "upd_inode p f = upd_st (\<lambda>\<sigma>. \<sigma>\<lparr>inodes := (inodes \<sigma>)(p := f (inodes \<sigma> p))\<rparr>)"

definition get_dentry :: "ptr \<Rightarrow> dentry k" where [kernel_defs]:
  "get_dentry p = do { \<sigma> \<leftarrow> get_st; return (dentries \<sigma> p) }"

definition upd_dentry :: "ptr \<Rightarrow> (dentry \<Rightarrow> dentry) \<Rightarrow> unit k" where [kernel_defs]:
  "upd_dentry p f = upd_st (\<lambda>\<sigma>. \<sigma>\<lparr>dentries := (dentries \<sigma>)(p := f (dentries \<sigma> p))\<rparr>)"

definition get_filp :: "ptr \<Rightarrow> file_struct k" where [kernel_defs]:
  "get_filp p = do { \<sigma> \<leftarrow> get_st; return (filps \<sigma> p) }"

definition upd_filp :: "ptr \<Rightarrow> (file_struct \<Rightarrow> file_struct) \<Rightarrow> unit k" where [kernel_defs]:
  "upd_filp p f = upd_st (\<lambda>\<sigma>. \<sigma>\<lparr>filps := (filps \<sigma>)(p := f (filps \<sigma> p))\<rparr>)"

text \<open>\<open>file->f_path.dentry->d_inode\<close>\<close>

definition file_inode :: "ptr \<Rightarrow> ptr k" where [kernel_defs]:
  "file_inode filp = do { \<sigma> \<leftarrow> get_st; return (d_inode (dentries \<sigma> (f_dentry (filps \<sigma> filp)))) }"

section \<open>Locks\<close>

definition take_lock :: "lock \<Rightarrow> unit k" where [kernel_defs]:
  "take_lock l = emit (Acq (RLock l))"

definition drop_lock :: "lock \<Rightarrow> unit k" where [kernel_defs]:
  "drop_lock l = emit (Rel (RLock l))"

abbreviation "task_lock t \<equiv> take_lock (Task_lock t)"
abbreviation "task_unlock t \<equiv> drop_lock (Task_lock t)"
abbreviation "rcu_read_lock \<equiv> take_lock Rcu_read"
abbreviation "rcu_read_unlock \<equiv> drop_lock Rcu_read"
abbreviation "read_lock_fs fs \<equiv> take_lock (Fs_lock fs)"
abbreviation "read_unlock_fs fs \<equiv> drop_lock (Fs_lock fs)"
abbreviation "down_read_mmap mm \<equiv> take_lock (Mmap_sem mm)"
abbreviation "up_read_mmap mm \<equiv> drop_lock (Mmap_sem mm)"
abbreviation "spin_lock_files files \<equiv> take_lock (File_lock files)"
abbreviation "spin_unlock_files files \<equiv> drop_lock (File_lock files)"

text \<open>\<open>lock_task_sighand\<close> fails when the task has no signal handlers left.\<close>

definition lock_task_sighand :: "kenv \<Rightarrow> ptr \<Rightarrow> bool k" where [kernel_defs]:
  "lock_task_sighand K task = do {
     r \<leftarrow> ask_int K (TaskQ (Q_lock_task_sighand task));
     (if r \<noteq> 0 then do { take_lock (Sighand_lock task); return True } else return False) }"

abbreviation "unlock_task_sighand task \<equiv> drop_lock (Sighand_lock task)"

section \<open>Tasks and pids\<close>

definition get_proc_task :: "kenv \<Rightarrow> ptr \<Rightarrow> ptr k" where [kernel_defs]:
  "get_proc_task K inode = acq_ptr K (TaskQ (Q_get_proc_task inode)) RTask"

definition get_pid_task :: "kenv \<Rightarrow> ptr \<Rightarrow> ptr k" where [kernel_defs]:
  "get_pid_task K pid = acq_ptr K (TaskQ (Q_get_pid_task pid)) RTask"

definition get_task_struct :: "ptr \<Rightarrow> unit k" where [kernel_defs]:
  "get_task_struct task = emit (Acq (RTask task))"

definition put_task_struct :: "ptr \<Rightarrow> unit k" where [kernel_defs]:
  "put_task_struct task = emit (Rel (RTask task))"

definition pid_task :: "kenv \<Rightarrow> ptr \<Rightarrow> ptr k" where [kernel_defs]:
  "pid_task K pid = ask_ptr K (TaskQ (Q_pid_task pid))"

text \<open>The reference \<open>get_task_pid\<close> takes is stored in the inode, which drops it when evicted.\<close>

definition get_task_pid :: "kenv \<Rightarrow> ptr \<Rightarrow> ptr k" where [kernel_defs]:
  "get_task_pid K task = ask_ptr K (TaskQ (Q_get_task_pid task))"

definition find_task_by_pid_ns :: "kenv \<Rightarrow> u32 \<Rightarrow> ptr \<Rightarrow> ptr k" where [kernel_defs]:
  "find_task_by_pid_ns K nr ns = ask_ptr K (TaskQ (Q_find_task_by_pid_ns nr ns))"

definition find_ge_pid :: "kenv \<Rightarrow> u32 \<Rightarrow> ptr \<Rightarrow> ptr k" where [kernel_defs]:
  "find_ge_pid K nr ns = ask_ptr K (TaskQ (Q_find_ge_pid nr ns))"

definition pid_nr_ns :: "kenv \<Rightarrow> ptr \<Rightarrow> ptr \<Rightarrow> int k" where [kernel_defs]:
  "pid_nr_ns K pid ns = ask_int K (TaskQ (Q_pid_nr_ns pid ns))"

definition task_pid_nr_ns :: "kenv \<Rightarrow> ptr \<Rightarrow> ptr \<Rightarrow> int k" where [kernel_defs]:
  "task_pid_nr_ns K task ns = ask_int K (TaskQ (Q_task_pid_nr_ns task ns))"

definition has_group_leader_pid :: "kenv \<Rightarrow> ptr \<Rightarrow> int k" where [kernel_defs]:
  "has_group_leader_pid K task = ask_int K (TaskQ (Q_has_group_leader_pid task))"

definition thread_group_leader :: "kenv \<Rightarrow> ptr \<Rightarrow> int k" where [kernel_defs]:
  "thread_group_leader K task = ask_int K (TaskQ (Q_thread_group_leader task))"

definition pid_alive :: "kenv \<Rightarrow> ptr \<Rightarrow> int k" where [kernel_defs]:
  "pid_alive K task = ask_int K (TaskQ (Q_pid_alive task))"

definition same_thread_group :: "kenv \<Rightarrow> ptr \<Rightarrow> ptr \<Rightarrow> int k" where [kernel_defs]:
  "same_thread_group K t u = ask_int K (TaskQ (Q_same_thread_group t u))"

definition next_thread :: "kenv \<Rightarrow> ptr \<Rightarrow> ptr k" where [kernel_defs]:
  "next_thread K task = ask_ptr K (TaskQ (Q_next_thread task))"

definition group_leader :: "kenv \<Rightarrow> ptr \<Rightarrow> ptr k" where [kernel_defs]:
  "group_leader K task = ask_ptr K (TaskQ (Q_group_leader task))"

definition s_fs_info :: "kenv \<Rightarrow> ptr \<Rightarrow> ptr k" where [kernel_defs]:
  "s_fs_info K sb = ask_ptr K (TaskQ (Q_s_fs_info sb))"

definition current :: "kenv \<Rightarrow> ptr k" where [kernel_defs]:
  "current K = ask_ptr K (TaskQ Q_current)"

definition task_pid :: "kenv \<Rightarrow> ptr \<Rightarrow> ptr k" where [kernel_defs]:
  "task_pid K task = ask_ptr K (TaskQ (Q_task_pid task))"

definition task_tgid :: "kenv \<Rightarrow> ptr \<Rightarrow> ptr k" where [kernel_defs]:
  "task_tgid K task = ask_ptr K (TaskQ (Q_task_tgid task))"

definition signal_count :: "kenv \<Rightarrow> ptr \<Rightarrow> int k" where [kernel_defs]:
  "signal_count K task = ask_int K (TaskQ (Q_signal_count task))"

section \<open>Credentials and access decisions\<close>

definition task_cred :: "kenv \<Rightarrow> ptr \<Rightarrow> ptr k" where [kernel_defs]:
  "task_cred K task = ask_ptr K (AccessQ (Q_task_cred task))"

definition cred_euid :: "kenv \<Rightarrow> ptr \<Rightarrow> u32 k" where [kernel_defs]:
  "cred_euid K cred = do { r \<leftarrow> ask_int K (AccessQ (Q_cred_euid cred)); return (word_of_int r) }"

definition cred_egid :: "kenv \<Rightarrow> ptr \<Rightarrow> u32 k" where [kernel_defs]:
  "cred_egid K cred = do { r \<leftarrow> ask_int K (AccessQ (Q_cred_egid cred)); return (word_of_int r) }"

definition get_dumpable :: "kenv \<Rightarrow> ptr \<Rightarrow> int k" where [kernel_defs]:
  "get_dumpable K mm = ask_int K (AccessQ (Q_get_dumpable mm))"

abbreviation (input) PTRACE_MODE_READ :: nat where "PTRACE_MODE_READ \<equiv> 1"
abbreviation (input) PTRACE_MODE_ATTACH :: nat where "PTRACE_MODE_ATTACH \<equiv> 2"

definition ptrace_may_access :: "kenv \<Rightarrow> ptr \<Rightarrow> nat \<Rightarrow> int k" where [kernel_defs]:
  "ptrace_may_access K task mode = ask_int K (AccessQ (Q_ptrace_may_access task mode))"

text \<open>\<open>__ptrace_may_access\<close>\<close>

definition ptrace_may_access_locked :: "kenv \<Rightarrow> ptr \<Rightarrow> nat \<Rightarrow> int k" where [kernel_defs]:
  "ptrace_may_access_locked K task mode =
     ask_int K (AccessQ (Q_ptrace_may_access_locked task mode))"

definition capable :: "kenv \<Rightarrow> nat \<Rightarrow> int k" where [kernel_defs]:
  "capable K cap = ask_int K (AccessQ (Q_capable cap))"

definition security_task_to_inode :: "ptr \<Rightarrow> ptr \<Rightarrow> unit k" where [kernel_defs]:
  "security_task_to_inode task inode = emit (Fx (Security_task_to_inode task inode))"

section \<open>Memory descriptors, pages, user memory\<close>

definition task_mm :: "kenv \<Rightarrow> ptr \<Rightarrow> ptr k" where [kernel_defs]:
  "task_mm K task = ask_ptr K (MmQ (Q_task_mm task))"

definition get_task_mm :: "kenv \<Rightarrow> ptr \<Rightarrow> ptr k" where [kernel_defs]:
  "get_task_mm K task = acq_ptr K (MmQ (Q_get_task_mm task)) RMm"

definition mmput :: "ptr \<Rightarrow> unit k" where [kernel_defs]:
  "mmput mm = emit (Rel (RMm mm))"

definition get_free_page :: "kenv \<Rightarrow> ptr k" where [kernel_defs]:
  "get_free_page K = acq_ptr K (MmQ Q_get_free_page) RPage"

definition free_page :: "ptr \<Rightarrow> unit k" where [kernel_defs]:
  "free_page p = emit (Rel (RPage p))"

text \<open>
  \<open>access_process_vm(task, addr, buf, len, 0)\<close>: the return value, and the bytes then found at
  the start of the buffer.
\<close>

definition access_process_vm :: "kenv \<Rightarrow> ptr \<Rightarrow> u32 \<Rightarrow> nat \<Rightarrow> (int \<times> string) k" where [kernel_defs]:
  "access_process_vm K task addr len = do {
     r \<leftarrow> ask_int K (MmQ (Q_access_process_vm task addr len));
     bs \<leftarrow> ask_str K (MmQ (Q_vm_bytes task addr len));
     return (r, bs) }"

text \<open>
  \<open>access_process_vm(task, addr, buf, len, 1)\<close>: the return value is the number of bytes of the
  buffer that were written to the memory of the task.
\<close>

definition write_process_vm :: "kenv \<Rightarrow> ptr \<Rightarrow> u32 \<Rightarrow> string \<Rightarrow> nat \<Rightarrow> int k" where [kernel_defs]:
  "write_process_vm K task addr buf len = do {
     r \<leftarrow> ask_int K (MmQ (Q_vm_write task addr len));
     upd_st (\<lambda>\<sigma>. \<sigma>\<lparr>vm_writes := vm_writes \<sigma> @ [(task, addr, take (nat r) buf)]\<rparr>);
     return r }"

text \<open>\<open>copy_to_user\<close>: non-zero on a fault; on success the caller's buffer has the bytes.\<close>

definition copy_to_user :: "kenv \<Rightarrow> string \<Rightarrow> int k" where [kernel_defs]:
  "copy_to_user K bs = do {
     r \<leftarrow> ask_int K (MmQ (Q_copy_to_user (length bs)));
     (if r = 0 then upd_st (\<lambda>\<sigma>. \<sigma>\<lparr>uout := uout \<sigma> @ bs\<rparr>) else return ());
     return r }"

text \<open>\<open>copy_from_user\<close>: non-zero on a fault, and the bytes now in the kernel buffer.\<close>

definition copy_from_user :: "kenv \<Rightarrow> ptr \<Rightarrow> nat \<Rightarrow> (int \<times> string) k" where [kernel_defs]:
  "copy_from_user K buf n = do {
     r \<leftarrow> ask_int K (MmQ (Q_copy_from_user buf n));
     bs \<leftarrow> ask_str K (MmQ (Q_user_bytes buf n));
     return (r, bs) }"

section \<open>Files, inodes and the dcache\<close>

definition get_files_struct :: "kenv \<Rightarrow> ptr \<Rightarrow> ptr k" where [kernel_defs]:
  "get_files_struct K task = acq_ptr K (VfsQ (Q_get_files_struct task)) RFiles"

definition put_files_struct :: "ptr \<Rightarrow> unit k" where [kernel_defs]:
  "put_files_struct files = emit (Rel (RFiles files))"

definition fcheck_files :: "kenv \<Rightarrow> ptr \<Rightarrow> u32 \<Rightarrow> ptr k" where [kernel_defs]:
  "fcheck_files K files fd = ask_ptr K (VfsQ (Q_fcheck_files files fd))"

text \<open>\<open>files_fdtable(files)->max_fds\<close>\<close>

definition max_fds :: "kenv \<Rightarrow> ptr \<Rightarrow> u32 k" where [kernel_defs]:
  "max_fds K files = do { r \<leftarrow> ask_int K (VfsQ (Q_max_fds files)); return (word_of_int r) }"

text \<open>\<open>file->f_mode\<close> of a file of another task; \<open>FMODE_READ\<close> is 1, \<open>FMODE_WRITE\<close> 2.\<close>

definition file_mode :: "kenv \<Rightarrow> ptr \<Rightarrow> u32 k" where [kernel_defs]:
  "file_mode K f = do { r \<leftarrow> ask_int K (VfsQ (Q_file_mode f)); return (word_of_int r) }"

definition new_inode :: "kenv \<Rightarrow> ptr \<Rightarrow> ptr k" where [kernel_defs]:
  "new_inode K sb = acq_ptr K (VfsQ (Q_new_inode sb)) RInode"

definition iput :: "ptr \<Rightarrow> unit k" where [kernel_defs]:
  "iput inode = emit (Rel (RInode inode))"

definition CURRENT_TIME :: "kenv \<Rightarrow> int k" where [kernel_defs]:
  "CURRENT_TIME K = ask_int K (VfsQ Q_CURRENT_TIME)"

text \<open>\<open>d_add\<close> hands the caller's reference on the inode to the dentry.\<close>

definition d_add :: "kenv \<Rightarrow> ptr \<Rightarrow> ptr \<Rightarrow> unit k" where [kernel_defs]:
  "d_add K dentry inode = do {
     emit (Fx (D_add dentry inode));
     upd_st (\<lambda>\<sigma>. \<sigma>\<lparr>dentries := d_add_effect K dentry inode (dentries \<sigma>)\<rparr>);
     emit (Rel (RInode inode)) }"

definition d_drop :: "ptr \<Rightarrow> unit k" where [kernel_defs]:
  "d_drop dentry = emit (Fx (D_drop dentry))"

definition d_lookup :: "kenv \<Rightarrow> ptr \<Rightarrow> string \<Rightarrow> ptr k" where [kernel_defs]:
  "d_lookup K dir qname = acq_ptr K (VfsQ (Q_d_lookup dir qname)) RDentry"

definition d_alloc :: "kenv \<Rightarrow> ptr \<Rightarrow> string \<Rightarrow> ptr k" where [kernel_defs]:
  "d_alloc K dir qname = acq_ptr K (VfsQ (Q_d_alloc dir qname)) RDentry"

definition dput :: "ptr \<Rightarrow> unit k" where [kernel_defs]:
  "dput dentry = emit (Rel (RDentry dentry))"

definition find_inode_number :: "kenv \<Rightarrow> ptr \<Rightarrow> string \<Rightarrow> u32 k" where [kernel_defs]:
  "find_inode_number K dir qname = do {
     r \<leftarrow> ask_int K (VfsQ (Q_find_inode_number dir qname)); return (word_of_int r) }"

definition parent_ino :: "kenv \<Rightarrow> ptr \<Rightarrow> u32 k" where [kernel_defs]:
  "parent_ino K dentry = do { r \<leftarrow> ask_int K (VfsQ (Q_parent_ino dentry)); return (word_of_int r) }"

abbreviation (input) DT_UNKNOWN :: nat where "DT_UNKNOWN \<equiv> 0"
abbreviation (input) DT_DIR :: nat where "DT_DIR \<equiv> 4"

text \<open>
  The caller's \<open>filldir\<close>: a negative value refuses the entry, any other accepts it. The
  store keeps the accepted entries.
\<close>

definition filldir :: "kenv \<Rightarrow> string \<Rightarrow> int \<Rightarrow> u32 \<Rightarrow> nat \<Rightarrow> int k" where [kernel_defs]:
  "filldir K name off ino type = do {
     r \<leftarrow> ask_int K (VfsQ (Q_filldir name off ino type));
     (if r < 0 then return ()
      else upd_st (\<lambda>\<sigma>. \<sigma>\<lparr>dirents := dirents \<sigma> @
             [\<lparr>de_name = name, de_off = off, de_ino = ino, de_type = type\<rparr>]\<rparr>));
     return r }"

text \<open>\<open>filp->f_pos++\<close>\<close>

definition f_pos_inc :: "ptr \<Rightarrow> unit k" where [kernel_defs]:
  "f_pos_inc filp = upd_filp filp (\<lambda>f. f\<lparr>f_pos := s64 (f_pos f + 1)\<rparr>)"

definition call_hook :: "hook_fn \<Rightarrow> unit k" where [kernel_defs]:
  "call_hook h = emit (Fx (Hook_call h))"

section \<open>A concrete kernel\<close>

text \<open>
  A kernel whose every pointer answer is the object \<open>p\<close> and whose every integer answer is
  \<open>n\<close>, with the documented \<open>d_add\<close>, and a store in which every dentry has an inode. The hypotheses that properties put on the
  rest of the kernel hold for it.
\<close>

definition ex_kernel :: "ptr \<Rightarrow> int \<Rightarrow> kenv" where
  "ex_kernel p n =
     \<lparr>ans_ptr = \<lambda>_ _. p, ans_int = \<lambda>_ _. n, ans_str = \<lambda>_ _. [],
      simple_strtol = \<lambda>_ _. (0, 0), simple_strtoul = \<lambda>_ _. (0, 0),
      d_add_effect = \<lambda>e i f. f(e := (f e)\<lparr>d_inode := i\<rparr>),
      generic_fillattr = \<lambda>i. \<lparr>ks_uid = i_uid i, ks_gid = i_gid i, ks_nlink = i_nlink i\<rparr>\<rparr>"

definition ex_store :: store where
  "ex_store =
     \<lparr>inodes = \<lambda>_. \<lparr>i_ino = 1, i_mode = 0, i_uid = 0, i_gid = 0, i_nlink = 1, i_size = 0,
        i_flags = 0, i_time = 0, i_op = None, i_fop = None, i_sb = 1, ei_pid = 1, ei_fd = 0,
        ei_op = No_op\<rparr>,
      dentries = \<lambda>_. \<lparr>d_name = ''fd'', d_inode = 1, d_op = None, d_sb = 1\<rparr>,
      filps = \<lambda>_. \<lparr>f_pos = 0, f_version = 0, f_dentry = 1, f_private = No_private\<rparr>,
      dirents = [], uout = [], vm_writes = [], oomkilladj = \<lambda>_. 0, make_it_fail = \<lambda>_. 0, mm_flags = \<lambda>_. 0,
      exe_file = \<lambda>_. 0, num_exe_file_vmas = \<lambda>_. 0,
      honeypot_hooks = \<lparr>in_proc_pid_readdir = Dummy_in_proc_pid_readdir, dummy_hook = Null_hook\<rparr>,
      seqs = \<lambda>_. \<lparr>m_private = 0, pm_ns = 0, pm_root = 0, pm_event = 0\<rparr>,
      nds = \<lambda>_. \<lparr>nd_path = 0, nd_last_type = LAST_NORM\<rparr>\<rparr>"

end
