(* ===== verification/Pid_Entries.thy ===== *)
theory Pid_Entries
  imports Kernel_Env "HOL-Library.Sublist"
begin

text \<open>
  \<open>struct pid_entry\<close>, the macros that build one (\<open>NOD\<close>, \<open>DIR\<close>, \<open>LNK\<close>, \<open>REG\<close>,
  \<open>INF\<close>, \<open>ONE\<close>), the tables of \<open>fs/proc/base.c\<close> for every kernel configuration, and
  \<open>pid_entry_count_dirs\<close>. The theorems: names in a table are pairwise different, so each entry
  is reachable by its name; the link count equals the number of directories; and the member of
  \<open>union proc_op\<close> an entry sets is the one its operations read.
\<close>

section \<open>Entries\<close>

record pid_entry =
  pe_name :: string
  pe_len :: int
  pe_mode :: u16
  pe_iop :: "inode_operations option"
  pe_fop :: "file_operations option"
  pe_op :: proc_op

definition NOD ::
    "string \<Rightarrow> u16 \<Rightarrow> inode_operations option \<Rightarrow> file_operations option \<Rightarrow> proc_op \<Rightarrow> pid_entry" where
  "NOD nm md io fo op =
     \<lparr>pe_name = nm, pe_len = int (length nm), pe_mode = md, pe_iop = io, pe_fop = fo, pe_op = op\<rparr>"

definition DIR :: "string \<Rightarrow> u16 \<Rightarrow> inode_operations \<Rightarrow> file_operations \<Rightarrow> pid_entry" where
  "DIR nm md iops fops = NOD nm (S_IFDIR OR md) (Some iops) (Some fops) No_op"

definition LNK :: "string \<Rightarrow> link_fn \<Rightarrow> pid_entry" where
  "LNK nm get_link = NOD nm (S_IFLNK OR S_IRWXUGO) (Some proc_pid_link_inode_operations) None
     (Proc_get_link get_link)"

definition REG :: "string \<Rightarrow> u16 \<Rightarrow> file_operations \<Rightarrow> pid_entry" where
  "REG nm md fops = NOD nm (S_IFREG OR md) None (Some fops) No_op"

definition INF_e :: "string \<Rightarrow> u16 \<Rightarrow> read_fn \<Rightarrow> pid_entry" where
  "INF_e nm md rd = NOD nm (S_IFREG OR md) None (Some proc_info_file_operations) (Proc_read rd)"

definition ONE :: "string \<Rightarrow> u16 \<Rightarrow> show_fn \<Rightarrow> pid_entry" where
  "ONE nm md sh = NOD nm (S_IFREG OR md) None (Some proc_single_file_operations) (Proc_show sh)"

lemmas entry_defs = NOD_def DIR_def LNK_def REG_def INF_e_def ONE_def

text \<open>The loop over the table, with its unsigned counters.\<close>

function pid_entry_count_dirs_from :: "pid_entry list \<Rightarrow> u32 \<Rightarrow> u32 \<Rightarrow> u32 \<Rightarrow> u32" where
  "pid_entry_count_dirs_from entries n i cnt =
     (if i < n
      then pid_entry_count_dirs_from entries n (i + 1)
             (if S_ISDIR (pe_mode (entries ! unat i)) then cnt + 1 else cnt)
      else cnt)"
  by pat_completeness auto
termination
  by (relation "measure (\<lambda>(entries, n, i, cnt). unat n - unat i)")
    (auto simp: unat_inc word_less_nat_alt)

declare pid_entry_count_dirs_from.simps [simp del]

definition pid_entry_count_dirs :: "pid_entry list \<Rightarrow> u32 \<Rightarrow> u32" where
  "pid_entry_count_dirs entries n = pid_entry_count_dirs_from entries n 0 0"

definition ARRAY_SIZE :: "'a list \<Rightarrow> u32" where
  "ARRAY_SIZE xs = of_nat (length xs)"

section \<open>Kernel configuration and tables\<close>

datatype config =
    CONFIG_NET | CONFIG_SCHED_DEBUG | CONFIG_HAVE_ARCH_TRACEHOOK | CONFIG_NUMA
  | CONFIG_PROC_PAGE_MONITOR | CONFIG_SECURITY | CONFIG_KALLSYMS | CONFIG_STACKTRACE
  | CONFIG_SCHEDSTATS | CONFIG_LATENCYTOP | CONFIG_PROC_PID_CPUSET | CONFIG_CGROUPS
  | CONFIG_AUDITSYSCALL | CONFIG_FAULT_INJECTION | CONFIG_ELF_CORE_DUMP
  | CONFIG_TASK_IO_ACCOUNTING

type_synonym kconfig = "config \<Rightarrow> bool"

definition ifdef :: "bool \<Rightarrow> pid_entry list \<Rightarrow> pid_entry list" where
  "ifdef b es = (if b then es else [])"

definition attr_dir_stuff :: "pid_entry list" where
  "attr_dir_stuff =
    [REG ''current'' (S_IRUGO OR S_IWUGO) proc_pid_attr_operations,
     REG ''prev'' S_IRUGO proc_pid_attr_operations,
     REG ''exec'' (S_IRUGO OR S_IWUGO) proc_pid_attr_operations,
     REG ''fscreate'' (S_IRUGO OR S_IWUGO) proc_pid_attr_operations,
     REG ''keycreate'' (S_IRUGO OR S_IWUGO) proc_pid_attr_operations,
     REG ''sockcreate'' (S_IRUGO OR S_IWUGO) proc_pid_attr_operations]"

definition proc_base_stuff :: "pid_entry list" where
  "proc_base_stuff =
    [NOD ''self'' (S_IFLNK OR S_IRWXUGO) (Some proc_self_inode_operations) None No_op]"

definition tgid_base_stuff :: "kconfig \<Rightarrow> pid_entry list" where
  "tgid_base_stuff c =
    [DIR ''task'' (S_IRUGO OR S_IXUGO) proc_task_inode_operations proc_task_operations,
     DIR ''fd'' (S_IRUSR OR S_IXUSR) proc_fd_inode_operations proc_fd_operations,
     DIR ''fdinfo'' (S_IRUSR OR S_IXUSR) proc_fdinfo_inode_operations proc_fdinfo_operations] @
    ifdef (c CONFIG_NET)
    [DIR ''net'' (S_IRUGO OR S_IXUGO) proc_net_inode_operations proc_net_operations] @
    [REG ''environ'' S_IRUSR proc_environ_operations,
     INF_e ''auxv'' S_IRUSR R_auxv,
     ONE ''status'' S_IRUGO S_status,
     ONE ''personality'' S_IRUSR S_personality,
     INF_e ''limits'' S_IRUSR R_limits] @
    ifdef (c CONFIG_SCHED_DEBUG)
    [REG ''sched'' (S_IRUGO OR S_IWUSR) proc_pid_sched_operations] @
    ifdef (c CONFIG_HAVE_ARCH_TRACEHOOK)
    [INF_e ''syscall'' S_IRUSR R_syscall] @
    [INF_e ''cmdline'' S_IRUGO R_cmdline,
     ONE ''stat'' S_IRUGO S_tgid_stat,
     ONE ''statm'' S_IRUGO S_statm,
     REG ''maps'' S_IRUGO proc_maps_operations] @
    ifdef (c CONFIG_NUMA)
    [REG ''numa_maps'' S_IRUGO proc_numa_maps_operations] @
    [REG ''mem'' (S_IRUSR OR S_IWUSR) proc_mem_operations,
     LNK ''cwd'' L_cwd,
     LNK ''root'' L_root,
     LNK ''exe'' L_exe,
     REG ''mounts'' S_IRUGO proc_mounts_operations,
     REG ''mountinfo'' S_IRUGO proc_mountinfo_operations,
     REG ''mountstats'' S_IRUSR proc_mountstats_operations] @
    ifdef (c CONFIG_PROC_PAGE_MONITOR)
    [REG ''clear_refs'' S_IWUSR proc_clear_refs_operations,
     REG ''smaps'' S_IRUGO proc_smaps_operations,
     REG ''pagemap'' S_IRUSR proc_pagemap_operations] @
    ifdef (c CONFIG_SECURITY)
    [DIR ''attr'' (S_IRUGO OR S_IXUGO) proc_attr_dir_inode_operations proc_attr_dir_operations] @
    ifdef (c CONFIG_KALLSYMS)
    [INF_e ''wchan'' S_IRUGO R_wchan] @
    ifdef (c CONFIG_STACKTRACE)
    [ONE ''stack'' S_IRUSR S_stack] @
    ifdef (c CONFIG_SCHEDSTATS)
    [INF_e ''schedstat'' S_IRUGO R_schedstat] @
    ifdef (c CONFIG_LATENCYTOP)
    [REG ''latency'' S_IRUGO proc_lstats_operations] @
    ifdef (c CONFIG_PROC_PID_CPUSET)
    [REG ''cpuset'' S_IRUGO proc_cpuset_operations] @
    ifdef (c CONFIG_CGROUPS)
    [REG ''cgroup'' S_IRUGO proc_cgroup_operations] @
    [INF_e ''oom_score'' S_IRUGO R_oom_score,
     REG ''oom_adj'' (S_IRUGO OR S_IWUSR) proc_oom_adjust_operations] @
    ifdef (c CONFIG_AUDITSYSCALL)
    [REG ''loginuid'' (S_IWUSR OR S_IRUGO) proc_loginuid_operations,
     REG ''sessionid'' S_IRUGO proc_sessionid_operations] @
    ifdef (c CONFIG_FAULT_INJECTION)
    [REG ''make-it-fail'' (S_IRUGO OR S_IWUSR) proc_fault_inject_operations] @
    ifdef (c CONFIG_ELF_CORE_DUMP)
    [REG ''coredump_filter'' (S_IRUGO OR S_IWUSR) proc_coredump_filter_operations] @
    ifdef (c CONFIG_TASK_IO_ACCOUNTING)
    [INF_e ''io'' S_IRUGO R_tgid_io]"

definition tid_base_stuff :: "kconfig \<Rightarrow> pid_entry list" where
  "tid_base_stuff c =
    [DIR ''fd'' (S_IRUSR OR S_IXUSR) proc_fd_inode_operations proc_fd_operations,
     DIR ''fdinfo'' (S_IRUSR OR S_IXUSR) proc_fdinfo_inode_operations proc_fd_operations,
     REG ''environ'' S_IRUSR proc_environ_operations,
     INF_e ''auxv'' S_IRUSR R_auxv,
     ONE ''status'' S_IRUGO S_status,
     ONE ''personality'' S_IRUSR S_personality,
     INF_e ''limits'' S_IRUSR R_limits] @
    ifdef (c CONFIG_SCHED_DEBUG)
    [REG ''sched'' (S_IRUGO OR S_IWUSR) proc_pid_sched_operations] @
    ifdef (c CONFIG_HAVE_ARCH_TRACEHOOK)
    [INF_e ''syscall'' S_IRUSR R_syscall] @
    [INF_e ''cmdline'' S_IRUGO R_cmdline,
     ONE ''stat'' S_IRUGO S_tid_stat,
     ONE ''statm'' S_IRUGO S_statm,
     REG ''maps'' S_IRUGO proc_maps_operations] @
    ifdef (c CONFIG_NUMA)
    [REG ''numa_maps'' S_IRUGO proc_numa_maps_operations] @
    [REG ''mem'' (S_IRUSR OR S_IWUSR) proc_mem_operations,
     LNK ''cwd'' L_cwd,
     LNK ''root'' L_root,
     LNK ''exe'' L_exe,
     REG ''mounts'' S_IRUGO proc_mounts_operations,
     REG ''mountinfo'' S_IRUGO proc_mountinfo_operations] @
    ifdef (c CONFIG_PROC_PAGE_MONITOR)
    [REG ''clear_refs'' S_IWUSR proc_clear_refs_operations,
     REG ''smaps'' S_IRUGO proc_smaps_operations,
     REG ''pagemap'' S_IRUSR proc_pagemap_operations] @
    ifdef (c CONFIG_SECURITY)
    [DIR ''attr'' (S_IRUGO OR S_IXUGO) proc_attr_dir_inode_operations proc_attr_dir_operations] @
    ifdef (c CONFIG_KALLSYMS)
    [INF_e ''wchan'' S_IRUGO R_wchan] @
    ifdef (c CONFIG_STACKTRACE)
    [ONE ''stack'' S_IRUSR S_stack] @
    ifdef (c CONFIG_SCHEDSTATS)
    [INF_e ''schedstat'' S_IRUGO R_schedstat] @
    ifdef (c CONFIG_LATENCYTOP)
    [REG ''latency'' S_IRUGO proc_lstats_operations] @
    ifdef (c CONFIG_PROC_PID_CPUSET)
    [REG ''cpuset'' S_IRUGO proc_cpuset_operations] @
    ifdef (c CONFIG_CGROUPS)
    [REG ''cgroup'' S_IRUGO proc_cgroup_operations] @
    [INF_e ''oom_score'' S_IRUGO R_oom_score,
     REG ''oom_adj'' (S_IRUGO OR S_IWUSR) proc_oom_adjust_operations] @
    ifdef (c CONFIG_AUDITSYSCALL)
    [REG ''loginuid'' (S_IWUSR OR S_IRUGO) proc_loginuid_operations,
     REG ''sessionid'' S_IRUSR proc_sessionid_operations] @
    ifdef (c CONFIG_FAULT_INJECTION)
    [REG ''make-it-fail'' (S_IRUGO OR S_IWUSR) proc_fault_inject_operations] @
    ifdef (c CONFIG_TASK_IO_ACCOUNTING)
    [INF_e ''io'' S_IRUGO R_tid_io]"

section \<open>Lemmas\<close>

lemma pid_entry_count_dirs_from_eq:
  assumes "length entries < 2 ^ 32" "unat i \<le> length entries"
  shows "pid_entry_count_dirs_from entries (ARRAY_SIZE entries) i cnt =
    cnt + of_nat (length (filter (\<lambda>e. S_ISDIR (pe_mode e)) (drop (unat i) entries)))"
  using assms
proof (induction entries "ARRAY_SIZE entries" i cnt rule: pid_entry_count_dirs_from.induct)
  case (1 entries i cnt)
  have n: "unat (ARRAY_SIZE entries) = length entries"
    using "1.prems"(1) by (simp add: ARRAY_SIZE_def)
  show ?case
  proof (cases "i < ARRAY_SIZE entries")
    case True
    then have i: "unat i < length entries" using n by (simp add: word_less_nat_alt)
    have "drop (unat i) entries = entries ! unat i # drop (unat (i + 1)) entries"
      using i unat_inc [OF True] by (simp add: Cons_nth_drop_Suc)
    moreover have "unat (i + 1) \<le> length entries" using i unat_inc [OF True] by simp
    ultimately show ?thesis
      using "1.hyps" "1.prems"(1) True
      by (subst pid_entry_count_dirs_from.simps) (simp add: algebra_simps)
  next
    case False
    then have "length entries \<le> unat i" using n by (simp add: word_less_nat_alt)
    then show ?thesis using False by (subst pid_entry_count_dirs_from.simps) simp
  qed
qed

lemma pid_entry_count_dirs_eq:
  "length entries < 2 ^ 32 \<Longrightarrow>
   pid_entry_count_dirs entries (ARRAY_SIZE entries) =
     of_nat (length (filter (\<lambda>e. S_ISDIR (pe_mode e)) entries))"
  by (simp add: pid_entry_count_dirs_def pid_entry_count_dirs_from_eq)

text \<open>
  Well-formed entries and tables. \<open>union_ok\<close>: the operations that read a member of
  \<open>union proc_op\<close> go with an entry that set that member.
\<close>

definition is_proc_read :: "proc_op \<Rightarrow> bool" where
  "is_proc_read u \<longleftrightarrow> (case u of Proc_read _ \<Rightarrow> True | _ \<Rightarrow> False)"

definition is_proc_show :: "proc_op \<Rightarrow> bool" where
  "is_proc_show u \<longleftrightarrow> (case u of Proc_show _ \<Rightarrow> True | _ \<Rightarrow> False)"

definition is_proc_get_link :: "proc_op \<Rightarrow> bool" where
  "is_proc_get_link u \<longleftrightarrow> (case u of Proc_get_link _ \<Rightarrow> True | _ \<Rightarrow> False)"

definition union_ok :: "pid_entry \<Rightarrow> bool" where
  "union_ok e \<longleftrightarrow>
     (pe_fop e = Some proc_info_file_operations \<longleftrightarrow> is_proc_read (pe_op e)) \<and>
     (pe_fop e = Some proc_single_file_operations \<longleftrightarrow> is_proc_show (pe_op e)) \<and>
     (pe_iop e = Some proc_pid_link_inode_operations \<longleftrightarrow> is_proc_get_link (pe_op e))"

definition entry_ok :: "pid_entry \<Rightarrow> bool" where
  "entry_ok e \<longleftrightarrow> pe_len e = int (length (pe_name e)) \<and> union_ok e \<and>
     pe_name e \<notin> {[], ''.'', ''..''} \<and> \<not> list_all is_digit (pe_name e)"

definition table_ok :: "pid_entry list \<Rightarrow> bool" where
  "table_ok ents \<longleftrightarrow> distinct (map pe_name ents) \<and> list_all entry_ok ents \<and> length ents < 100"

lemma table_ok_subseq: "subseq xs ys \<Longrightarrow> table_ok ys \<Longrightarrow> table_ok xs"
proof -
  assume "subseq xs ys" and ys: "table_ok ys"
  then obtain N where xs: "xs = nths ys N" by (auto simp: subseq_conv_nths)
  have "distinct (nths (map pe_name ys) N)" using ys by (simp add: table_ok_def)
  then have "distinct (map pe_name xs)" by (simp add: xs nths_map)
  moreover have "length xs \<le> length ys"
    using \<open>subseq xs ys\<close> by (rule list_emb_length)
  ultimately show ?thesis
    using ys xs set_nths_subset [of ys N] by (auto simp: table_ok_def list_all_iff)
qed

lemma subseq_ifdef: "subseq (ifdef b es) (ifdef True es)"
  by (simp add: ifdef_def)

lemma tgid_base_stuff_full: "subseq (tgid_base_stuff c) (tgid_base_stuff (\<lambda>_. True))"
  unfolding tgid_base_stuff_def by (intro list_emb_append_mono subseq_ifdef subseq_order.order_refl)

lemma tid_base_stuff_full: "subseq (tid_base_stuff c) (tid_base_stuff (\<lambda>_. True))"
  unfolding tid_base_stuff_def by (intro list_emb_append_mono subseq_ifdef subseq_order.order_refl)

lemma filter_ifdef [simp]: "filter P (ifdef b es) = ifdef b (filter P es)"
  by (simp add: ifdef_def)

lemma ifdef_Nil [simp]: "ifdef b [] = []"
  by (simp add: ifdef_def)

lemma length_ifdef [simp]: "length (ifdef b es) = (if b then length es else 0)"
  by (simp add: ifdef_def)

lemma S_ISDIR_entries:
  "S_ISDIR (pe_mode (DIR nm (S_IRUGO OR S_IXUGO) io fo))"
  "S_ISDIR (pe_mode (DIR nm (S_IRUSR OR S_IXUSR) io fo))"
  "\<not> S_ISDIR (pe_mode (LNK nm lk))"
  "\<not> S_ISDIR (pe_mode (REG nm S_IRUGO fo))" "\<not> S_ISDIR (pe_mode (REG nm S_IRUSR fo))"
  "\<not> S_ISDIR (pe_mode (REG nm S_IWUSR fo))" "\<not> S_ISDIR (pe_mode (REG nm (S_IRUGO OR S_IWUSR) fo))"
  "\<not> S_ISDIR (pe_mode (REG nm (S_IRUSR OR S_IWUSR) fo))"
  "\<not> S_ISDIR (pe_mode (REG nm (S_IWUSR OR S_IRUGO) fo))"
  "\<not> S_ISDIR (pe_mode (INF_e nm S_IRUGO rd))" "\<not> S_ISDIR (pe_mode (INF_e nm S_IRUSR rd))"
  "\<not> S_ISDIR (pe_mode (ONE nm S_IRUGO sh))" "\<not> S_ISDIR (pe_mode (ONE nm S_IRUSR sh))"
  by (simp_all add: entry_defs S_ISDIR_def)

lemmas filter_table = filter.simps filter_append filter_ifdef ifdef_Nil append_Nil append_Nil2
  S_ISDIR_entries if_True if_False

lemma tgid_base_dirs:
  "length (filter (\<lambda>e. S_ISDIR (pe_mode e)) (tgid_base_stuff c)) =
     3 + of_bool (c CONFIG_NET) + of_bool (c CONFIG_SECURITY)"
  by (simp only: tgid_base_stuff_def filter_table) simp

lemma tid_base_dirs:
  "length (filter (\<lambda>e. S_ISDIR (pe_mode e)) (tid_base_stuff c)) =
     2 + of_bool (c CONFIG_SECURITY)"
  by (simp only: tid_base_stuff_def filter_table) simp

lemma full_tables_ok:
  "table_ok (tgid_base_stuff (\<lambda>_. True))" "table_ok (tid_base_stuff (\<lambda>_. True))"
  "table_ok attr_dir_stuff" "table_ok proc_base_stuff"
  by code_simp+

section \<open>Properties\<close>

text \<open>
  Property C15. In every kernel configuration the four tables of \<open>base.c\<close> are well formed: the
  names of a table are pairwise different and none is empty, a dot entry or a number; the recorded
  length is the length of the name; and the operations of an entry read the member of
  \<open>union proc_op\<close> that the entry initialises (\<open>proc_read\<close> exactly with
  \<open>proc_info_file_operations\<close>, \<open>proc_show\<close> exactly with
  \<open>proc_single_file_operations\<close>, \<open>proc_get_link\<close> exactly with the link operations).
\<close>

theorem pid_tables_ok:
  "table_ok (tgid_base_stuff c) \<and> table_ok (tid_base_stuff c) \<and>
   table_ok attr_dir_stuff \<and> table_ok proc_base_stuff"
  using full_tables_ok tgid_base_stuff_full tid_base_stuff_full table_ok_subseq by blast

text \<open>
  The number of hard links \<open>proc_pid_instantiate\<close> and
  \<open>proc_task_instantiate\<close> compute from \<open>pid_entry_count_dirs\<close> is the number of
  subdirectories the configuration has: task, fd, fdinfo, net and attr for a process, fd, fdinfo and
  attr for a thread.
\<close>

theorem pid_entry_count_dirs_tables:
  "pid_entry_count_dirs (tgid_base_stuff c) (ARRAY_SIZE (tgid_base_stuff c)) =
     3 + of_bool (c CONFIG_NET) + of_bool (c CONFIG_SECURITY) \<and>
   pid_entry_count_dirs (tid_base_stuff c) (ARRAY_SIZE (tid_base_stuff c)) =
     2 + of_bool (c CONFIG_SECURITY)"
proof -
  have "length (tgid_base_stuff c) < 2 ^ 32" "length (tid_base_stuff c) < 2 ^ 32"
    using full_tables_ok tgid_base_stuff_full [of c] tid_base_stuff_full [of c] table_ok_subseq
    by (fastforce simp: table_ok_def)+
  then show ?thesis
    by (simp only: pid_entry_count_dirs_eq tgid_base_dirs tid_base_dirs) simp
qed

text \<open>
  The entry \<open>fdinfo\<close> of a thread directory and that of a process directory have
  the same inode operations but not the same file operations: the thread's is wired to
  \<open>proc_fd_operations\<close>, whose \<open>readdir\<close> is that of the \<open>fd\<close> directory.
\<close>

theorem tid_fdinfo_uses_fd_operations:
  "\<exists>e \<in> set (tid_base_stuff c). \<exists>e' \<in> set (tgid_base_stuff c).
     pe_name e = ''fdinfo'' \<and> pe_name e' = ''fdinfo'' \<and> pe_iop e = pe_iop e' \<and>
     pe_fop e = Some proc_fd_operations \<and> pe_fop e' = Some proc_fdinfo_operations"
  by (simp add: tid_base_stuff_def tgid_base_stuff_def entry_defs)

end
