(* ===== verification/Pid_Inode.thy ===== *)
theory Pid_Inode
  imports Kernel_Calls Pid_Entries
begin

text \<open>
  Building and revalidating the inodes of the per-process part of \<open>/proc\<close>: \<open>task_dumpable\<close>,
  \<open>proc_pid_make_inode\<close>, \<open>pid_getattr\<close>, the three \<open>d_revalidate\<close> functions,
  \<open>pid_delete_dentry\<close>, and the six functions of type \<open>instantiate_t\<close>. What lookup and readdir
  rely on is the locale \<open>instantiator\<close>; each of the six functions is an interpretation of it.
\<close>

type_synonym dresult = "int + ptr" \<comment> \<open>\<open>Inl e\<close> is \<open>ERR_PTR(e)\<close>\<close>

section \<open>Inodes and their owner\<close>

definition task_dumpable :: "kenv \<Rightarrow> ptr \<Rightarrow> int k" where
  "task_dumpable K task = do {
     task_lock task;
     mm \<leftarrow> task_mm K task;
     dumpable \<leftarrow> (if mm \<noteq> NULL then get_dumpable K mm else return 0);
     task_unlock task;
     return (if dumpable = 1 then 1 else 0)
   }"

text \<open>The sequence that copies the effective ids of a task into an inode.\<close>

definition set_owner_from_cred :: "kenv \<Rightarrow> ptr \<Rightarrow> ptr \<Rightarrow> unit k" where
  "set_owner_from_cred K task inode = do {
     rcu_read_lock;
     cred \<leftarrow> task_cred K task;
     euid \<leftarrow> cred_euid K cred;
     upd_inode inode (\<lambda>i. i\<lparr>i_uid := euid\<rparr>);
     egid \<leftarrow> cred_egid K cred;
     upd_inode inode (\<lambda>i. i\<lparr>i_gid := egid\<rparr>);
     rcu_read_unlock
   }"

definition proc_pid_make_inode :: "kenv \<Rightarrow> ptr \<Rightarrow> ptr \<Rightarrow> ptr k" where
  "proc_pid_make_inode K sb task = do {
     inode \<leftarrow> new_inode K sb;
     (if inode = NULL then return inode
      else do {
        t \<leftarrow> CURRENT_TIME K;
        upd_inode inode (\<lambda>i. i\<lparr>i_time := t, i_op := Some proc_def_inode_operations\<rparr>);
        pid \<leftarrow> get_task_pid K task;
        upd_inode inode (\<lambda>i. i\<lparr>ei_pid := pid\<rparr>);
        (if pid = NULL then do { iput inode; return NULL }
         else do {
           dumpable \<leftarrow> task_dumpable K task;
           (if dumpable \<noteq> 0 then set_owner_from_cred K task inode else return ());
           security_task_to_inode task inode;
           return inode
         })
      })
   }"

text \<open>World readable and executable directory, \<open>S_IFDIR|S_IRUGO|S_IXUGO\<close>.\<close>

abbreviation (input) DIR_MODE :: u16 where "DIR_MODE \<equiv> S_IFDIR OR S_IRUGO OR S_IXUGO"

text \<open>The test \<open>(inode->i_mode == DIR_MODE) || task_dumpable(task)\<close>.\<close>

definition shows_owner :: "kenv \<Rightarrow> ptr \<Rightarrow> u16 \<Rightarrow> bool k" where
  "shows_owner K task mode =
     (if mode = DIR_MODE then return True
      else do { dumpable \<leftarrow> task_dumpable K task; return (dumpable \<noteq> 0) })"

definition pid_getattr :: "kenv \<Rightarrow> ptr \<Rightarrow> (int \<times> kstat) k" where
  "pid_getattr K dentry = do {
     dn \<leftarrow> get_dentry dentry;
     inode \<leftarrow> get_inode (d_inode dn);
     let stat = generic_fillattr K inode;
     rcu_read_lock;
     let stat = stat\<lparr>ks_uid := 0, ks_gid := 0\<rparr>;
     task \<leftarrow> pid_task K (ei_pid inode);
     stat \<leftarrow> (if task \<noteq> NULL then do {
         b \<leftarrow> shows_owner K task (i_mode inode);
         (if b then do {
            cred \<leftarrow> task_cred K task;
            euid \<leftarrow> cred_euid K cred;
            egid \<leftarrow> cred_egid K cred;
            return (stat\<lparr>ks_uid := euid, ks_gid := egid\<rparr>)
          } else return stat)
       } else return stat);
     rcu_read_unlock;
     return (0, stat)
   }"

section \<open>Revalidation\<close>

definition clear_suid :: "u16 \<Rightarrow> u16" where
  "clear_suid m = m AND NOT (S_ISUID OR S_ISGID)"

definition pid_revalidate :: "kenv \<Rightarrow> ptr \<Rightarrow> int k" where
  "pid_revalidate K dentry = do {
     dn \<leftarrow> get_dentry dentry;
     let inode = d_inode dn;
     task \<leftarrow> get_proc_task K inode;
     (if task \<noteq> NULL then do {
        ino \<leftarrow> get_inode inode;
        b \<leftarrow> shows_owner K task (i_mode ino);
        (if b then set_owner_from_cred K task inode
         else upd_inode inode (\<lambda>i. i\<lparr>i_uid := 0, i_gid := 0\<rparr>));
        upd_inode inode (\<lambda>i. i\<lparr>i_mode := clear_suid (i_mode i)\<rparr>);
        security_task_to_inode task inode;
        put_task_struct task;
        return 1
      } else do {
        d_drop dentry;
        return 0
      })
   }"

definition pid_delete_dentry :: "kenv \<Rightarrow> ptr \<Rightarrow> bool k" where
  "pid_delete_dentry K dentry = do {
     dn \<leftarrow> get_dentry dentry;
     inode \<leftarrow> get_inode (d_inode dn);
     first \<leftarrow> ask_ptr K (TaskQ (Q_pid_tasks_first (ei_pid inode)));
     return (first = NULL)
   }"

definition tid_fd_revalidate :: "kenv \<Rightarrow> ptr \<Rightarrow> int k" where
  "tid_fd_revalidate K dentry = do {
     dn \<leftarrow> get_dentry dentry;
     let inode = d_inode dn;
     task \<leftarrow> get_proc_task K inode;
     ino \<leftarrow> get_inode inode;
     let fd = ei_fd ino;
     (if task \<noteq> NULL then do {
        files \<leftarrow> get_files_struct K task;
        (if files \<noteq> NULL then do {
           rcu_read_lock;
           f \<leftarrow> fcheck_files K files (word_of_int fd);
           (if f \<noteq> NULL then do {
              rcu_read_unlock;
              put_files_struct files;
              dumpable \<leftarrow> task_dumpable K task;
              (if dumpable \<noteq> 0 then set_owner_from_cred K task inode
               else upd_inode inode (\<lambda>i. i\<lparr>i_uid := 0, i_gid := 0\<rparr>));
              upd_inode inode (\<lambda>i. i\<lparr>i_mode := clear_suid (i_mode i)\<rparr>);
              security_task_to_inode task inode;
              put_task_struct task;
              return 1
            } else do {
              rcu_read_unlock;
              put_files_struct files;
              put_task_struct task;
              d_drop dentry;
              return 0
            })
         } else do {
           put_task_struct task;
           d_drop dentry;
           return 0
         })
      } else do {
        d_drop dentry;
        return 0
      })
   }"

definition proc_base_revalidate :: "kenv \<Rightarrow> ptr \<Rightarrow> int k" where
  "proc_base_revalidate K dentry = do {
     dn \<leftarrow> get_dentry dentry;
     task \<leftarrow> get_proc_task K (d_inode dn);
     (if task \<noteq> NULL then do { put_task_struct task; return 1 }
      else do { d_drop dentry; return 0 })
   }"

section \<open>Instantiation\<close>

abbreviation (input) FMODE_READ :: u32 where "FMODE_READ \<equiv> 1"
abbreviation (input) FMODE_WRITE :: u32 where "FMODE_WRITE \<equiv> 2"
abbreviation (input) S_IMMUTABLE :: u32 where "S_IMMUTABLE \<equiv> 8"

text \<open>\<open>if (revalidate(dentry, NULL)) error = NULL;\<close> with \<open>error\<close> preset to \<open>-ENOENT\<close>.\<close>

definition error_unless :: "int \<Rightarrow> dresult" where
  "error_unless r = (if r \<noteq> 0 then Inr NULL else Inl (- ENOENT))"

definition proc_fd_instantiate :: "kenv \<Rightarrow> u32 \<Rightarrow> ptr \<Rightarrow> ptr \<Rightarrow> ptr \<Rightarrow> dresult k" where
  "proc_fd_instantiate K fd dir dentry task = do {
     dirino \<leftarrow> get_inode dir;
     inode \<leftarrow> proc_pid_make_inode K (i_sb dirino) task;
     (if inode = NULL then return (Inl (- ENOENT))
      else do {
        upd_inode inode (\<lambda>i. i\<lparr>ei_fd := s32 (uint fd)\<rparr>);
        files \<leftarrow> get_files_struct K task;
        (if files = NULL then do { iput inode; return (Inl (- ENOENT)) }
         else do {
           upd_inode inode (\<lambda>i. i\<lparr>i_mode := S_IFLNK\<rparr>);
           spin_lock_files files;
           f \<leftarrow> fcheck_files K files fd;
           (if f = NULL then do {
              spin_unlock_files files;
              put_files_struct files;
              iput inode;
              return (Inl (- ENOENT))
            } else do {
              m \<leftarrow> file_mode K f;
              (if m AND FMODE_READ \<noteq> 0
               then upd_inode inode (\<lambda>i. i\<lparr>i_mode := i_mode i OR (S_IRUSR OR S_IXUSR)\<rparr>)
               else return ());
              m \<leftarrow> file_mode K f;
              (if m AND FMODE_WRITE \<noteq> 0
               then upd_inode inode (\<lambda>i. i\<lparr>i_mode := i_mode i OR (S_IWUSR OR S_IXUSR)\<rparr>)
               else return ());
              spin_unlock_files files;
              put_files_struct files;
              upd_inode inode (\<lambda>i. i\<lparr>i_op := Some proc_pid_link_inode_operations, i_size := 64,
                 ei_op := Proc_get_link L_fd\<rparr>);
              upd_dentry dentry (\<lambda>e. e\<lparr>d_op := Some tid_fd_dentry_operations\<rparr>);
              d_add K dentry inode;
              r \<leftarrow> tid_fd_revalidate K dentry;
              return (error_unless r)
            })
         })
      })
   }"

definition proc_fdinfo_instantiate :: "kenv \<Rightarrow> u32 \<Rightarrow> ptr \<Rightarrow> ptr \<Rightarrow> ptr \<Rightarrow> dresult k" where
  "proc_fdinfo_instantiate K fd dir dentry task = do {
     dirino \<leftarrow> get_inode dir;
     inode \<leftarrow> proc_pid_make_inode K (i_sb dirino) task;
     (if inode = NULL then return (Inl (- ENOENT))
      else do {
        upd_inode inode (\<lambda>i. i\<lparr>ei_fd := s32 (uint fd), i_mode := S_IFREG OR S_IRUSR,
           i_fop := Some proc_fdinfo_file_operations\<rparr>);
        upd_dentry dentry (\<lambda>e. e\<lparr>d_op := Some tid_fd_dentry_operations\<rparr>);
        d_add K dentry inode;
        r \<leftarrow> tid_fd_revalidate K dentry;
        return (error_unless r)
      })
   }"

text \<open>\<open>if (p->iop) inode->i_op = p->iop; if (p->fop) inode->i_fop = p->fop; ei->op = p->op;\<close>\<close>

definition set_entry_ops :: "pid_entry \<Rightarrow> inode \<Rightarrow> inode" where
  "set_entry_ops p i =
     i\<lparr>i_op := (if pe_iop p \<noteq> None then pe_iop p else i_op i),
       i_fop := (if pe_fop p \<noteq> None then pe_fop p else i_fop i),
       ei_op := pe_op p\<rparr>"

definition proc_pident_instantiate ::
    "kenv \<Rightarrow> pid_entry \<Rightarrow> ptr \<Rightarrow> ptr \<Rightarrow> ptr \<Rightarrow> dresult k" where
  "proc_pident_instantiate K p dir dentry task = do {
     dirino \<leftarrow> get_inode dir;
     inode \<leftarrow> proc_pid_make_inode K (i_sb dirino) task;
     (if inode = NULL then return (Inl (- ENOENT))
      else do {
        upd_inode inode (\<lambda>i. i\<lparr>i_mode := pe_mode p\<rparr>);
        (if S_ISDIR (pe_mode p) then upd_inode inode (\<lambda>i. i\<lparr>i_nlink := 2\<rparr>) else return ());
        upd_inode inode (set_entry_ops p);
        upd_dentry dentry (\<lambda>e. e\<lparr>d_op := Some pid_dentry_operations\<rparr>);
        d_add K dentry inode;
        r \<leftarrow> pid_revalidate K dentry;
        return (error_unless r)
      })
   }"

definition proc_base_instantiate ::
    "kenv \<Rightarrow> pid_entry \<Rightarrow> ptr \<Rightarrow> ptr \<Rightarrow> ptr \<Rightarrow> dresult k" where
  "proc_base_instantiate K p dir dentry task = do {
     dirino \<leftarrow> get_inode dir;
     inode \<leftarrow> new_inode K (i_sb dirino);
     (if inode = NULL then return (Inl (- ENOMEM))
      else do {
        t \<leftarrow> CURRENT_TIME K;
        upd_inode inode (\<lambda>i. i\<lparr>i_time := t\<rparr>);
        pid \<leftarrow> get_task_pid K task;
        upd_inode inode (\<lambda>i. i\<lparr>ei_pid := pid\<rparr>);
        (if pid = NULL then do { iput inode; return (Inl (- ENOMEM)) }
         else do {
           upd_inode inode (\<lambda>i. i\<lparr>i_mode := pe_mode p\<rparr>);
           (if S_ISDIR (pe_mode p) then upd_inode inode (\<lambda>i. i\<lparr>i_nlink := 2\<rparr>) else return ());
           (if S_ISLNK (pe_mode p) then upd_inode inode (\<lambda>i. i\<lparr>i_size := 64\<rparr>) else return ());
           upd_inode inode (set_entry_ops p);
           upd_dentry dentry (\<lambda>e. e\<lparr>d_op := Some proc_base_dentry_operations\<rparr>);
           d_add K dentry inode;
           return (Inr NULL)
         })
      })
   }"

text \<open>The common body of \<open>proc_pid_instantiate\<close> and \<open>proc_task_instantiate\<close>.\<close>

definition make_pid_dir ::
    "kenv \<Rightarrow> pid_entry list \<Rightarrow> inode_operations \<Rightarrow> file_operations \<Rightarrow> ptr \<Rightarrow> ptr \<Rightarrow> ptr \<Rightarrow> dresult k" where
  "make_pid_dir K ents iops fops dir dentry task = do {
     dirino \<leftarrow> get_inode dir;
     inode \<leftarrow> proc_pid_make_inode K (i_sb dirino) task;
     (if inode = NULL then return (Inl (- ENOENT))
      else do {
        upd_inode inode (\<lambda>i. i\<lparr>i_mode := DIR_MODE, i_op := Some iops, i_fop := Some fops,
           i_flags := i_flags i OR S_IMMUTABLE,
           i_nlink := 2 + pid_entry_count_dirs ents (ARRAY_SIZE ents)\<rparr>);
        upd_dentry dentry (\<lambda>e. e\<lparr>d_op := Some pid_dentry_operations\<rparr>);
        d_add K dentry inode;
        r \<leftarrow> pid_revalidate K dentry;
        return (error_unless r)
      })
   }"

definition proc_pid_instantiate :: "kenv \<Rightarrow> kconfig \<Rightarrow> ptr \<Rightarrow> ptr \<Rightarrow> ptr \<Rightarrow> dresult k" where
  "proc_pid_instantiate K c dir dentry task =
     make_pid_dir K (tgid_base_stuff c) proc_tgid_base_inode_operations proc_tgid_base_operations
       dir dentry task"

definition proc_task_instantiate :: "kenv \<Rightarrow> kconfig \<Rightarrow> ptr \<Rightarrow> ptr \<Rightarrow> ptr \<Rightarrow> dresult k" where
  "proc_task_instantiate K c dir dentry task =
     make_pid_dir K (tid_base_stuff c) proc_tid_base_inode_operations proc_tid_base_operations
       dir dentry task"

section \<open>Specifications\<close>

text \<open>The answer of \<open>task_dumpable\<close>, from what the kernel answered when it was asked.\<close>

definition dumpable_answer :: "kenv \<Rightarrow> ptr \<Rightarrow> int \<Rightarrow> bool" where
  "dumpable_answer K task x \<longleftrightarrow>
     x = 0 \<or>
     x = 1 \<and> (\<exists>mm. may_ptr K (MmQ (Q_task_mm task)) mm \<and> mm \<noteq> NULL \<and>
                may_int K (AccessQ (Q_get_dumpable mm)) 1)"

lemma dumpable_answer_1: "dumpable_answer K task x \<Longrightarrow> x \<noteq> 0 \<Longrightarrow> dumpable_answer K task 1"
  by (auto simp: dumpable_answer_def)

lemma task_dumpable_spec [owns_intros]:
  assumes Q: "\<And>x. dumpable_answer K task x \<Longrightarrow> Q x d \<sigma>"
  shows "owns d \<sigma> (task_dumpable K task) Q"
  unfolding task_dumpable_def
  by (auto intro!: owns_intros Q simp: kernel_defs) (auto simp: dumpable_answer_def)

text \<open>The effective ids of a task, as its credentials may give them.\<close>

definition cred_ids :: "kenv \<Rightarrow> ptr \<Rightarrow> u32 \<Rightarrow> u32 \<Rightarrow> bool" where
  "cred_ids K task uid gid \<longleftrightarrow>
     (\<exists>cred x y. may_ptr K (AccessQ (Q_task_cred task)) cred \<and>
        may_int K (AccessQ (Q_cred_euid cred)) x \<and> uid = word_of_int x \<and>
        may_int K (AccessQ (Q_cred_egid cred)) y \<and> gid = word_of_int y)"

lemma cred_idsI:
  "may_ptr K (AccessQ (Q_task_cred task)) cred \<Longrightarrow> may_int K (AccessQ (Q_cred_euid cred)) x \<Longrightarrow>
   may_int K (AccessQ (Q_cred_egid cred)) y \<Longrightarrow> cred_ids K task (word_of_int x) (word_of_int y)"
  by (auto simp: cred_ids_def)

lemma set_owner_spec [owns_intros]:
  assumes Q: "\<And>uid gid. cred_ids K task uid gid \<Longrightarrow>
    Q () d (\<sigma>\<lparr>inodes := (inodes \<sigma>)(p := (inodes \<sigma> p)\<lparr>i_uid := uid, i_gid := gid\<rparr>)\<rparr>)"
  shows "owns d \<sigma> (set_owner_from_cred K task p) Q"
  unfolding set_owner_from_cred_def
  by (auto intro!: owns_intros Q simp: kernel_defs; erule (2) cred_idsI)

text \<open>
  When the owner of a task may be seen: in a world readable directory (where the code makes that
  exception) or when the task is dumpable.
\<close>

definition owner_visible :: "kenv \<Rightarrow> bool \<Rightarrow> ptr \<Rightarrow> u16 \<Rightarrow> bool" where
  "owner_visible K world task mode \<longleftrightarrow> world \<and> mode = DIR_MODE \<or> dumpable_answer K task 1"

lemma owner_visible_dumpable:
  "dumpable_answer K task x \<Longrightarrow> x \<noteq> 0 \<Longrightarrow> owner_visible K w task mode"
  by (auto simp: owner_visible_def dest: dumpable_answer_1)

lemma shows_owner_spec [owns_intros]:
  assumes t: "owner_visible K True task mode \<Longrightarrow> Q True d \<sigma>"
    and f: "mode \<noteq> DIR_MODE \<Longrightarrow> Q False d \<sigma>"
  shows "owns d \<sigma> (shows_owner K task mode) Q"
proof -
  have "Q (x \<noteq> 0) d \<sigma>" if "mode \<noteq> DIR_MODE" "dumpable_answer K task x" for x
    using that t f owner_visible_dumpable by (cases "x = 0") auto
  then show ?thesis
    unfolding shows_owner_def by (auto intro!: owns_intros t simp: owner_visible_def)
qed

text \<open>The owner an inode gets: the task's ids where they may be seen, else root.\<close>

definition owner_ok :: "kenv \<Rightarrow> bool \<Rightarrow> ptr \<Rightarrow> u16 \<Rightarrow> u32 \<Rightarrow> u32 \<Rightarrow> bool" where
  "owner_ok K world task mode uid gid \<longleftrightarrow>
     uid = 0 \<and> gid = 0 \<and> \<not> (world \<and> mode = DIR_MODE) \<or>
     owner_visible K world task mode \<and> cred_ids K task uid gid"

lemma owner_ok_intros:
  "owner_visible K w task mode \<Longrightarrow> cred_ids K task uid gid \<Longrightarrow> owner_ok K w task mode uid gid"
  "mode \<noteq> DIR_MODE \<Longrightarrow> owner_ok K w task mode 0 0"
  "owner_ok K False task mode 0 0"
  by (auto simp: owner_ok_def)

text \<open>
  An inode as revalidation leaves it: owned by the task's credentials or by root, with the set-id
  bits cleared.
\<close>

definition revalidated :: "inode \<Rightarrow> u32 \<Rightarrow> u32 \<Rightarrow> inode" where
  "revalidated i uid gid = i\<lparr>i_uid := uid, i_gid := gid, i_mode := clear_suid (i_mode i)\<rparr>"

text \<open>
  What can be gone: the task behind an inode, and a descriptor of a task (its table of files, or the file
  in it).
\<close>

definition task_gone :: "kenv \<Rightarrow> ptr \<Rightarrow> bool" where
  "task_gone K i \<longleftrightarrow> may_ptr K (TaskQ (Q_get_proc_task i)) NULL"

definition fd_closed :: "kenv \<Rightarrow> ptr \<Rightarrow> u32 \<Rightarrow> bool" where
  "fd_closed K task fd \<longleftrightarrow>
     may_ptr K (VfsQ (Q_get_files_struct task)) NULL \<or>
     (\<exists>files. may_ptr K (VfsQ (Q_get_files_struct task)) files \<and> files \<noteq> NULL \<and>
        may_ptr K (VfsQ (Q_fcheck_files files fd)) NULL)"

lemma fd_closedI:
  "may_ptr K (VfsQ (Q_get_files_struct task)) 0 \<Longrightarrow> fd_closed K task fd"
  "may_ptr K (VfsQ (Q_get_files_struct task)) files \<Longrightarrow> 0 < files \<Longrightarrow>
   may_ptr K (VfsQ (Q_fcheck_files files fd)) 0 \<Longrightarrow> fd_closed K task fd"
  by (auto simp: fd_closed_def)

text \<open>When revalidation of the inode \<open>i\<close> fails; \<open>world\<close> is false for descriptors.\<close>

definition stale :: "kenv \<Rightarrow> bool \<Rightarrow> ptr \<Rightarrow> u32 \<Rightarrow> bool" where
  "stale K world i fd \<longleftrightarrow>
     task_gone K i \<or>
     \<not> world \<and> (\<exists>task. may_ptr K (TaskQ (Q_get_proc_task i)) task \<and> task \<noteq> NULL \<and> fd_closed K task fd)"

lemma staleI:
  "may_ptr K (TaskQ (Q_get_proc_task i)) 0 \<Longrightarrow> stale K w i fd"
  "may_ptr K (TaskQ (Q_get_proc_task i)) task \<Longrightarrow> 0 < task \<Longrightarrow> fd_closed K task fd \<Longrightarrow> stale K False i fd"
  by (auto simp: stale_def task_gone_def)

definition revalidate_post :: "kenv \<Rightarrow> bool \<Rightarrow> ptr \<Rightarrow> store \<Rightarrow> int \<Rightarrow> store \<Rightarrow> bool" where
  "revalidate_post K world dentry \<sigma> r \<sigma>' \<longleftrightarrow>
     (let i = d_inode (dentries \<sigma> dentry) in
      r = 0 \<and> \<sigma>' = \<sigma> \<and> stale K world i (word_of_int (ei_fd (inodes \<sigma> i))) \<or>
      r = 1 \<and> (\<exists>task uid gid. may_ptr K (TaskQ (Q_get_proc_task i)) task \<and> task \<noteq> NULL \<and>
        \<sigma>' = \<sigma>\<lparr>inodes := (inodes \<sigma>)(i := revalidated (inodes \<sigma> i) uid gid)\<rparr> \<and>
        owner_ok K world task (i_mode (inodes \<sigma> i)) uid gid))"

lemma revalidate_post_0:
  "stale K w (d_inode (dentries \<sigma> dentry)) (word_of_int (ei_fd (inodes \<sigma> (d_inode (dentries \<sigma> dentry))))) \<Longrightarrow>
   revalidate_post K w dentry \<sigma> 0 \<sigma>"
  by (simp add: revalidate_post_def)

lemma revalidate_post_1:
  assumes "may_ptr K (TaskQ (Q_get_proc_task (d_inode (dentries \<sigma> dentry)))) task" "0 < task"
    "owner_ok K w task (i_mode (inodes \<sigma> (d_inode (dentries \<sigma> dentry)))) uid gid"
  shows "revalidate_post K w dentry \<sigma> 1
    (\<sigma>\<lparr>inodes := (inodes \<sigma>)(d_inode (dentries \<sigma> dentry) :=
        revalidated (inodes \<sigma> (d_inode (dentries \<sigma> dentry))) uid gid)\<rparr>)"
  unfolding revalidate_post_def Let_def using assms by blast

lemma pid_revalidate_spec [owns_intros]:
  assumes Q: "\<And>r \<sigma>'. revalidate_post K True dentry \<sigma> r \<sigma>' \<Longrightarrow> Q r d \<sigma>'"
  shows "owns d \<sigma> (pid_revalidate K dentry) Q"
  unfolding pid_revalidate_def
  by (auto intro!: owns_intros Q simp: kernel_defs simp flip: revalidated_def)
    (blast intro: revalidate_post_0 staleI revalidate_post_1 owner_ok_intros [simplified])+

lemma tid_fd_revalidate_spec [owns_intros]:
  assumes Q: "\<And>r \<sigma>'. revalidate_post K False dentry \<sigma> r \<sigma>' \<Longrightarrow> Q r d \<sigma>'"
  shows "owns d \<sigma> (tid_fd_revalidate K dentry) Q"
  unfolding tid_fd_revalidate_def
  by (auto intro!: owns_intros Q simp: kernel_defs simp flip: revalidated_def)
    (blast intro: revalidate_post_0 staleI fd_closedI revalidate_post_1 owner_ok_intros owner_visible_dumpable)+

section \<open>The contract of \<open>instantiate_t\<close>\<close>

text \<open>
  What the code relies on in the dcache: \<open>d_add\<close> attaches the inode to the dentry and changes
  nothing else of any dentry; a dentry found by \<open>d_lookup\<close> has an inode (the per-process
  part of \<open>/proc\<close> never hashes a dentry without one); and so has every dentry with operations, which
  follow \<open>d_inode\<close> without a check.
\<close>

definition d_add_law :: "kenv \<Rightarrow> bool" where
  "d_add_law K \<longleftrightarrow> (\<forall>e i f. d_add_effect K e i f = f(e := (f e)\<lparr>d_inode := i\<rparr>))"

definition dcache_ok :: "kenv \<Rightarrow> store \<Rightarrow> bool" where
  "dcache_ok K \<sigma> \<longleftrightarrow>
     (\<forall>dir nm c. may_ptr K (VfsQ (Q_d_lookup dir nm)) c \<longrightarrow> c \<noteq> NULL \<longrightarrow>
        d_inode (dentries \<sigma> c) \<noteq> NULL) \<and>
     (\<forall>e. d_op (dentries \<sigma> e) \<noteq> None \<longrightarrow> d_inode (dentries \<sigma> e) \<noteq> NULL)"

text \<open>
  Afterwards: the dentry has an inode and \<open>NULL\<close> is returned, or a negative error is, and that
  only in the cases \<open>fails\<close>; the dcache is still in order; files, the caller's buffers, the names of
  dentries and all other dentries are untouched; no reference is kept.
\<close>

definition inst_post :: "kenv \<Rightarrow> bool \<Rightarrow> ptr \<Rightarrow> store \<Rightarrow> dresult \<Rightarrow> store \<Rightarrow> bool" where
  "inst_post K fails dentry \<sigma> r \<sigma>' \<longleftrightarrow>
     dcache_ok K \<sigma>' \<and>
     filps \<sigma>' = filps \<sigma> \<and> dirents \<sigma>' = dirents \<sigma> \<and> uout \<sigma>' = uout \<sigma> \<and>
     honeypot_hooks \<sigma>' = honeypot_hooks \<sigma> \<and>
     (\<forall>e. d_name (dentries \<sigma>' e) = d_name (dentries \<sigma> e) \<and> d_sb (dentries \<sigma>' e) = d_sb (dentries \<sigma> e)) \<and>
     (\<forall>e. e \<noteq> dentry \<longrightarrow> dentries \<sigma>' e = dentries \<sigma> e) \<and>
     (r = Inr NULL \<and> d_inode (dentries \<sigma>' dentry) \<noteq> NULL \<or>
      (r = Inl (- ENOENT) \<or> r = Inl (- ENOMEM)) \<and> fails)"

text \<open>On success the inode the dentry now leads to has the promised shape \<open>P\<close>.\<close>

definition made_post ::
    "kenv \<Rightarrow> bool \<Rightarrow> (inode \<Rightarrow> bool) \<Rightarrow> ptr \<Rightarrow> store \<Rightarrow> dresult \<Rightarrow> store \<Rightarrow> bool" where
  "made_post K fails P dentry \<sigma> r \<sigma>' \<longleftrightarrow>
     inst_post K fails dentry \<sigma> r \<sigma>' \<and>
     (r = Inr NULL \<longrightarrow> P (inodes \<sigma>' (d_inode (dentries \<sigma>' dentry))))"

text \<open>
  \<open>fails x sb task\<close> are the cases in which the instantiation of \<open>x\<close> for \<open>task\<close> on the
  superblock \<open>sb\<close> may fail.
\<close>

locale instantiator =
  fixes K :: kenv and inst :: "'a \<Rightarrow> ptr \<Rightarrow> ptr \<Rightarrow> ptr \<Rightarrow> dresult k" and P :: "'a \<Rightarrow> inode \<Rightarrow> bool"
    and fails :: "'a \<Rightarrow> ptr \<Rightarrow> ptr \<Rightarrow> bool"
  assumes inst_spec:
    "d_add_law K \<Longrightarrow> dcache_ok K \<sigma> \<Longrightarrow>
     (\<And>r \<sigma>'. made_post K (fails x (i_sb (inodes \<sigma> dir)) task) (P x) dentry \<sigma> r \<sigma>' \<Longrightarrow> Q r d \<sigma>') \<Longrightarrow>
     owns d \<sigma> (inst x dir dentry task) Q"

text \<open>
  The cases: there is no inode to be had for the task, its descriptor is closed, or it was gone by the time
  the new inode was revalidated.
\<close>

definition no_inode :: "kenv \<Rightarrow> ptr \<Rightarrow> ptr \<Rightarrow> bool" where
  "no_inode K sb task \<longleftrightarrow>
     may_ptr K (VfsQ (Q_new_inode sb)) NULL \<or> may_ptr K (TaskQ (Q_get_task_pid task)) NULL"

definition new_stale :: "kenv \<Rightarrow> bool \<Rightarrow> ptr \<Rightarrow> u32 \<Rightarrow> bool" where
  "new_stale K world sb fd \<longleftrightarrow>
     (\<exists>i. may_ptr K (VfsQ (Q_new_inode sb)) i \<and> i \<noteq> NULL \<and> stale K world i fd)"

definition entry_fails :: "kenv \<Rightarrow> ptr \<Rightarrow> ptr \<Rightarrow> bool" where
  "entry_fails K sb task \<longleftrightarrow> no_inode K sb task \<or> new_stale K True sb 0"

definition fdinfo_fails :: "kenv \<Rightarrow> u32 \<Rightarrow> ptr \<Rightarrow> ptr \<Rightarrow> bool" where
  "fdinfo_fails K fd sb task \<longleftrightarrow> no_inode K sb task \<or> new_stale K False sb fd"

definition fd_fails :: "kenv \<Rightarrow> u32 \<Rightarrow> ptr \<Rightarrow> ptr \<Rightarrow> bool" where
  "fd_fails K fd sb task \<longleftrightarrow> fdinfo_fails K fd sb task \<or> fd_closed K task fd"

text \<open>
  The shapes: an inode that serves a table entry (for \<open>/proc\<close> itself the mode is not cleared
  and there are no default operations), a process or thread directory, a descriptor link, a
  descriptor information file.
\<close>

definition entry_inode :: "pid_entry \<Rightarrow> inode \<Rightarrow> bool" where
  "entry_inode p i \<longleftrightarrow>
     i_mode i = clear_suid (pe_mode p) \<and> ei_op i = pe_op p \<and> ei_pid i \<noteq> NULL \<and>
     i_op i = (if pe_iop p = None then Some proc_def_inode_operations else pe_iop p) \<and>
     (pe_fop p \<noteq> None \<longrightarrow> i_fop i = pe_fop p) \<and> (S_ISDIR (pe_mode p) \<longrightarrow> i_nlink i = 2)"

definition base_inode :: "pid_entry \<Rightarrow> inode \<Rightarrow> bool" where
  "base_inode p i \<longleftrightarrow>
     i_mode i = pe_mode p \<and> ei_op i = pe_op p \<and> ei_pid i \<noteq> NULL \<and>
     (pe_iop p \<noteq> None \<longrightarrow> i_op i = pe_iop p) \<and> (pe_fop p \<noteq> None \<longrightarrow> i_fop i = pe_fop p) \<and>
     (S_ISDIR (pe_mode p) \<longrightarrow> i_nlink i = 2) \<and> (S_ISLNK (pe_mode p) \<longrightarrow> i_size i = 64)"

definition dir_inode ::
    "pid_entry list \<Rightarrow> inode_operations \<Rightarrow> file_operations \<Rightarrow> inode \<Rightarrow> bool" where
  "dir_inode ents iops fops i \<longleftrightarrow>
     i_mode i = DIR_MODE \<and> i_op i = Some iops \<and> i_fop i = Some fops \<and> ei_pid i \<noteq> NULL \<and>
     i_nlink i = 2 + pid_entry_count_dirs ents (ARRAY_SIZE ents)"

definition fd_inode :: "u32 \<Rightarrow> inode \<Rightarrow> bool" where
  "fd_inode fd i \<longleftrightarrow>
     ei_fd i = s32 (uint fd) \<and> ei_pid i \<noteq> NULL \<and> ei_op i = Proc_get_link L_fd \<and>
     i_op i = Some proc_pid_link_inode_operations \<and> i_size i = 64 \<and>
     S_ISLNK (i_mode i) \<and> i_mode i AND 3647 = 0"

definition fdinfo_inode :: "u32 \<Rightarrow> inode \<Rightarrow> bool" where
  "fdinfo_inode fd i \<longleftrightarrow>
     ei_fd i = s32 (uint fd) \<and> ei_pid i \<noteq> NULL \<and>
     i_fop i = Some proc_fdinfo_file_operations \<and> i_mode i = S_IFREG OR S_IRUSR"

text \<open>Inode updates are invisible to the contract; adding an inode establishes it.\<close>

lemma dcache_ok_add:
  "dcache_ok K \<sigma> \<Longrightarrow> d_add_law K \<Longrightarrow> 0 < i \<Longrightarrow>
   dentries \<sigma>' = d_add_effect K e i ((dentries \<sigma>)(e := (dentries \<sigma> e)\<lparr>d_op := op\<rparr>)) \<Longrightarrow>
   dcache_ok K \<sigma>'"
  by (auto simp: dcache_ok_def d_add_law_def)

lemma dcache_ok_cong: "dentries \<sigma>' = dentries \<sigma> \<Longrightarrow> dcache_ok K \<sigma> \<Longrightarrow> dcache_ok K \<sigma>'"
  by (simp add: dcache_ok_def)

text \<open>\<open>proc_pid_make_inode\<close> hands its caller a reference on a new inode, or \<open>NULL\<close> and none.\<close>

lemma proc_pid_make_inode_spec [owns_intros]:
  assumes null: "\<And>f. no_inode K sb task \<Longrightarrow> Q NULL d (\<sigma>\<lparr>inodes := f\<rparr>)"
    and new: "\<And>p f. 0 < p \<Longrightarrow> may_ptr K (VfsQ (Q_new_inode sb)) p \<Longrightarrow>
      may_ptr K (TaskQ (Q_get_task_pid task)) (ei_pid (f p)) \<Longrightarrow> ei_pid (f p) \<noteq> NULL \<Longrightarrow>
      i_op (f p) = Some proc_def_inode_operations \<Longrightarrow>
      Q p (add_mset (RInode p) d) (\<sigma>\<lparr>inodes := f\<rparr>)"
  shows "owns d \<sigma> (proc_pid_make_inode K sb task) Q"
  unfolding proc_pid_make_inode_def
  by (auto intro!: owns_intros null [of "inodes \<sigma>", simplified] null new simp: kernel_defs no_inode_def)

lemma revalidate_frame:
  "revalidate_post K w e \<sigma> r \<sigma>' \<Longrightarrow>
   dentries \<sigma>' = dentries \<sigma> \<and> filps \<sigma>' = filps \<sigma> \<and> dirents \<sigma>' = dirents \<sigma> \<and> uout \<sigma>' = uout \<sigma> \<and>
   honeypot_hooks \<sigma>' = honeypot_hooks \<sigma> \<and> (r = 0 \<and> stale K w (d_inode (dentries \<sigma> e)) (word_of_int (ei_fd (inodes \<sigma> (d_inode (dentries \<sigma> e))))) \<or> r = 1)"
  by (auto simp: revalidate_post_def Let_def)

lemma revalidated_inode:
  "revalidate_post K w e \<sigma> r \<sigma>' \<Longrightarrow> r \<noteq> 0 \<Longrightarrow>
   \<exists>uid gid. inodes \<sigma>' (d_inode (dentries \<sigma> e)) =
     revalidated (inodes \<sigma> (d_inode (dentries \<sigma> e))) uid gid"
  by (auto simp: revalidate_post_def Let_def; blast)

lemma made_post_error:
  "dcache_ok K \<sigma> \<Longrightarrow> F \<Longrightarrow> made_post K F P dentry \<sigma> (Inl (- 2)) (\<sigma>\<lparr>inodes := f\<rparr>)"
  "dcache_ok K \<sigma> \<Longrightarrow> F \<Longrightarrow> made_post K F P dentry \<sigma> (Inl (- 12)) (\<sigma>\<lparr>inodes := f\<rparr>)"
  "dcache_ok K \<sigma> \<Longrightarrow> F \<Longrightarrow> made_post K F P dentry \<sigma> (Inl (- 12)) \<sigma>"
  by (auto simp: made_post_def inst_post_def dcache_ok_def)

text \<open>The common end: \<open>d_op\<close> set, \<open>d_add\<close>, then revalidation.\<close>

lemma made_post_added:
  assumes "d_add_law K" "dcache_ok K \<sigma>" "0 < i" "P (f i)"
  shows "made_post K F P e \<sigma> (Inr 0) (\<sigma>\<lparr>inodes := f,
    dentries := d_add_effect K e i ((dentries \<sigma>)(e := (dentries \<sigma> e)\<lparr>d_op := op\<rparr>))\<rparr>)"
  using assms by (auto simp: made_post_def inst_post_def d_add_law_def dcache_ok_def)

lemma made_post_revalidated:
  assumes "revalidate_post K w e (\<sigma>\<lparr>inodes := f,
      dentries := d_add_effect K e i ((dentries \<sigma>)(e := (dentries \<sigma> e)\<lparr>d_op := op\<rparr>))\<rparr>) r \<sigma>'"
    and "d_add_law K" "dcache_ok K \<sigma>" "0 < i"
    and "\<And>uid gid. P (revalidated (f i) uid gid)"
    and "stale K w i (word_of_int (ei_fd (f i))) \<Longrightarrow> F"
  shows "made_post K F P e \<sigma> (error_unless r) \<sigma>'"
  using revalidate_frame [OF assms(1)] revalidated_inode [OF assms(1)] assms(2-)
  by (auto simp: made_post_def inst_post_def error_unless_def d_add_law_def dcache_ok_def)

lemma instantiatorI:
  assumes "\<And>\<sigma> x dentry dir task d. d_add_law K \<Longrightarrow> dcache_ok K \<sigma> \<Longrightarrow>
    owns d \<sigma> (inst x dir dentry task) (\<lambda>r d' \<sigma>'. d' = d \<and> made_post K (fails x (i_sb (inodes \<sigma> dir)) task) (P x) dentry \<sigma> r \<sigma>')"
  shows "instantiator K inst P fails"
  by (unfold_locales) (rule owns_mono [OF assms]; blast)

lemma s32_fd [simp]: "word_of_int (s32 (uint (fd :: u32))) = fd"
proof -
  have "s32 (uint fd) = sint fd" by (simp add: s32_def sint_uint)
  then show ?thesis by simp
qed

lemmas inode_shapes = entry_inode_def base_inode_def dir_inode_def fd_inode_def fdinfo_inode_def
  revalidated_def set_entry_ops_def

lemma fails_intros:
  "no_inode K sb task \<Longrightarrow> entry_fails K sb task"
  "no_inode K sb task \<Longrightarrow> fdinfo_fails K fd sb task"
  "no_inode K sb task \<Longrightarrow> fd_fails K fd sb task"
  "may_ptr K (VfsQ (Q_get_files_struct task)) 0 \<Longrightarrow> fd_fails K fd sb task"
  "may_ptr K (VfsQ (Q_get_files_struct task)) files \<Longrightarrow> 0 < files \<Longrightarrow>
   may_ptr K (VfsQ (Q_fcheck_files files fd)) 0 \<Longrightarrow> fd_fails K fd sb task"
  "may_ptr K (VfsQ (Q_new_inode sb)) i \<Longrightarrow> 0 < i \<Longrightarrow> stale K True i fd \<Longrightarrow> entry_fails K sb task"
  "may_ptr K (VfsQ (Q_new_inode sb)) i \<Longrightarrow> 0 < i \<Longrightarrow> stale K False i fd \<Longrightarrow> fdinfo_fails K fd sb task"
  "may_ptr K (VfsQ (Q_new_inode sb)) i \<Longrightarrow> 0 < i \<Longrightarrow> stale K False i fd \<Longrightarrow> fd_fails K fd sb task"
  by (auto simp: entry_fails_def fdinfo_fails_def fd_fails_def new_stale_def stale_def intro: fd_closedI)

interpretation fd: instantiator K "proc_fd_instantiate K" fd_inode "fd_fails K" for K
  by (rule instantiatorI)
    (auto intro!: owns_intros made_post_error simp: kernel_defs proc_fd_instantiate_def;
      (blast intro: fails_intros(3-5)
       | (erule (3) made_post_revalidated; simp add: inode_shapes clear_suid_def S_ISLNK_def fails_intros)))

interpretation fdinfo: instantiator K "proc_fdinfo_instantiate K" fdinfo_inode "fdinfo_fails K" for K
  by (rule instantiatorI)
    (auto intro!: owns_intros made_post_error fails_intros(2) simp: kernel_defs proc_fdinfo_instantiate_def;
      erule (3) made_post_revalidated; simp add: inode_shapes clear_suid_def fails_intros)

interpretation pident: instantiator K "proc_pident_instantiate K" entry_inode "\<lambda>_. entry_fails K" for K
  by (rule instantiatorI)
    (auto intro!: owns_intros made_post_error fails_intros(1) simp: kernel_defs proc_pident_instantiate_def;
      erule (3) made_post_revalidated; auto simp: inode_shapes intro: fails_intros)

interpretation base: instantiator K "proc_base_instantiate K" base_inode "\<lambda>_. no_inode K" for K
  by (rule instantiatorI)
    (auto intro!: owns_intros made_post_error made_post_added
      simp: kernel_defs proc_base_instantiate_def inode_shapes no_inode_def)

lemma make_pid_dir_spec:
  "instantiator K (\<lambda>_ :: unit. make_pid_dir K ents iops fops) (\<lambda>_. dir_inode ents iops fops)
     (\<lambda>_. entry_fails K)"
  by (rule instantiatorI)
    (auto intro!: owns_intros made_post_error fails_intros(1) simp: kernel_defs make_pid_dir_def;
      erule (3) made_post_revalidated; simp add: inode_shapes clear_suid_def fails_intros)

interpretation tgid_dir: instantiator K "\<lambda>_ :: unit. proc_pid_instantiate K c"
    "\<lambda>_. dir_inode (tgid_base_stuff c) proc_tgid_base_inode_operations proc_tgid_base_operations"
    "\<lambda>_. entry_fails K"
  for K c
  unfolding proc_pid_instantiate_def [abs_def] by (rule make_pid_dir_spec)

interpretation tid_dir: instantiator K "\<lambda>_ :: unit. proc_task_instantiate K c"
    "\<lambda>_. dir_inode (tid_base_stuff c) proc_tid_base_inode_operations proc_tid_base_operations"
    "\<lambda>_. entry_fails K"
  for K c
  unfolding proc_task_instantiate_def [abs_def] by (rule make_pid_dir_spec)

section \<open>Properties\<close>


text \<open>
  The security consequence for \<open>stat\<close>: \<open>pid_getattr\<close> reports root as
  the owner unless the inode is a world readable directory or the task was found dumpable, and holds
  no lock afterwards.
\<close>

theorem pid_getattr_owner:
  "owns {#} \<sigma> (pid_getattr K dentry)
     (\<lambda>(r, stat) d \<sigma>'. d = {#} \<and> \<sigma>' = \<sigma> \<and> r = 0 \<and>
        (let i = inodes \<sigma> (d_inode (dentries \<sigma> dentry)) in
         ks_nlink stat = ks_nlink (generic_fillattr K i) \<and>
         (ks_uid stat = 0 \<and> ks_gid stat = 0 \<or>
          (\<exists>task. may_ptr K (TaskQ (Q_pid_task (ei_pid i))) task \<and> task \<noteq> NULL \<and>
             owner_visible K True task (i_mode i) \<and>
             cred_ids K task (ks_uid stat) (ks_gid stat)))))"
  unfolding pid_getattr_def
  by (auto intro!: owns_intros simp: kernel_defs) (blast intro: cred_idsI)+

text \<open>
  Instantiating a table entry, under the dcache laws: no reference is kept or lost on
  any path, and on success the dentry leads to an inode with the mode (set-id bits cleared), the
  operations and the \<open>union proc_op\<close> member of that entry, and a pid.
\<close>

lemma proc_pident_instantiate_inode:
  assumes "d_add_law K" "dcache_ok K \<sigma>"
  shows "owns {#} \<sigma> (proc_pident_instantiate K p dir dentry task)
    (\<lambda>r d \<sigma>'. d = {#} \<and> made_post K (entry_fails K (i_sb (inodes \<sigma> dir)) task) (entry_inode p) dentry \<sigma> r \<sigma>')"
  using assms by (auto intro: pident.inst_spec)

text \<open>The dcache laws hold for the concrete kernel.\<close>

lemma ex_kernel_laws [simp]:
  "d_add_law (ex_kernel p n)" "dcache_ok (ex_kernel p n) ex_store"
  by (auto simp: d_add_law_def dcache_ok_def ex_kernel_def ex_store_def)

end
