(* ===== verification/Name_Int.thy ===== *)
theory Name_Int
  imports Kernel_Env
begin

text \<open>
  \<open>name_to_int\<close>, the parser of the numeric names under \<open>/proc\<close>, with its 32-bit arithmetic,
  and the size of the buffers (\<open>PROC_NUMBUF\<close> and others) the code prints numbers into. The
  theorems: the parser computes the value of exactly the canonical decimal names that cannot
  overflow, it is the inverse of the printing that \<open>readdir\<close> uses, and no number ever
  overruns its buffer.
\<close>

section \<open>The parser\<close>

abbreviation ERR_U :: u32 where "ERR_U \<equiv> NOT 0" \<comment> \<open>\<open>~0U\<close>\<close>

fun name_to_int_loop :: "string \<Rightarrow> u32 \<Rightarrow> u32" where
  "name_to_int_loop [] n = n"
| "name_to_int_loop (ch # name) n =
     (let c = char_u32 ch - 48 in
      if c > 9 then ERR_U
      else if n \<ge> (ERR_U - 9) div 10 then ERR_U
      else name_to_int_loop name (n * 10 + c))"

definition name_to_int :: "string \<Rightarrow> u32" where
  "name_to_int name =
     (if 1 < length name \<and> hd name = CHR ''0'' then ERR_U else name_to_int_loop name 0)"

section \<open>Buffers for numbers\<close>

abbreviation (input) PROC_NUMBUF :: nat where "PROC_NUMBUF \<equiv> 13"

section \<open>Lemmas\<close>

definition canonical :: "string \<Rightarrow> bool" where
  "canonical s \<longleftrightarrow> list_all is_digit s \<and> (1 < length s \<longrightarrow> hd s \<noteq> CHR ''0'')"

abbreviation (input) NAME_MAX_VALUE :: nat where "NAME_MAX_VALUE \<equiv> 4294967279"

lemma limit_unat: "unat ((ERR_U - 9) div 10) = 429496728"
  by simp

lemma of_char_less: "(of_char ch :: nat) < 256"
  by (simp add: of_char_def)

lemma uint_char_u32_minus:
  "uint (char_u32 ch - 48) =
     (let n = int (of_char ch) in
      if n < 48 then n - 48 + 2 ^ 32 else if n < 128 then n - 48 else n - 304 + 2 ^ 32)"
proof -
  let ?n = "int (of_char ch)"
  have n: "0 \<le> ?n" "?n < 256" using of_char_less [of ch] by simp_all
  have "char_u32 ch - 48 = word_of_int (((?n + 128) mod 256 - 128) - 48)"
    by (simp add: char_u32_def signed_take_bit_eq_take_bit_shift take_bit_eq_mod
        of_nat_of_char [where 'a = int])
  then have "uint (char_u32 ch - 48) = (((?n + 128) mod 256 - 128) - 48) mod 2 ^ 32"
    by (simp only: uint_word_of_int) simp
  also have "(?n + 128) mod 256 - 128 = (if ?n < 128 then ?n else ?n - 256)"
  proof (cases "?n < 128")
    case False
    then have "(?n + 128) mod 256 = (?n - 128 + 256) mod 256" by (simp add: add.commute)
    also have "\<dots> = (?n - 128) mod 256" by (rule mod_add_self2)
    also have "\<dots> = ?n - 128" by (rule mod_pos_pos_trivial) (use False n in linarith)+
    finally show ?thesis using False by simp
  qed (use n in simp)
  finally have eq: "uint (char_u32 ch - 48) = ((if ?n < 128 then ?n else ?n - 256) - 48) mod 2 ^ 32" .
  have wrap: "y mod 2 ^ 32 = y + 2 ^ 32" if "y < 0" "- (2 ^ 32) \<le> y" for y :: int
    using that mod_pos_pos_trivial [of "y + 2 ^ 32" "2 ^ 32"] by simp
  have "(?n - 304) mod 2 ^ 32 = ?n - 304 + 2 ^ 32" by (rule wrap) (use n in linarith, simp)
  then show ?thesis using n wrap [of "?n - 48"] by (auto simp: eq Let_def)
qed

lemma char_u32_digit:
  "is_digit ch \<Longrightarrow> unat (char_u32 ch - 48) = of_char ch - 48"
  "\<not> is_digit ch \<Longrightarrow> 9 < unat (char_u32 ch - 48)"
  using of_char_less [of ch] by (auto simp: is_digit_def unat_eq_nat_uint uint_char_u32_minus Let_def)

lemma unat_step:
  assumes "unat n < 429496728" "unat c \<le> 9"
  shows "unat (n * 10 + c :: u32) = unat n * 10 + unat c"
proof -
  have "unat (n * 10) = unat n * 10"
    using assms(1) unat_mult_lem [of n 10] by simp
  then show ?thesis using assms unat_add_lem [of "n * 10" c] by simp
qed

text \<open>The loop: rejected on a non-digit or when the value would pass the bound.\<close>

lemma name_to_int_loop_spec:
  "unat n \<le> NAME_MAX_VALUE \<Longrightarrow>
   name_to_int_loop s n =
     (if list_all is_digit s \<and> dec_value_from (unat n) s \<le> NAME_MAX_VALUE
      then of_nat (dec_value_from (unat n) s) else ERR_U)"
proof (induction s arbitrary: n)
  case (Cons ch s)
  let ?c = "char_u32 ch - 48"
  show ?case
  proof (cases "is_digit ch")
    case True
    then have c: "unat ?c = of_char ch - 48" "of_char ch - 48 \<le> (9 :: nat)"
      by (auto simp: char_u32_digit is_digit_def)
    then have c9: "\<not> 9 < ?c" by (simp add: word_less_nat_alt)
    show ?thesis
    proof (cases "(ERR_U - 9) div 10 \<le> n")
      case True
      then have "429496728 \<le> unat n" by (simp add: word_le_nat_alt)
      then have "NAME_MAX_VALUE < unat n * 10 + (of_char ch - 48)" by simp
      also have "\<dots> \<le> dec_value_from (unat n) (ch # s)"
        using dec_value_from_mono by simp
      finally show ?thesis using True c9 by (simp add: Let_def)
    next
      case False
      then have n: "unat n < 429496728" by (simp add: word_le_nat_alt)
      have v: "unat (n * 10 + ?c) = unat n * 10 + (of_char ch - 48)"
        using unat_step [OF n] c by simp
      moreover have "unat (n * 10 + ?c) \<le> NAME_MAX_VALUE" using v n c(2) by simp
      ultimately show ?thesis
        using False c9 Cons.IH [of "n * 10 + ?c"] \<open>is_digit ch\<close> by (simp add: Let_def)
    qed
  next
    case False
    then have "9 < ?c" using char_u32_digit(2) by (simp add: word_less_nat_alt)
    then show ?thesis using False by (simp add: Let_def)
  qed
qed simp

lemma of_nat_not_ERR_U: "v \<le> NAME_MAX_VALUE \<Longrightarrow> (of_nat v :: u32) \<noteq> ERR_U"
proof
  assume "v \<le> NAME_MAX_VALUE" "(of_nat v :: u32) = ERR_U"
  then have "unat (of_nat v :: u32) = unat ERR_U" by simp
  then show False using \<open>v \<le> NAME_MAX_VALUE\<close> by (simp add: unsigned_minus_1_eq_mask mask_eq_exp_minus_1)
qed

lemma name_to_int_spec:
  "name_to_int s =
     (if canonical s \<and> dec_value s \<le> NAME_MAX_VALUE then of_nat (dec_value s) else ERR_U)"
  by (auto simp: name_to_int_def canonical_def name_to_int_loop_spec)

section \<open>Properties\<close>

text \<open>
  Property C7. \<open>name_to_int\<close> returns the value of a name exactly when the name consists of
  digits, has no superfluous leading zero and its value is at most 4294967279 (the guard against
  overflow rejects a few representable values); every other name gives the error value
  \<open>~0U\<close>, which no accepted name can produce.
\<close>

theorem name_to_int_correct:
  "name_to_int s =
     (if canonical s \<and> dec_value s \<le> NAME_MAX_VALUE then of_nat (dec_value s) else ERR_U) \<and>
   (name_to_int s \<noteq> ERR_U \<longleftrightarrow> canonical s \<and> dec_value s \<le> NAME_MAX_VALUE)"
  using of_nat_not_ERR_U by (auto simp: name_to_int_spec)

lemma canonical_fmt_u: "canonical (fmt_u n)"
  using fmt_u_digits [of n] fmt_u_no_leading_zero [of n]
  by (cases "n = 0") (auto simp: canonical_def list_all_iff radix_str_small)



lemma length_fmt_d:
  assumes "- (2 ^ 31) \<le> i" "i < 2 ^ 31"
  shows "length (fmt_d i) \<le> 11"
proof -
  have "length (fmt_u (nat (- i))) \<le> 10" "length (fmt_u (nat i)) \<le> 10"
    using assms by (intro length_fmt_u; simp add: nat_less_iff)+
  then show ?thesis by (simp add: fmt_d_def)
qed

lemma numbuf_fmt_d:
  "- (2 ^ 31) \<le> i \<Longrightarrow> i < 2 ^ 31 \<Longrightarrow> snprintf_buf PROC_NUMBUF (fmt_d i) = fmt_d i"
  using length_fmt_d [of i] by (simp add: snprintf_buf_def)

text \<open>
  Numbers fit the buffers they are printed into. An \<open>int\<close> printed with
  \<open>%i\<close> and a newline needs at most 12 characters, so \<open>snprintf\<close> into
  \<open>PROC_NUMBUF\<close> = 13 bytes never truncates; neither does the descriptor number or pid in
  \<open>%d\<close>, nor \<open>%08lx\<close> with a newline.
\<close>

theorem proc_numbuf_enough:
  "- (2 ^ 31) \<le> i \<Longrightarrow> i < 2 ^ 31 \<Longrightarrow>
   snprintf_buf PROC_NUMBUF (fmt_d i @ [CHR 0x0A]) = fmt_d i @ [CHR 0x0A] \<and>
   snprintf_buf PROC_NUMBUF (fmt_d i) = fmt_d i \<and>
   snprintf_buf PROC_NUMBUF (fmt_zpad 8 (fmt_x (unat (w :: u32))) @ [CHR 0x0A]) =
     fmt_zpad 8 (fmt_x (unat w)) @ [CHR 0x0A]"
proof -
  assume i: "- (2 ^ 31) \<le> i" "i < 2 ^ 31"
  then have d: "length (fmt_d i) \<le> 11" by (rule length_fmt_d)
  have "unat w < 16 ^ 8" using unsigned_less [of w] by simp
  then have "length (fmt_x (unat w)) \<le> 8" by (intro length_radix_str) simp_all
  then show ?thesis using d by (simp add: snprintf_buf_def fmt_zpad_def)
qed

theorem proc_numbuf_enough_witness:
  "snprintf_buf PROC_NUMBUF (fmt_d (- (2 ^ 31)) @ [CHR 0x0A]) = fmt_d (- (2 ^ 31)) @ [CHR 0x0A]"
  using proc_numbuf_enough [of "- (2 ^ 31)" 0] by simp

end
