(* ===== verification/Lookup.thy ===== *)
theory Lookup
  imports Pid_Inode Name_Int
begin

text \<open>
  The \<open>lookup\<close> operations of the directories under \<open>/proc\<close>: by table
  (\<open>proc_pident_lookup\<close>, \<open>proc_base_lookup\<close>), by descriptor number
  (\<open>proc_lookupfd_common\<close>), by process (\<open>proc_pid_lookup\<close>) and by thread
  (\<open>proc_task_lookup\<close>). A table and its length are a list: every caller passes
  \<open>ARRAY_SIZE\<close> of the table. Lookup by descriptor is proved once, for any
  \<open>instantiator\<close>.
\<close>

section \<open>Operations\<close>

text \<open>The loop over \<open>[ents, last]\<close>: the first entry whose length and bytes agree.\<close>

fun find_entry :: "pid_entry list \<Rightarrow> string \<Rightarrow> pid_entry option" where
  "find_entry [] name = None"
| "find_entry (p # ents) name =
     (if pe_len p \<noteq> int (length name) then find_entry ents name
      else if memcmp_eq name (pe_name p) (nat (pe_len p)) then Some p
      else find_entry ents name)"

definition proc_pident_lookup :: "kenv \<Rightarrow> ptr \<Rightarrow> ptr \<Rightarrow> pid_entry list \<Rightarrow> dresult k" where
  "proc_pident_lookup K dir dentry ents = do {
     task \<leftarrow> get_proc_task K dir;
     (if task = NULL then return (Inl (- ENOENT))
      else do {
        dn \<leftarrow> get_dentry dentry;
        error \<leftarrow> (case find_entry ents (d_name dn) of
            None \<Rightarrow> return (Inl (- ENOENT))
          | Some p \<Rightarrow> proc_pident_instantiate K p dir dentry task);
        put_task_struct task;
        return error
      })
   }"

definition proc_base_lookup :: "kenv \<Rightarrow> ptr \<Rightarrow> ptr \<Rightarrow> dresult k" where
  "proc_base_lookup K dir dentry = do {
     task \<leftarrow> get_proc_task K dir;
     (if task = NULL then return (Inl (- ENOENT))
      else do {
        dn \<leftarrow> get_dentry dentry;
        error \<leftarrow> (case find_entry proc_base_stuff (d_name dn) of
            None \<Rightarrow> return (Inl (- ENOENT))
          | Some p \<Rightarrow> proc_base_instantiate K p dir dentry task);
        put_task_struct task;
        return error
      })
   }"

definition proc_lookupfd_common ::
    "kenv \<Rightarrow> (u32 \<Rightarrow> ptr \<Rightarrow> ptr \<Rightarrow> ptr \<Rightarrow> dresult k) \<Rightarrow> ptr \<Rightarrow> ptr \<Rightarrow> dresult k" where
  "proc_lookupfd_common K instantiate dir dentry = do {
     task \<leftarrow> get_proc_task K dir;
     dn \<leftarrow> get_dentry dentry;
     let fd = name_to_int (d_name dn);
     (if task = NULL then return (Inl (- ENOENT))
      else do {
        result \<leftarrow> (if fd = ERR_U then return (Inl (- ENOENT)) else instantiate fd dir dentry task);
        put_task_struct task;
        return result
      })
   }"

definition proc_lookupfd :: "kenv \<Rightarrow> ptr \<Rightarrow> ptr \<Rightarrow> dresult k" where
  "proc_lookupfd K dir dentry = proc_lookupfd_common K (proc_fd_instantiate K) dir dentry"

definition proc_lookupfdinfo :: "kenv \<Rightarrow> ptr \<Rightarrow> ptr \<Rightarrow> dresult k" where
  "proc_lookupfdinfo K dir dentry = proc_lookupfd_common K (proc_fdinfo_instantiate K) dir dentry"

definition proc_attr_dir_lookup :: "kenv \<Rightarrow> ptr \<Rightarrow> ptr \<Rightarrow> dresult k" where
  "proc_attr_dir_lookup K dir dentry = proc_pident_lookup K dir dentry attr_dir_stuff"

definition proc_tgid_base_lookup :: "kenv \<Rightarrow> kconfig \<Rightarrow> ptr \<Rightarrow> ptr \<Rightarrow> dresult k" where
  "proc_tgid_base_lookup K c dir dentry = proc_pident_lookup K dir dentry (tgid_base_stuff c)"

definition proc_tid_base_lookup :: "kenv \<Rightarrow> kconfig \<Rightarrow> ptr \<Rightarrow> ptr \<Rightarrow> dresult k" where
  "proc_tid_base_lookup K c dir dentry = proc_pident_lookup K dir dentry (tid_base_stuff c)"

text \<open>
  \<open>task = find_task_by_pid_ns(nr, ns); if (task) get_task_struct(task);\<close> under
  \<open>rcu_read_lock\<close>
\<close>

definition get_task_by_pid_ns :: "kenv \<Rightarrow> u32 \<Rightarrow> ptr \<Rightarrow> ptr k" where
  "get_task_by_pid_ns K nr ns = do {
     rcu_read_lock;
     task \<leftarrow> find_task_by_pid_ns K nr ns;
     (if task \<noteq> NULL then get_task_struct task else return ());
     rcu_read_unlock;
     return task
   }"

definition proc_pid_lookup :: "kenv \<Rightarrow> kconfig \<Rightarrow> ptr \<Rightarrow> ptr \<Rightarrow> dresult k" where
  "proc_pid_lookup K c dir dentry = do {
     result \<leftarrow> proc_base_lookup K dir dentry;
     (if result \<noteq> Inl (- ENOENT) then return result
      else do {
        dn \<leftarrow> get_dentry dentry;
        let tgid = name_to_int (d_name dn);
        (if tgid = ERR_U then return result
         else do {
           ns \<leftarrow> s_fs_info K (d_sb dn);
           task \<leftarrow> get_task_by_pid_ns K tgid ns;
           (if task = NULL then return result
            else do {
              result \<leftarrow> proc_pid_instantiate K c dir dentry task;
              put_task_struct task;
              return result
            })
         })
      })
   }"

definition proc_task_lookup :: "kenv \<Rightarrow> kconfig \<Rightarrow> ptr \<Rightarrow> ptr \<Rightarrow> dresult k" where
  "proc_task_lookup K c dir dentry = do {
     leader \<leftarrow> get_proc_task K dir;
     (if leader = NULL then return (Inl (- ENOENT))
      else do {
        dn \<leftarrow> get_dentry dentry;
        let tid = name_to_int (d_name dn);
        result \<leftarrow> (if tid = ERR_U then return (Inl (- ENOENT))
          else do {
            ns \<leftarrow> s_fs_info K (d_sb dn);
            task \<leftarrow> get_task_by_pid_ns K tid ns;
            (if task = NULL then return (Inl (- ENOENT))
             else do {
               same \<leftarrow> same_thread_group K leader task;
               result \<leftarrow> (if same = 0 then return (Inl (- ENOENT))
                 else proc_task_instantiate K c dir dentry task);
               put_task_struct task;
               return result
             })
          });
        put_task_struct leader;
        return result
      })
   }"

section \<open>Specifications\<close>

text \<open>The entry of a table with a given name.\<close>

definition entry_named :: "pid_entry list \<Rightarrow> string \<Rightarrow> pid_entry option" where
  "entry_named ents name = List.find (\<lambda>p. pe_name p = name) ents"

lemma find_entry_named:
  "list_all entry_ok ents \<Longrightarrow> find_entry ents name = entry_named ents name"
  by (induction ents) (auto simp: entry_named_def entry_ok_def memcmp_eq_def)

lemma entry_named_iff:
  "distinct (map pe_name ents) \<Longrightarrow> entry_named ents name = Some p \<longleftrightarrow> p \<in> set ents \<and> pe_name p = name"
  by (induction ents) (auto simp: entry_named_def)

lemma entry_named_None: "entry_named ents name = None \<longleftrightarrow> name \<notin> pe_name ` set ents"
  by (auto simp: entry_named_def find_None_iff)

text \<open>
  A lookup for \<open>x\<close> on behalf of a task \<open>t\<close> with \<open>T x t\<close>: without an \<open>x\<close>, or when the
  task may be \<open>NULL\<close>, the answer is \<open>-ENOENT\<close> and nothing changes; otherwise the contract of the
  instantiation of \<open>x\<close> for \<open>t\<close> holds.
\<close>

definition lookup_post ::
    "kenv \<Rightarrow> ('a \<Rightarrow> inode \<Rightarrow> bool) \<Rightarrow> ('a \<Rightarrow> ptr \<Rightarrow> bool) \<Rightarrow> ('a \<Rightarrow> ptr \<Rightarrow> bool) \<Rightarrow> 'a option \<Rightarrow>
     ptr \<Rightarrow> store \<Rightarrow> dresult \<Rightarrow> store \<Rightarrow> bool" where
  "lookup_post K P fails T found dentry \<sigma> r \<sigma>' \<longleftrightarrow>
     (case found of
        None \<Rightarrow> r = Inl (- ENOENT) \<and> \<sigma>' = \<sigma>
      | Some x \<Rightarrow>
          r = Inl (- ENOENT) \<and> \<sigma>' = \<sigma> \<and> T x NULL \<or>
          (\<exists>t. T x t \<and> t \<noteq> NULL \<and> made_post K (fails x t) (P x) dentry \<sigma> r \<sigma>'))"

lemma lookup_post_intros:
  "lookup_post K P fails T None dentry \<sigma> (Inl (- 2)) \<sigma>"
  "T x NULL \<Longrightarrow> lookup_post K P fails T (Some x) dentry \<sigma> (Inl (- 2)) \<sigma>"
  "T x t \<Longrightarrow> 0 < t \<Longrightarrow> made_post K (fails x t) (P x) dentry \<sigma> r \<sigma>' \<Longrightarrow>
   lookup_post K P fails T (Some x) dentry \<sigma> r \<sigma>'"
  by (auto simp: lookup_post_def)

text \<open>The task a directory stands for, the task of a number, and the thread of a number in a directory.\<close>

definition dir_task :: "kenv \<Rightarrow> ptr \<Rightarrow> ptr \<Rightarrow> bool" where
  "dir_task K dir t \<longleftrightarrow> may_ptr K (TaskQ (Q_get_proc_task dir)) t"

definition numbered_task :: "kenv \<Rightarrow> ptr \<Rightarrow> u32 \<Rightarrow> ptr \<Rightarrow> bool" where
  "numbered_task K sb nr t \<longleftrightarrow>
     (\<exists>ns. may_ptr K (TaskQ (Q_s_fs_info sb)) ns \<and> may_ptr K (TaskQ (Q_find_task_by_pid_ns nr ns)) t)"

definition grouped :: "kenv \<Rightarrow> ptr \<Rightarrow> ptr \<Rightarrow> bool \<Rightarrow> bool" where
  "grouped K dir t same \<longleftrightarrow>
     (\<exists>leader x. dir_task K dir leader \<and> leader \<noteq> NULL \<and>
        may_int K (TaskQ (Q_same_thread_group leader t)) x \<and> same = (x \<noteq> 0))"

definition thread_task :: "kenv \<Rightarrow> ptr \<Rightarrow> ptr \<Rightarrow> u32 \<Rightarrow> ptr \<Rightarrow> bool" where
  "thread_task K dir sb nr t \<longleftrightarrow>
     (if t = NULL
      then dir_task K dir NULL \<or> numbered_task K sb nr NULL \<or>
        (\<exists>u. numbered_task K sb nr u \<and> u \<noteq> NULL \<and> grouped K dir u False)
      else numbered_task K sb nr t \<and> grouped K dir t True)"

lemma taskI:
  "may_ptr K (TaskQ (Q_get_proc_task dir)) t \<Longrightarrow> dir_task K dir t"
  "may_ptr K (TaskQ (Q_s_fs_info sb)) ns \<Longrightarrow> may_ptr K (TaskQ (Q_find_task_by_pid_ns nr ns)) t \<Longrightarrow>
   numbered_task K sb nr t"
  "dir_task K dir leader \<Longrightarrow> 0 < leader \<Longrightarrow> may_int K (TaskQ (Q_same_thread_group leader t)) 0 \<Longrightarrow>
   grouped K dir t False"
  "dir_task K dir leader \<Longrightarrow> 0 < leader \<Longrightarrow> may_int K (TaskQ (Q_same_thread_group leader t)) x \<Longrightarrow>
   x \<noteq> 0 \<Longrightarrow> grouped K dir t True"
  by (auto simp: dir_task_def numbered_task_def grouped_def)

lemma thread_taskI:
  "dir_task K dir 0 \<Longrightarrow> thread_task K dir sb nr 0"
  "numbered_task K sb nr 0 \<Longrightarrow> thread_task K dir sb nr 0"
  "numbered_task K sb nr u \<Longrightarrow> 0 < u \<Longrightarrow> grouped K dir u False \<Longrightarrow> thread_task K dir sb nr 0"
  "numbered_task K sb nr t \<Longrightarrow> 0 < t \<Longrightarrow> grouped K dir t True \<Longrightarrow> thread_task K dir sb nr t"
  by (auto simp: thread_task_def)

lemma owns_option [owns_intros]:
  "(x = None \<Longrightarrow> owns d \<sigma> m Q) \<Longrightarrow> (\<And>y. x = Some y \<Longrightarrow> owns d \<sigma> (f y) Q) \<Longrightarrow>
   owns d \<sigma> (case x of None \<Rightarrow> m | Some y \<Rightarrow> f y) Q"
  by (cases x) auto

text \<open>The descriptor a name stands for.\<close>

definition fd_named :: "string \<Rightarrow> u32 option" where
  "fd_named name =
     (if canonical name \<and> dec_value name \<le> NAME_MAX_VALUE then Some (of_nat (dec_value name)) else None)"

lemma name_to_int_fd_named:
  "name_to_int name = (case fd_named name of None \<Rightarrow> ERR_U | Some fd \<Rightarrow> fd)"
  "fd_named name \<noteq> Some ERR_U"
  by (auto simp: fd_named_def name_to_int_spec dest: of_nat_not_ERR_U split: if_splits)

lemma fd_named_not_minus_1 [simp]: "fd_named name \<noteq> Some (- 1)"
  using name_to_int_fd_named(2) by simp

text \<open>Lookup by number, proved once for every function of type \<open>instantiate_t\<close>.\<close>

locale fd_instantiator = instantiator K inst P fails
  for K :: kenv and inst :: "u32 \<Rightarrow> ptr \<Rightarrow> ptr \<Rightarrow> ptr \<Rightarrow> dresult k" and P and fails
begin

lemma lookupfd_common_spec:
  assumes "d_add_law K" "dcache_ok K \<sigma>"
    and Q: "\<And>r \<sigma>'. lookup_post K P (\<lambda>fd. fails fd (i_sb (inodes \<sigma> dir))) (\<lambda>_. dir_task K dir)
        (fd_named (d_name (dentries \<sigma> dentry))) dentry \<sigma> r \<sigma>' \<Longrightarrow> Q r d \<sigma>'"
  shows "owns d \<sigma> (proc_lookupfd_common K inst dir dentry) Q"
  unfolding proc_lookupfd_common_def using assms(1,2)
  by (cases "fd_named (d_name (dentries \<sigma> dentry))";
      auto intro!: owns_intros inst_spec Q simp: kernel_defs name_to_int_fd_named)
    (blast intro: lookup_post_intros taskI)+

end

interpretation fd_dir: fd_instantiator K "proc_fd_instantiate K" fd_inode "fd_fails K" for K ..

interpretation fdinfo_dir: fd_instantiator K "proc_fdinfo_instantiate K" fdinfo_inode "fdinfo_fails K" for K ..

lemma proc_pident_lookup_spec [owns_intros]:
  assumes "d_add_law K" "dcache_ok K \<sigma>" "list_all entry_ok ents"
    and Q: "\<And>r \<sigma>'. lookup_post K entry_inode (\<lambda>_. entry_fails K (i_sb (inodes \<sigma> dir)))
        (\<lambda>_. dir_task K dir) (entry_named ents (d_name (dentries \<sigma> dentry))) dentry \<sigma> r \<sigma>'
      \<Longrightarrow> Q r d \<sigma>'"
  shows "owns d \<sigma> (proc_pident_lookup K dir dentry ents) Q"
  unfolding proc_pident_lookup_def using assms(1,2)
  by (cases "entry_named ents (d_name (dentries \<sigma> dentry))";
      auto intro!: owns_intros pident.inst_spec Q simp: kernel_defs find_entry_named [OF assms(3)])
    (blast intro: lookup_post_intros taskI)+

lemma proc_base_lookup_spec [owns_intros]:
  assumes "d_add_law K" "dcache_ok K \<sigma>"
    and Q: "\<And>r \<sigma>'. lookup_post K base_inode (\<lambda>_. no_inode K (i_sb (inodes \<sigma> dir)))
        (\<lambda>_. dir_task K dir) (entry_named proc_base_stuff (d_name (dentries \<sigma> dentry))) dentry \<sigma> r \<sigma>'
      \<Longrightarrow> Q r d \<sigma>'"
  shows "owns d \<sigma> (proc_base_lookup K dir dentry) Q"
proof -
  have "list_all entry_ok proc_base_stuff"
    using full_tables_ok by (simp add: table_ok_def)
  then show ?thesis
    unfolding proc_base_lookup_def using assms(1,2)
    by (cases "entry_named proc_base_stuff (d_name (dentries \<sigma> dentry))";
        auto intro!: owns_intros base.inst_spec Q simp: kernel_defs find_entry_named)
      (blast intro: lookup_post_intros taskI)+
qed

lemma get_task_by_pid_ns_spec [owns_intros]:
  assumes "may_ptr K (TaskQ (Q_find_task_by_pid_ns nr ns)) NULL \<Longrightarrow> Q NULL d \<sigma>"
    and "\<And>t. may_ptr K (TaskQ (Q_find_task_by_pid_ns nr ns)) t \<Longrightarrow> 0 < t \<Longrightarrow>
      Q t (add_mset (RTask t) d) \<sigma>"
  shows "owns d \<sigma> (get_task_by_pid_ns K nr ns) Q"
  unfolding get_task_by_pid_ns_def
  by (auto intro!: owns_intros assms simp: kernel_defs)

text \<open>The names of the dentries survive an instantiation.\<close>

lemma made_post_names: "made_post K F P e \<sigma> r \<sigma>' \<Longrightarrow> d_name (dentries \<sigma>' x) = d_name (dentries \<sigma> x)"
  by (auto simp: made_post_def inst_post_def)

lemma lookup_post_names:
  "lookup_post K P fails T f e \<sigma> r \<sigma>' \<Longrightarrow> d_name (dentries \<sigma>' x) = d_name (dentries \<sigma> x)"
  by (auto simp: lookup_post_def made_post_names split: option.splits)

lemma base_name_not_number: "entry_named proc_base_stuff name = Some p \<Longrightarrow> fd_named name = None"
  using full_tables_ok
  by (auto simp: table_ok_def entry_named_iff list_all_iff entry_ok_def fd_named_def canonical_def)

lemma lookup_post_None: "lookup_post K P fails T None e \<sigma> r \<sigma>' \<longleftrightarrow> r = Inl (- 2) \<and> \<sigma>' = \<sigma>"
  by (simp add: lookup_post_def)

text \<open>The lookup of a process in \<open>/proc\<close>, and of a thread in a \<open>task\<close> directory.\<close>

definition pid_lookup_post :: "kenv \<Rightarrow> kconfig \<Rightarrow> ptr \<Rightarrow> ptr \<Rightarrow> store \<Rightarrow> dresult \<Rightarrow> store \<Rightarrow> bool" where
  "pid_lookup_post K c dir dentry \<sigma> r \<sigma>' \<longleftrightarrow>
     (let name = d_name (dentries \<sigma> dentry) in
      case entry_named proc_base_stuff name of
        Some p \<Rightarrow> lookup_post K base_inode (\<lambda>_. no_inode K (i_sb (inodes \<sigma> dir)))
           (\<lambda>_. dir_task K dir) (Some p) dentry \<sigma> r \<sigma>'
      | None \<Rightarrow> lookup_post K (\<lambda>_. dir_inode (tgid_base_stuff c)
           proc_tgid_base_inode_operations proc_tgid_base_operations)
           (\<lambda>_. entry_fails K (i_sb (inodes \<sigma> dir))) (numbered_task K (d_sb (dentries \<sigma> dentry)))
           (fd_named name) dentry \<sigma> r \<sigma>')"

lemma proc_pid_lookup_spec [owns_intros]:
  assumes "d_add_law K" "dcache_ok K \<sigma>"
    and Q: "\<And>r \<sigma>'. pid_lookup_post K c dir dentry \<sigma> r \<sigma>' \<Longrightarrow> Q r d \<sigma>'"
  shows "owns d \<sigma> (proc_pid_lookup K c dir dentry) Q"
proof (cases "entry_named proc_base_stuff (d_name (dentries \<sigma> dentry))")
  case None
  then show ?thesis
    unfolding proc_pid_lookup_def using assms(1,2)
    by (cases "fd_named (d_name (dentries \<sigma> dentry))";
        auto intro!: owns_intros tgid_dir.inst_spec Q
          simp: kernel_defs lookup_post_None name_to_int_fd_named pid_lookup_post_def)
      (blast intro: lookup_post_intros taskI)+
next
  case (Some p)
  then show ?thesis
    unfolding proc_pid_lookup_def using assms(1,2)
    by (auto intro!: owns_intros Q
        simp: kernel_defs lookup_post_names name_to_int_fd_named base_name_not_number pid_lookup_post_def)
qed

lemma proc_task_lookup_spec [owns_intros]:
  assumes "d_add_law K" "dcache_ok K \<sigma>"
    and Q: "\<And>r \<sigma>'. lookup_post K
        (\<lambda>_. dir_inode (tid_base_stuff c) proc_tid_base_inode_operations proc_tid_base_operations)
        (\<lambda>_. entry_fails K (i_sb (inodes \<sigma> dir))) (thread_task K dir (d_sb (dentries \<sigma> dentry)))
        (fd_named (d_name (dentries \<sigma> dentry))) dentry \<sigma> r \<sigma>' \<Longrightarrow> Q r d \<sigma>'"
  shows "owns d \<sigma> (proc_task_lookup K c dir dentry) Q"
  unfolding proc_task_lookup_def using assms(1,2)
  by (cases "fd_named (d_name (dentries \<sigma> dentry))";
      auto intro!: owns_intros tid_dir.inst_spec Q simp: kernel_defs name_to_int_fd_named)
    (blast intro: lookup_post_intros thread_taskI taskI)+

text \<open>A lookup keeps the dcache in order.\<close>

lemma made_post_dcache: "made_post K F P e \<sigma> r \<sigma>' \<Longrightarrow> dcache_ok K \<sigma>'"
  by (simp add: made_post_def inst_post_def)

lemma lookup_post_dcache:
  "lookup_post K P fails T found e \<sigma> r \<sigma>' \<Longrightarrow> dcache_ok K \<sigma> \<Longrightarrow> dcache_ok K \<sigma>'"
  by (auto simp: lookup_post_def dest: made_post_dcache split: option.splits)

lemma pid_lookup_post_dcache: "pid_lookup_post K c dir e \<sigma> r \<sigma>' \<Longrightarrow> dcache_ok K \<sigma> \<Longrightarrow> dcache_ok K \<sigma>'"
  by (auto simp: pid_lookup_post_def Let_def dest: lookup_post_dcache split: option.splits)

text \<open>A store in which the dentries have a given name.\<close>

definition ex_named :: "string \<Rightarrow> store" where
  "ex_named name = ex_store\<lparr>dentries := \<lambda>_. \<lparr>d_name = name, d_inode = 1, d_op = None, d_sb = 1\<rparr>\<rparr>"

lemma ex_named_simps [simp]:
  "d_name (dentries (ex_named name) e) = name" "dcache_ok K (ex_named name)"
  by (simp_all add: ex_named_def dcache_ok_def)

text \<open>The concrete kernel never fails to find something.\<close>

lemma ex_kernel_may [simp]:
  "may_ptr (ex_kernel p n) q x \<longleftrightarrow> x = p" "may_int (ex_kernel p n) q y \<longleftrightarrow> y = n"
  by (auto simp: ex_kernel_def may_ptr_def may_int_def)

lemma ex_kernel_nonnull:
  assumes "0 < p" "n \<noteq> 0"
  shows "\<not> entry_fails (ex_kernel p n) sb task" "\<not> fd_fails (ex_kernel p n) fd sb task"
    "\<not> dir_task (ex_kernel p n) dir 0" "\<not> thread_task (ex_kernel p n) dir sb nr 0"
  using assms
  by (auto simp: entry_fails_def fd_fails_def fdinfo_fails_def no_inode_def new_stale_def stale_def
      task_gone_def fd_closed_def dir_task_def thread_task_def numbered_task_def grouped_def)

section \<open>Properties\<close>

text \<open>
  Property C10. Lookup by table, for any well-formed table and any kernel that keeps the dcache laws:
  the entry found is the one with exactly the name asked for; without one, or when the task of the
  directory is gone, the result is \<open>-ENOENT\<close> and nothing changes; otherwise the dentry gets an inode
  that serves that entry, unless the kernel has no inode for that task or it exits before the new
  inode is revalidated. No reference on the task or inode survives on any path.
\<close>

theorem proc_pident_lookup_correct:
  assumes "d_add_law K" "dcache_ok K \<sigma>" "table_ok ents"
  shows "owns {#} \<sigma> (proc_pident_lookup K dir dentry ents)
    (\<lambda>r d \<sigma>'. d = {#} \<and>
       lookup_post K entry_inode (\<lambda>_. entry_fails K (i_sb (inodes \<sigma> dir))) (\<lambda>_. dir_task K dir)
         (entry_named ents (d_name (dentries \<sigma> dentry))) dentry \<sigma> r \<sigma>')"
  using assms by (auto intro!: owns_intros simp: table_ok_def)

theorem proc_pident_lookup_correct_witness:
  "d_add_law (ex_kernel 7 1) \<and> dcache_ok (ex_kernel 7 1) (ex_named ''prev'') \<and> table_ok attr_dir_stuff \<and>
   owns {#} (ex_named ''prev'') (proc_pident_lookup (ex_kernel 7 1) 1 2 attr_dir_stuff)
    (\<lambda>r d \<sigma>'. d = {#} \<and>
       r = Inr NULL \<and> entry_inode (attr_dir_stuff ! 1) (inodes \<sigma>' (d_inode (dentries \<sigma>' 2))))"
proof -
  have "entry_named attr_dir_stuff ''prev'' = Some (attr_dir_stuff ! 1)" by code_simp
  then show ?thesis
    using proc_pident_lookup_correct [of "ex_kernel 7 1" "ex_named ''prev''" attr_dir_stuff 1 2]
      full_tables_ok
    by (auto elim!: owns_mono simp: lookup_post_def made_post_def inst_post_def ex_kernel_nonnull)
qed

text \<open>
  Property C13. Lookup in \<open>fd\<close> and \<open>fdinfo\<close>: only the canonical decimal names of
  numbers below the parser's limit are looked up, as exactly that descriptor; any other name is
  \<open>-ENOENT\<close>. The inode made is a link, respectively an information file, for that descriptor,
  and gives no permission to group or others. A failure means that the task is gone, the descriptor
  is not open in it, or there was no inode to be had.
\<close>

theorem proc_lookupfd_correct:
  assumes "d_add_law K" "dcache_ok K \<sigma>"
  shows "owns {#} \<sigma> (proc_lookupfd K dir dentry)
      (\<lambda>r d \<sigma>'. d = {#} \<and> lookup_post K fd_inode (\<lambda>fd. fd_fails K fd (i_sb (inodes \<sigma> dir)))
         (\<lambda>_. dir_task K dir) (fd_named (d_name (dentries \<sigma> dentry))) dentry \<sigma> r \<sigma>') \<and>
    owns {#} \<sigma> (proc_lookupfdinfo K dir dentry)
      (\<lambda>r d \<sigma>'. d = {#} \<and> lookup_post K fdinfo_inode (\<lambda>fd. fdinfo_fails K fd (i_sb (inodes \<sigma> dir)))
         (\<lambda>_. dir_task K dir) (fd_named (d_name (dentries \<sigma> dentry))) dentry \<sigma> r \<sigma>')"
  unfolding proc_lookupfd_def proc_lookupfdinfo_def
  using assms by (auto intro!: fd_dir.lookupfd_common_spec fdinfo_dir.lookupfd_common_spec)

theorem proc_lookupfd_correct_witness:
  "d_add_law (ex_kernel 7 1) \<and> dcache_ok (ex_kernel 7 1) (ex_named ''12'') \<and>
   owns {#} (ex_named ''12'') (proc_lookupfd (ex_kernel 7 1) 1 2)
    (\<lambda>r d \<sigma>'. d = {#} \<and> r = Inr NULL \<and> fd_inode 12 (inodes \<sigma>' (d_inode (dentries \<sigma>' 2))))"
proof -
  have "fd_named ''12'' = Some 12"
    by (simp add: fd_named_def canonical_def is_digit_def)
  then show ?thesis
    using proc_lookupfd_correct [of "ex_kernel 7 1" "ex_named ''12''" 1 2]
    by (auto elim!: owns_mono simp: lookup_post_def made_post_def inst_post_def ex_kernel_nonnull)
qed

text \<open>
  Property C4. Lookup in \<open>/proc\<close>: a name of the static table is served from it and never
  from the process table; any other name is a process lookup when it is a canonical number, giving a
  directory with the operations and link count of \<open>tgid_base_stuff\<close> for the task found under
  that number, and \<open>-ENOENT\<close> otherwise. Every reference is given back.
\<close>

theorem proc_pid_lookup_correct:
  assumes "d_add_law K" "dcache_ok K \<sigma>"
  shows "owns {#} \<sigma> (proc_pid_lookup K c dir dentry)
    (\<lambda>r d \<sigma>'. d = {#} \<and>
       (let name = d_name (dentries \<sigma> dentry) in
        case entry_named proc_base_stuff name of
          Some p \<Rightarrow> lookup_post K base_inode (\<lambda>_. no_inode K (i_sb (inodes \<sigma> dir)))
             (\<lambda>_. dir_task K dir) (Some p) dentry \<sigma> r \<sigma>'
        | None \<Rightarrow> lookup_post K (\<lambda>_. dir_inode (tgid_base_stuff c)
             proc_tgid_base_inode_operations proc_tgid_base_operations)
             (\<lambda>_. entry_fails K (i_sb (inodes \<sigma> dir))) (numbered_task K (d_sb (dentries \<sigma> dentry)))
             (fd_named name) dentry \<sigma> r \<sigma>'))"
  using assms
  by (auto intro!: proc_pid_lookup_spec simp: pid_lookup_post_def)

theorem proc_pid_lookup_correct_witness:
  "d_add_law (ex_kernel 7 1) \<and> dcache_ok (ex_kernel 7 1) (ex_named ''01'') \<and>
   owns {#} (ex_named ''01'') (proc_pid_lookup (ex_kernel 7 1) (\<lambda>_. True) 1 2)
    (\<lambda>r d \<sigma>'. d = {#} \<and> r = Inl (- ENOENT) \<and> \<sigma>' = ex_named ''01'')"
proof -
  have "entry_named proc_base_stuff ''01'' = None" by code_simp
  moreover have "fd_named ''01'' = None"
    by (simp add: fd_named_def canonical_def)
  ultimately show ?thesis
    using proc_pid_lookup_correct [of "ex_kernel 7 1" "ex_named ''01''" "\<lambda>_. True" 1 2]
    by (simp add: lookup_post_None)
qed

text \<open>
  Property C12. Lookup in a \<open>task\<close> directory: a thread directory is made only for a number
  whose task was found in the same thread group as the directory's process; the failures are a name
  that is no number, a process that is gone, a number without a task, a task of another group, all of
  which give \<open>-ENOENT\<close>, and a failed instantiation. Both task references are given back on every
  path.
\<close>

theorem proc_task_lookup_correct:
  assumes "d_add_law K" "dcache_ok K \<sigma>"
  shows "owns {#} \<sigma> (proc_task_lookup K c dir dentry)
    (\<lambda>r d \<sigma>'. d = {#} \<and>
       lookup_post K (\<lambda>_. dir_inode (tid_base_stuff c) proc_tid_base_inode_operations proc_tid_base_operations)
         (\<lambda>_. entry_fails K (i_sb (inodes \<sigma> dir))) (thread_task K dir (d_sb (dentries \<sigma> dentry)))
         (fd_named (d_name (dentries \<sigma> dentry))) dentry \<sigma> r \<sigma>')"
  using assms by (auto intro!: owns_intros)

theorem proc_task_lookup_correct_witness:
  "d_add_law (ex_kernel 7 1) \<and> dcache_ok (ex_kernel 7 1) (ex_named ''12'') \<and>
   owns {#} (ex_named ''12'') (proc_task_lookup (ex_kernel 7 1) (\<lambda>_. True) 1 2)
     (\<lambda>r d \<sigma>'. d = {#} \<and> r = Inr NULL)"
proof -
  have "fd_named ''12'' = Some 12"
    by (simp add: fd_named_def canonical_def is_digit_def)
  then show ?thesis
    using proc_task_lookup_correct [of "ex_kernel 7 1" "ex_named ''12''" "\<lambda>_. True" 1 2]
    by (auto elim!: owns_mono simp: lookup_post_def made_post_def inst_post_def ex_kernel_nonnull)
qed

end
