(* ===== verification/Readdir.thy ===== *)
theory Readdir
  imports Lookup
begin

text \<open>
  The \<open>readdir\<close> operations of the table directories, over
  \<open>proc_fill_cache\<close>. \<open>listed\<close> describes what a stretch of a directory read has done;
  the readers are proved to list exactly the names from the file position on, one position per
  entry, so that a reader whose buffer fills up resumes where it stopped.
\<close>

lemma u32_of_int: "0 \<le> x \<Longrightarrow> x < 2 ^ 32 \<Longrightarrow> unat (word_of_int x :: u32) = nat x"
  by (simp add: unsigned_of_int take_bit_int_eq_self)

lemma uint_inc: "fd < m \<Longrightarrow> uint (fd + 1 :: u32) = uint fd + 1"
  using unat_inc [of fd m] by (metis of_nat_unat of_nat_Suc add.commute)

text \<open>The decimal names of different numbers are different, and consist of digits.\<close>

lemma fmt_d_inj: "0 \<le> i \<Longrightarrow> 0 \<le> j \<Longrightarrow> fmt_d i = fmt_d j \<longleftrightarrow> i = j"
  by (simp add: fmt_d_def fmt_u_inj eq_nat_nat_iff)

lemma fmt_d_digits:
  assumes "0 \<le> i" "\<not> is_digit c"
  shows "fmt_d i \<noteq> c # cs" "c # cs \<noteq> fmt_d i"
proof -
  have "\<forall>x \<in> set (fmt_d i). is_digit x" using assms(1) fmt_u_digits by (simp add: fmt_d_def)
  then show "fmt_d i \<noteq> c # cs" using assms(2) by (metis list.set_intros(1))
  then show "c # cs \<noteq> fmt_d i" by simp
qed

lemma fd_named_fmt_d: "0 \<le> i \<Longrightarrow> i < 2 ^ 31 \<Longrightarrow> fd_named (fmt_d i) = Some (word_of_int i)"
  by (simp add: fd_named_def fmt_d_def canonical_fmt_u dec_value_fmt_u nat_le_iff)

section \<open>Operations\<close>

text \<open>\<open>len\<close> is the length of \<open>name\<close> at every call.\<close>

definition fill_cache_child ::
    "kenv \<Rightarrow> ptr \<Rightarrow> string \<Rightarrow> (ptr \<Rightarrow> ptr \<Rightarrow> ptr \<Rightarrow> dresult k) \<Rightarrow> ptr \<Rightarrow> dresult k" where
  "fill_cache_child K dir name instantiate task = do {
     child \<leftarrow> d_lookup K dir name;
     (if child = NULL then do {
        new \<leftarrow> d_alloc K dir name;
        (if new \<noteq> NULL then do {
           dn \<leftarrow> get_dentry dir;
           child \<leftarrow> instantiate (d_inode dn) new task;
           (if child \<noteq> Inr NULL then do { dput new; return child } else return (Inr new))
         } else return (Inr NULL))
      } else return (Inr child))
   }"

definition child_ino :: "dresult \<Rightarrow> (u32 \<times> nat) k" where
  "child_ino child = (case child of
       Inl e \<Rightarrow> return (0, DT_UNKNOWN)
     | Inr c \<Rightarrow>
         if c = NULL then return (0, DT_UNKNOWN)
         else do {
           dn \<leftarrow> get_dentry c;
           (if d_inode dn = NULL then return (0, DT_UNKNOWN)
            else do {
              inode \<leftarrow> get_inode (d_inode dn);
              dput c;
              return (i_ino inode, unat (drop_bit 12 (i_mode inode)))
            })
         })"

definition proc_fill_cache ::
    "kenv \<Rightarrow> ptr \<Rightarrow> string \<Rightarrow> (ptr \<Rightarrow> ptr \<Rightarrow> ptr \<Rightarrow> dresult k) \<Rightarrow> ptr \<Rightarrow> int k" where
  "proc_fill_cache K filp name instantiate task = do {
     f \<leftarrow> get_filp filp;
     let dir = f_dentry f;
     child \<leftarrow> fill_cache_child K dir name instantiate task;
     (ino, type) \<leftarrow> child_ino child;
     ino \<leftarrow> (if ino = 0 then find_inode_number K dir name else return ino);
     let ino = (if ino = 0 then 1 else ino);
     f \<leftarrow> get_filp filp;
     filldir K name (f_pos f) ino type
   }"

definition proc_pident_fill_cache :: "kenv \<Rightarrow> ptr \<Rightarrow> ptr \<Rightarrow> pid_entry \<Rightarrow> int k" where
  "proc_pident_fill_cache K filp task p =
     proc_fill_cache K filp (pe_name p) (proc_pident_instantiate K p) task"

definition proc_base_fill_cache :: "kenv \<Rightarrow> ptr \<Rightarrow> ptr \<Rightarrow> pid_entry \<Rightarrow> int k" where
  "proc_base_fill_cache K filp task p =
     proc_fill_cache K filp (pe_name p) (proc_base_instantiate K p) task"

text \<open>\<open>while (p <= last) { ... p++; }\<close>, over the entries from \<open>p\<close> to \<open>last\<close>; false if \<open>filldir\<close> refused.\<close>

fun pident_readdir_loop :: "kenv \<Rightarrow> ptr \<Rightarrow> ptr \<Rightarrow> pid_entry list \<Rightarrow> bool k" where
  "pident_readdir_loop K filp task [] = return True"
| "pident_readdir_loop K filp task (p # ps) = do {
     r \<leftarrow> proc_pident_fill_cache K filp task p;
     (if r < 0 then return False
      else do { f_pos_inc filp; pident_readdir_loop K filp task ps })
   }"

text \<open>The entries \<open>.\<close> and \<open>..\<close>: false if \<open>filldir\<close> refused.\<close>

definition fill_dot :: "kenv \<Rightarrow> ptr \<Rightarrow> string \<Rightarrow> int \<Rightarrow> u32 \<Rightarrow> bool k" where
  "fill_dot K filp name off ino = do {
     r \<leftarrow> filldir K name off ino DT_DIR;
     (if r < 0 then return False else do { f_pos_inc filp; return True })
   }"

text \<open>The \<open>default\<close> case; the comparison \<open>i >= nents\<close> is unsigned.\<close>

definition pident_readdir_default :: "kenv \<Rightarrow> ptr \<Rightarrow> ptr \<Rightarrow> pid_entry list \<Rightarrow> u32 \<Rightarrow> int \<Rightarrow> int k" where
  "pident_readdir_default K filp task ents nents i = do {
     let i = s32 (i - 2);
     (if word_of_int i \<ge> nents then return 1
      else do {
        all \<leftarrow> pident_readdir_loop K filp task (drop (nat i) (take (unat nents) ents));
        return (if all then 1 else 0)
      })
   }"

text \<open>The \<open>switch\<close> with its fall-through cases.\<close>

definition proc_pident_readdir :: "kenv \<Rightarrow> ptr \<Rightarrow> pid_entry list \<Rightarrow> u32 \<Rightarrow> int k" where
  "proc_pident_readdir K filp ents nents = do {
     f \<leftarrow> get_filp filp;
     inode \<leftarrow> file_inode filp;
     task \<leftarrow> get_proc_task K inode;
     (if task = NULL then return (- ENOENT)
      else do {
        let i = s32 (f_pos f);
        ok \<leftarrow> (if i = 0 then do {
            ino \<leftarrow> get_inode inode;
            fill_dot K filp ''.'' i (i_ino ino)
          } else return True);
        let i = (if i = 0 then 1 else i);
        ok \<leftarrow> (if ok \<and> i = 1 then do {
            ino \<leftarrow> parent_ino K (f_dentry f);
            fill_dot K filp ''..'' i ino
          } else return ok);
        let i = (if i = 1 then 2 else i);
        ret \<leftarrow> (if ok then pident_readdir_default K filp task ents nents i else return 0);
        put_task_struct task;
        return ret
      })
   }"

definition proc_attr_dir_readdir :: "kenv \<Rightarrow> ptr \<Rightarrow> int k" where
  "proc_attr_dir_readdir K filp = proc_pident_readdir K filp attr_dir_stuff (ARRAY_SIZE attr_dir_stuff)"

definition proc_tgid_base_readdir :: "kenv \<Rightarrow> kconfig \<Rightarrow> ptr \<Rightarrow> int k" where
  "proc_tgid_base_readdir K c filp =
     proc_pident_readdir K filp (tgid_base_stuff c) (ARRAY_SIZE (tgid_base_stuff c))"

definition proc_tid_base_readdir :: "kenv \<Rightarrow> kconfig \<Rightarrow> ptr \<Rightarrow> int k" where
  "proc_tid_base_readdir K c filp =
     proc_pident_readdir K filp (tid_base_stuff c) (ARRAY_SIZE (tid_base_stuff c))"

section \<open>Specifications\<close>

text \<open>
  A dentry that is in use, such as that of an open directory, is never handed out by \<open>d_alloc\<close>.
\<close>

definition pinned :: "kenv \<Rightarrow> ptr \<Rightarrow> bool" where
  "pinned K e \<longleftrightarrow> (\<forall>dir nm. \<not> may_ptr K (VfsQ (Q_d_alloc dir nm)) e)"

lemma not_pinned: "may_ptr K (VfsQ (Q_d_alloc dir nm)) e \<Longrightarrow> \<not> pinned K e"
  by (auto simp: pinned_def)

text \<open>What a stretch of directory reading leaves alone.\<close>

definition read_frame :: "kenv \<Rightarrow> store \<Rightarrow> store \<Rightarrow> bool" where
  "read_frame K \<sigma> \<sigma>' \<longleftrightarrow>
     dcache_ok K \<sigma>' \<and> uout \<sigma>' = uout \<sigma> \<and> honeypot_hooks \<sigma>' = honeypot_hooks \<sigma> \<and>
     (\<forall>e. d_name (dentries \<sigma>' e) = d_name (dentries \<sigma> e) \<and> d_sb (dentries \<sigma>' e) = d_sb (dentries \<sigma> e) \<and>
        (pinned K e \<longrightarrow> d_inode (dentries \<sigma>' e) = d_inode (dentries \<sigma> e)))"

lemma read_frame_refl: "dcache_ok K \<sigma> \<Longrightarrow> read_frame K \<sigma> \<sigma>"
  by (simp add: read_frame_def)

lemma read_frame_trans: "read_frame K \<sigma> \<sigma>1 \<Longrightarrow> read_frame K \<sigma>1 \<sigma>2 \<Longrightarrow> read_frame K \<sigma> \<sigma>2"
  by (simp add: read_frame_def)

lemma read_frame_update [simp]:
  "read_frame K \<sigma> (\<sigma>'\<lparr>dirents := x\<rparr>) = read_frame K \<sigma> \<sigma>'"
  "read_frame K \<sigma> (\<sigma>'\<lparr>filps := y\<rparr>) = read_frame K \<sigma> \<sigma>'"
  "dcache_ok K (\<sigma>\<lparr>dirents := x\<rparr>) = dcache_ok K \<sigma>"
  "dcache_ok K (\<sigma>\<lparr>filps := y\<rparr>) = dcache_ok K \<sigma>"
  by (simp_all add: read_frame_def dcache_ok_def)

text \<open>The caller's \<open>filldir\<close> may refuse the entry \<open>name\<close> at position \<open>pos\<close>.\<close>

definition refuses :: "kenv \<Rightarrow> string \<Rightarrow> int \<Rightarrow> bool" where
  "refuses K name pos \<longleftrightarrow> (\<exists>ino type r. may_int K (VfsQ (Q_filldir name pos ino type)) r \<and> r < 0)"

lemma refusesI: "may_int K (VfsQ (Q_filldir name pos ino type)) r \<Longrightarrow> r < 0 \<Longrightarrow> refuses K name pos"
  unfolding refuses_def by blast

text \<open>The inode of the directory a file is open on.\<close>

definition dir_of :: "store \<Rightarrow> ptr \<Rightarrow> ptr" where
  "dir_of \<sigma> filp = d_inode (dentries \<sigma> (f_dentry (filps \<sigma> filp)))"

text \<open>
  \<open>proc_fill_cache\<close>: a negative value when the entry was refused; otherwise one entry with
  this name, at the current position and with a non-zero inode number, was delivered.
\<close>

definition fill_post :: "kenv \<Rightarrow> ptr \<Rightarrow> string \<Rightarrow> store \<Rightarrow> int \<Rightarrow> store \<Rightarrow> bool" where
  "fill_post K filp name \<sigma> r \<sigma>' \<longleftrightarrow>
     read_frame K \<sigma> \<sigma>' \<and> filps \<sigma>' = filps \<sigma> \<and>
     (if r < 0 then refuses K name (f_pos (filps \<sigma> filp)) \<and> dirents \<sigma>' = dirents \<sigma>
      else \<exists>ino type. ino \<noteq> 0 \<and> dirents \<sigma>' = dirents \<sigma> @
        [\<lparr>de_name = name, de_off = f_pos (filps \<sigma> filp), de_ino = ino, de_type = type\<rparr>])"

lemma made_post_frame:
  "made_post K F P e \<sigma> r \<sigma>' \<Longrightarrow> \<not> pinned K e \<Longrightarrow> read_frame K \<sigma> \<sigma>' \<and> filps \<sigma>' = filps \<sigma> \<and> dirents \<sigma>' = dirents \<sigma> \<and>
     (r = Inr NULL \<longrightarrow> 0 < d_inode (dentries \<sigma>' e)) \<and> (r = Inr 0 \<or> (\<exists>x. r = Inl x))"
  by (auto simp: made_post_def inst_post_def read_frame_def)

lemma filldir_spec [owns_intros]:
  assumes "\<And>r. refuses K name off \<Longrightarrow> r < 0 \<Longrightarrow> Q r d \<sigma>"
    and "\<And>r. 0 \<le> r \<Longrightarrow> Q r d (\<sigma>\<lparr>dirents := dirents \<sigma> @
      [\<lparr>de_name = name, de_off = off, de_ino = ino, de_type = type\<rparr>]\<rparr>)"
  shows "owns d \<sigma> (filldir K name off ino type) Q"
  unfolding filldir_def using assms by (auto intro!: owns_intros dest: refusesI)

declare filldir_def [kernel_defs del]

lemma owns_case_prod [owns_intros]:
  "(\<And>a b. x = (a, b) \<Longrightarrow> owns d \<sigma> (f a b) Q) \<Longrightarrow> owns d \<sigma> (case x of (a, b) \<Rightarrow> f a b) Q"
  by (cases x) auto

lemma owns_case_sum [owns_intros]:
  "(\<And>a. x = Inl a \<Longrightarrow> owns d \<sigma> (f a) Q) \<Longrightarrow> (\<And>b. x = Inr b \<Longrightarrow> owns d \<sigma> (g b) Q) \<Longrightarrow>
   owns d \<sigma> (case x of Inl a \<Rightarrow> f a | Inr b \<Rightarrow> g b) Q"
  by (cases x) auto

text \<open>Directory entries, for any function of type \<open>instantiate_t\<close>.\<close>

context instantiator
begin

lemma fill_cache_child_spec:
  assumes laws: "d_add_law K" "dcache_ok K \<sigma>"
    and none: "\<And>e \<sigma>'. read_frame K \<sigma> \<sigma>' \<Longrightarrow> filps \<sigma>' = filps \<sigma> \<Longrightarrow> dirents \<sigma>' = dirents \<sigma> \<Longrightarrow>
      e = Inr 0 \<or> (\<exists>x. e = Inl x) \<Longrightarrow> Q e d \<sigma>'"
    and some: "\<And>c \<sigma>'. read_frame K \<sigma> \<sigma>' \<Longrightarrow> filps \<sigma>' = filps \<sigma> \<Longrightarrow> dirents \<sigma>' = dirents \<sigma> \<Longrightarrow>
      0 < c \<Longrightarrow> 0 < d_inode (dentries \<sigma>' c) \<Longrightarrow> Q (Inr c) (add_mset (RDentry c) d) \<sigma>'"
  shows "owns d \<sigma> (fill_cache_child K dir name (inst x) task) Q"
  unfolding fill_cache_child_def using laws
  by (auto intro!: owns_intros inst_spec none some dest!: made_post_frame not_pinned
      simp: kernel_defs read_frame_refl) (auto simp: dcache_ok_def)

lemma fill_cache_spec:
  assumes laws: "d_add_law K" "dcache_ok K \<sigma>"
    and Q: "\<And>r \<sigma>'. fill_post K filp name \<sigma> r \<sigma>' \<Longrightarrow> Q r d \<sigma>'"
  shows "owns d \<sigma> (proc_fill_cache K filp name (inst x) task) Q"
  unfolding proc_fill_cache_def child_ino_def using laws
  by (auto intro!: owns_intros fill_cache_child_spec Q simp: kernel_defs fill_post_def)

end

text \<open>
  \<open>listed K filp names \<sigma> \<sigma>'\<close>: from \<sigma> to \<sigma>' exactly these names were delivered, in this order,
  at consecutive offsets from the file position, which moved on by their number.
\<close>

definition listed :: "kenv \<Rightarrow> ptr \<Rightarrow> string list \<Rightarrow> store \<Rightarrow> store \<Rightarrow> bool" where
  "listed K filp names \<sigma> \<sigma>' \<longleftrightarrow>
     (let p = f_pos (filps \<sigma> filp) in
      read_frame K \<sigma> \<sigma>' \<and>
      filps \<sigma>' = (filps \<sigma>)(filp := (filps \<sigma> filp)\<lparr>f_pos := p + int (length names)\<rparr>) \<and>
      (\<exists>new. dirents \<sigma>' = dirents \<sigma> @ new \<and> map de_name new = names \<and>
         map de_off new = map (\<lambda>i. p + int i) [0..<length names]))"

lemma listed_Nil: "dcache_ok K \<sigma> \<Longrightarrow> listed K filp [] \<sigma> \<sigma>"
  by (simp add: listed_def Let_def read_frame_refl)

lemma listed_Cons:
  assumes "listed K filp [n] \<sigma> \<sigma>1" "listed K filp ns \<sigma>1 \<sigma>2"
  shows "listed K filp (n # ns) \<sigma> \<sigma>2"
  using assms unfolding listed_def Let_def
  by (auto intro: read_frame_trans simp: map_upt_Suc simp del: upt_Suc)

lemma listed_dcache: "listed K filp ns \<sigma> \<sigma>' \<Longrightarrow> dcache_ok K \<sigma>'"
  by (simp add: listed_def read_frame_def Let_def)

lemma listed_pos:
  "listed K filp ns \<sigma> \<sigma>' \<Longrightarrow> f_pos (filps \<sigma>' filp) = f_pos (filps \<sigma> filp) + int (length ns)"
  by (simp add: listed_def Let_def)

text \<open>Positions at which \<open>f_pos++\<close> does not overflow.\<close>

definition pos_ok :: "ptr \<Rightarrow> store \<Rightarrow> bool" where
  "pos_ok filp \<sigma> \<longleftrightarrow> 0 \<le> f_pos (filps \<sigma> filp) \<and> f_pos (filps \<sigma> filp) < 2 ^ 62"

lemma fill_post_listed:
  "fill_post K filp name \<sigma> r \<sigma>' \<Longrightarrow> 0 \<le> r \<Longrightarrow> pos_ok filp \<sigma> \<Longrightarrow>
   listed K filp [name] \<sigma>
     (\<sigma>'\<lparr>filps := (filps \<sigma>')(filp := (filps \<sigma>' filp)\<lparr>f_pos := s64 (f_pos (filps \<sigma>' filp) + 1)\<rparr>)\<rparr>)"
  by (auto simp: fill_post_def listed_def Let_def pos_ok_def)

lemma fill_post_refused:
  "fill_post K filp name \<sigma> r \<sigma>' \<Longrightarrow> r < 0 \<Longrightarrow> listed K filp [] \<sigma> \<sigma>' \<and> refuses K name (f_pos (filps \<sigma> filp))"
  by (auto simp: fill_post_def listed_def Let_def)

text \<open>
  A prefix of \<open>names\<close> was listed: all of them if \<open>all\<close>, and otherwise the caller
  refused the next one.
\<close>

definition listed_part :: "kenv \<Rightarrow> ptr \<Rightarrow> string list \<Rightarrow> store \<Rightarrow> bool \<Rightarrow> store \<Rightarrow> bool" where
  "listed_part K filp names \<sigma> all \<sigma>' \<longleftrightarrow>
     (if all then listed K filp names \<sigma> \<sigma>'
      else \<exists>n < length names. listed K filp (take n names) \<sigma> \<sigma>' \<and>
        refuses K (names ! n) (f_pos (filps \<sigma>' filp)))"

lemma listed_part_Cons:
  "listed K filp [n] \<sigma> \<sigma>1 \<Longrightarrow> listed_part K filp ns \<sigma>1 all \<sigma>2 \<Longrightarrow> listed_part K filp (n # ns) \<sigma> all \<sigma>2"
  by (cases all; force simp: listed_part_def listed_Cons)

lemma listed_part_refused:
  "listed K filp [] \<sigma> \<sigma>' \<Longrightarrow> refuses K n (f_pos (filps \<sigma> filp)) \<Longrightarrow> listed_part K filp (n # ns) \<sigma> False \<sigma>'"
  using listed_pos [of K filp "[]"] by (auto simp: listed_part_def intro!: exI [where x = 0])

lemma pident_readdir_loop_spec:
  assumes "d_add_law K" "dcache_ok K \<sigma>" "0 \<le> f_pos (filps \<sigma> filp)"
    "f_pos (filps \<sigma> filp) + int (length ps) < 2 ^ 62"
    and "\<And>all \<sigma>'. listed_part K filp (map pe_name ps) \<sigma> all \<sigma>' \<Longrightarrow> Q all d \<sigma>'"
  shows "owns d \<sigma> (pident_readdir_loop K filp task ps) Q"
  using assms
proof (induction ps arbitrary: \<sigma> Q)
  case Nil
  then show ?case by (auto intro!: owns_intros simp: listed_part_def listed_Nil)
next
  case (Cons p ps)
  have pos: "pos_ok filp \<sigma>" using Cons.prems by (simp add: pos_ok_def)
  have step: "owns d \<sigma>1 (pident_readdir_loop K filp task ps) Q"
    if l: "listed K filp [pe_name p] \<sigma> \<sigma>1" for \<sigma>1
    using l Cons.prems listed_pos [OF l] listed_dcache [OF l] listed_part_Cons [OF l]
    by (intro Cons.IH) auto
  show ?case
    unfolding pident_readdir_loop.simps proc_pident_fill_cache_def using Cons.prems pos
    by (auto intro!: owns_intros pident.fill_cache_spec step fill_post_listed Cons.prems(5)
        listed_part_refused dest: fill_post_refused simp: kernel_defs)
qed

text \<open>The entries of a table directory, the dots first.\<close>

definition dir_names :: "pid_entry list \<Rightarrow> string list" where
  "dir_names ents = ''.'' # ''..'' # map pe_name ents"

lemma fill_dot_spec:
  assumes "dcache_ok K \<sigma>" "pos_ok filp \<sigma>" "off = f_pos (filps \<sigma> filp)"
    and "\<And>\<sigma>'. listed K filp [name] \<sigma> \<sigma>' \<Longrightarrow> Q True d \<sigma>'"
    and "refuses K name off \<Longrightarrow> Q False d \<sigma>"
  shows "owns d \<sigma> (fill_dot K filp name off ino) Q"
  unfolding fill_dot_def using assms
  by (auto intro!: owns_intros assms(4) simp: kernel_defs listed_def Let_def read_frame_refl pos_ok_def)

text \<open>The result of a read of a table directory.\<close>

definition readdir_post :: "kenv \<Rightarrow> ptr \<Rightarrow> string list \<Rightarrow> store \<Rightarrow> int \<Rightarrow> store \<Rightarrow> bool" where
  "readdir_post K filp names \<sigma> ret \<sigma>' \<longleftrightarrow>
     (\<exists>all. ret = of_bool all \<and> listed_part K filp names \<sigma> all \<sigma>')"

lemma readdir_post_simps:
  "readdir_post K filp names \<sigma> 1 \<sigma>' = listed_part K filp names \<sigma> True \<sigma>'"
  "readdir_post K filp names \<sigma> 0 \<sigma>' = listed_part K filp names \<sigma> False \<sigma>'"
  by (auto simp: readdir_post_def)

lemma pident_readdir_default_spec:
  assumes "d_add_law K" "dcache_ok K \<sigma>" "length ents < 100"
    and i: "f_pos (filps \<sigma> filp) = i" "2 \<le> i" "i < 2 ^ 31"
    and Q: "\<And>r \<sigma>'. readdir_post K filp (drop (nat i) (dir_names ents)) \<sigma> r \<sigma>' \<Longrightarrow> Q r d \<sigma>'"
  shows "owns d \<sigma> (pident_readdir_default K filp task ents (ARRAY_SIZE ents) i) Q"
proof -
  have n: "unat (ARRAY_SIZE ents) = length ents" using assms(3) by (simp add: ARRAY_SIZE_def)
  have w: "unat (word_of_int i - 2 :: u32) = nat (i - 2)"
    using u32_of_int [of "i - 2"] i by simp
  have "nat i = Suc (Suc (nat (i - 2)))" using i by simp
  then have names: "drop (nat i) (dir_names ents) = map pe_name (drop (nat (i - 2)) ents)"
    by (simp add: dir_names_def drop_map)
  show ?thesis
    unfolding pident_readdir_default_def using assms(1-3) i(2,3)
    by (auto intro!: owns_intros pident_readdir_loop_spec Q
        simp: kernel_defs word_le_nat_alt i(1) n w names readdir_post_simps listed_part_def listed_Nil)
qed

lemma readdir_post_Cons:
  "listed K filp [n] \<sigma> \<sigma>1 \<Longrightarrow> readdir_post K filp ns \<sigma>1 r \<sigma>2 \<Longrightarrow> readdir_post K filp (n # ns) \<sigma> r \<sigma>2"
  unfolding readdir_post_def using listed_part_Cons by blast

lemma readdir_post_refused:
  "dcache_ok K \<sigma> \<Longrightarrow> refuses K n q \<Longrightarrow> f_pos (filps \<sigma> filp) = q \<Longrightarrow> readdir_post K filp (n # ns) \<sigma> 0 \<sigma>"
  by (simp add: readdir_post_simps listed_part_refused listed_Nil)

lemma goneI:
  "may_ptr K (TaskQ (Q_get_proc_task (d_inode (dentries \<sigma> (f_dentry (filps \<sigma> filp)))))) 0 \<Longrightarrow>
   task_gone K (dir_of \<sigma> filp)"
  by (simp add: task_gone_def dir_of_def)

lemma proc_pident_readdir_spec:
  assumes "d_add_law K" "dcache_ok K \<sigma>" "length ents < 100"
    and p: "f_pos (filps \<sigma> filp) = int p" "p < 2 ^ 31"
    and null: "task_gone K (dir_of \<sigma> filp) \<Longrightarrow> Q (- ENOENT) d \<sigma>"
    and Q: "\<And>r \<sigma>'. readdir_post K filp (drop p (dir_names ents)) \<sigma> r \<sigma>' \<Longrightarrow> Q r d \<sigma>'"
  shows "owns d \<sigma> (proc_pident_readdir K filp ents (ARRAY_SIZE ents)) Q"
proof -
  note posts = readdir_post_Cons readdir_post_refused goneI
  have second: "readdir_post K filp (n # m # ns) \<sigma> 0 \<sigma>'"
    if "listed K filp [n] \<sigma> \<sigma>'" "refuses K m 1" "p = 0" for n m ns \<sigma>'
    using that listed_pos [OF that(1)] listed_dcache [OF that(1)] p(1)
    by (intro readdir_post_Cons [OF that(1)] readdir_post_refused) auto
  note intros = owns_intros fill_dot_spec pident_readdir_default_spec Q null
  consider (0) "p = 0" | (1) "p = 1" | (2) "2 \<le> p" by linarith
  then show ?thesis
  proof cases
    case 0
    show ?thesis
      unfolding proc_pident_readdir_def using assms(1-3) p(2) 0
      by (auto intro!: intros simp: kernel_defs p(1) pos_ok_def listed_pos listed_dcache dir_names_def)
        (use p(1) in \<open>auto intro: posts second\<close>)
  next
    case 1
    show ?thesis
      unfolding proc_pident_readdir_def using assms(1-3) p(2) 1
      by (auto intro!: intros simp: kernel_defs p(1) pos_ok_def listed_pos listed_dcache dir_names_def)
        (use p(1) in \<open>auto intro: posts\<close>)
  next
    case 2
    then show ?thesis
      unfolding proc_pident_readdir_def using assms(1-3) p(2)
      by (auto intro!: intros goneI simp: kernel_defs p(1))
  qed
qed

section \<open>Reading a directory in several calls\<close>

text \<open>
  A caller that issues \<open>n\<close> successive \<open>getdents\<close> calls on one open file, with the results in
  the order of the calls. The dentry of the open directory is in use all the time, so that every call is
  about the same directory.
\<close>

fun read_times :: "(ptr \<Rightarrow> 'r k) \<Rightarrow> ptr \<Rightarrow> nat \<Rightarrow> 'r list k" where
  "read_times read filp 0 = return []"
| "read_times read filp (Suc n) = do {
     r \<leftarrow> read filp;
     rs \<leftarrow> read_times read filp n;
     return (r # rs)
   }"

text \<open>The results of \<open>n\<close> calls: each is one of \<open>R\<close>, and the last one satisfies \<open>P\<close>.\<close>

definition results :: "'r set \<Rightarrow> ('r \<Rightarrow> bool) \<Rightarrow> nat \<Rightarrow> 'r list \<Rightarrow> bool" where
  "results R P n rs \<longleftrightarrow> length rs = n \<and> set rs \<subseteq> R \<and> (n = 0 \<or> P (last rs))"

lemma results_simps [simp]: "results R P 0 rs \<longleftrightarrow> rs = []"
  by (auto simp: results_def)

lemma results_Cons:
  "r \<in> R \<Longrightarrow> n = 0 \<and> rs = [] \<and> P r \<or> 0 < n \<and> results R P n rs \<Longrightarrow> results R P (Suc n) (r # rs)"
  by (auto simp: results_def)

lemma read_frame_dir:
  assumes "read_frame K \<sigma> \<sigma>'" "filps \<sigma>' = (filps \<sigma>)(filp := (filps \<sigma> filp)\<lparr>f_pos := q\<rparr>)"
    "pinned K (f_dentry (filps \<sigma> filp))"
  shows "dir_of \<sigma>' filp = dir_of \<sigma> filp" "pinned K (f_dentry (filps \<sigma>' filp))"
  using assms by (auto simp: read_frame_def dir_of_def)

lemma listed_dir:
  assumes "listed K filp ns \<sigma> \<sigma>'" "pinned K (f_dentry (filps \<sigma> filp))"
  shows "dir_of \<sigma>' filp = dir_of \<sigma> filp"
  using assms by (auto simp: listed_def Let_def intro: read_frame_dir)

lemma listed_append:
  assumes "listed K filp as \<sigma> \<sigma>1" "listed K filp bs \<sigma>1 \<sigma>2"
  shows "listed K filp (as @ bs) \<sigma> \<sigma>2"
proof -
  have "map (\<lambda>i. p + int i) [0..<m + n] =
      map (\<lambda>i. p + int i) [0..<m] @ map (\<lambda>i. p + int m + int i) [0..<n]" for p and m n :: nat
    by (induction n) simp_all
  then show ?thesis
    using assms unfolding listed_def Let_def by (auto intro: read_frame_trans)
qed

text \<open>
  The contract of a directory whose position counts entries: a call delivers the names from the
  position on, up to a refusal. Everything a caller gets from several calls follows from it.
\<close>

locale table_reader =
  fixes K :: kenv and read :: "ptr \<Rightarrow> int k" and names :: "string list"
  assumes read_spec:
    "d_add_law K \<Longrightarrow> dcache_ok K \<sigma> \<Longrightarrow> f_pos (filps \<sigma> filp) = int p \<Longrightarrow> p < 2 ^ 31 \<Longrightarrow>
     (task_gone K (dir_of \<sigma> filp) \<Longrightarrow> Q (- ENOENT) d \<sigma>) \<Longrightarrow>
     (\<And>r \<sigma>'. readdir_post K filp (drop p names) \<sigma> r \<sigma>' \<Longrightarrow> Q r d \<sigma>') \<Longrightarrow>
     owns d \<sigma> (read filp) Q"
    and few_names: "length names < 1000"
begin

text \<open>
  Where a read from the start of the directory \<open>i\<close> stands after a call with the result \<open>r\<close>: at
  its end, anywhere without a task, or at an entry that is refused.
\<close>

definition stopped :: "ptr \<Rightarrow> nat \<Rightarrow> int \<Rightarrow> bool" where
  "stopped i q r \<longleftrightarrow>
     r = 1 \<and> q = length names \<or> r = - ENOENT \<and> task_gone K i \<or>
     r = 0 \<and> q < length names \<and> refuses K (names ! q) (int q)"

lemma listed_prefix_step:
  assumes "listed K filp (take q names) \<sigma>0 \<sigma>" "readdir_post K filp (drop q names) \<sigma> r \<sigma>'"
    "q \<le> length names" "f_pos (filps \<sigma> filp) = int q"
  shows "\<exists>q'. q \<le> q' \<and> q' \<le> length names \<and> stopped i q' r \<and> listed K filp (take q' names) \<sigma>0 \<sigma>'"
proof -
  obtain n where n: "listed K filp (take n (drop q names)) \<sigma> \<sigma>'" "n \<le> length names - q"
      "r = 1 \<and> n = length names - q \<or>
       r = 0 \<and> n < length names - q \<and> refuses K (names ! (q + n)) (f_pos (filps \<sigma>' filp))"
    using assms(2,3) by (cases "r = 1") (auto simp: readdir_post_def listed_part_def
        intro: that [of "length names - q"] that)
  then have "stopped i (q + n) r"
    using listed_pos [OF n(1)] assms(3,4) by (auto simp: stopped_def)
  moreover have "listed K filp (take (q + n) names) \<sigma>0 \<sigma>'"
    using listed_append [OF assms(1) n(1)] by (simp add: take_add)
  ultimately show ?thesis using n(2) assms(3) by (intro exI [where x = "q + n"]) simp
qed

lemma read_times_prefix:
  assumes "d_add_law K" "listed K filp (take q names) \<sigma>0 \<sigma>" "q \<le> length names"
    "f_pos (filps \<sigma>0 filp) = 0" "pinned K (f_dentry (filps \<sigma>0 filp))"
    and Q: "\<And>q' rs \<sigma>'. q' \<le> length names \<Longrightarrow>
      results {1, 0, - ENOENT} (stopped (dir_of \<sigma>0 filp) q') n rs \<Longrightarrow>
      listed K filp (take q' names) \<sigma>0 \<sigma>' \<Longrightarrow> Q rs d \<sigma>'"
  shows "owns d \<sigma> (read_times read filp n) Q"
  using assms
proof (induction n arbitrary: \<sigma> q Q)
  case 0
  then show ?case by (auto intro!: owns_intros)
next
  case (Suc n)
  let ?i = "dir_of \<sigma>0 filp"
  have p: "f_pos (filps \<sigma> filp) = int q" "q < 2 ^ 31"
    using listed_pos [OF Suc.prems(2)] Suc.prems(3,4) few_names by auto
  have next_call: "owns d \<sigma>' (read_times read filp n) (\<lambda>rs d \<sigma>'. owns d \<sigma>' (return (r # rs)) Q)"
    if q': "q' \<le> length names" "stopped ?i q' r" "listed K filp (take q' names) \<sigma>0 \<sigma>'" for q' r \<sigma>'
  proof (cases n)
    case 0
    then show ?thesis using q' by (auto intro!: owns_intros Suc.prems(6) results_Cons simp: stopped_def)
  next
    case (Suc m)
    then show ?thesis
      using q'(2) by (intro Suc.IH [OF Suc.prems(1) q'(3,1) Suc.prems(4,5)])
        (auto intro!: owns_intros Suc.prems(6) results_Cons simp: stopped_def)
  qed
  have "owns d \<sigma> (read_times read filp n) (\<lambda>rs d \<sigma>'. owns d \<sigma>' (return (- ENOENT # rs)) Q)"
    if "task_gone K (dir_of \<sigma> filp)"
    using that next_call [OF Suc.prems(3) _ Suc.prems(2)] listed_dir [OF Suc.prems(2,5)]
    by (auto simp: stopped_def)
  moreover have "owns d \<sigma>' (read_times read filp n) (\<lambda>rs d \<sigma>'. owns d \<sigma>' (return (r # rs)) Q)"
    if "readdir_post K filp (drop q names) \<sigma> r \<sigma>'" for r \<sigma>'
    using listed_prefix_step [OF Suc.prems(2) that Suc.prems(3) p(1)] next_call by blast
  ultimately show ?case
    using Suc.prems(1) listed_dcache [OF Suc.prems(2)] p unfolding read_times.simps
    by (intro owns_bind read_spec) auto
qed

end

lemma table_readerI:
  "table_ok ents \<Longrightarrow>
   table_reader K (\<lambda>filp. proc_pident_readdir K filp ents (ARRAY_SIZE ents)) (dir_names ents)"
  by unfold_locales (auto intro!: proc_pident_readdir_spec simp: table_ok_def dir_names_def)

section \<open>Scanning a directory with gaps\<close>

text \<open>
  \<open>scanned K filp slot gap \<sigma> \<sigma>'\<close>: the file position moved forward; the entries delivered on the
  way have strictly increasing offsets within the stretch and the names \<open>slot\<close> gives their
  offsets; and every position passed was either delivered or is a \<open>gap\<close>.
\<close>

definition scanned ::
    "kenv \<Rightarrow> ptr \<Rightarrow> (int \<Rightarrow> string) \<Rightarrow> (int \<Rightarrow> bool) \<Rightarrow> store \<Rightarrow> store \<Rightarrow> bool" where
  "scanned K filp slot gap \<sigma> \<sigma>' \<longleftrightarrow>
     read_frame K \<sigma> \<sigma>' \<and>
     (\<exists>new q. filps \<sigma>' = (filps \<sigma>)(filp := (filps \<sigma> filp)\<lparr>f_pos := q\<rparr>) \<and>
        dirents \<sigma>' = dirents \<sigma> @ new \<and> f_pos (filps \<sigma> filp) \<le> q \<and>
        sorted_wrt (<) (map de_off new) \<and>
        (\<forall>e \<in> set new. f_pos (filps \<sigma> filp) \<le> de_off e \<and> de_off e < q \<and> de_name e = slot (de_off e)) \<and>
        (\<forall>i. f_pos (filps \<sigma> filp) \<le> i \<longrightarrow> i < q \<longrightarrow> i \<in> de_off ` set new \<or> gap i))"

lemma scanned_refl: "dcache_ok K \<sigma> \<Longrightarrow> scanned K filp slot gap \<sigma> \<sigma>"
  by (auto simp: scanned_def read_frame_refl intro!: exI [where x = "f_pos (filps \<sigma> filp)"])

lemma scanned_trans:
  assumes "scanned K filp slot gap \<sigma> \<sigma>1" "scanned K filp slot gap \<sigma>1 \<sigma>2"
  shows "scanned K filp slot gap \<sigma> \<sigma>2"
proof -
  obtain n1 q1 n2 q2 where
      1: "filps \<sigma>1 = (filps \<sigma>)(filp := (filps \<sigma> filp)\<lparr>f_pos := q1\<rparr>)"
        "dirents \<sigma>1 = dirents \<sigma> @ n1" "f_pos (filps \<sigma> filp) \<le> q1" "sorted_wrt (<) (map de_off n1)"
        "\<forall>e \<in> set n1. f_pos (filps \<sigma> filp) \<le> de_off e \<and> de_off e < q1 \<and> de_name e = slot (de_off e)"
        "\<forall>i. f_pos (filps \<sigma> filp) \<le> i \<longrightarrow> i < q1 \<longrightarrow> i \<in> de_off ` set n1 \<or> gap i"
    and 2: "filps \<sigma>2 = (filps \<sigma>)(filp := (filps \<sigma> filp)\<lparr>f_pos := q2\<rparr>)"
        "dirents \<sigma>2 = dirents \<sigma> @ n1 @ n2" "q1 \<le> q2" "sorted_wrt (<) (map de_off n2)"
        "\<forall>e \<in> set n2. q1 \<le> de_off e \<and> de_off e < q2 \<and> de_name e = slot (de_off e)"
        "\<forall>i. q1 \<le> i \<longrightarrow> i < q2 \<longrightarrow> i \<in> de_off ` set n2 \<or> gap i"
    using assms unfolding scanned_def by fastforce
  have "sorted_wrt (<) (map de_off (n1 @ n2))"
    using 1(4,5) 2(4,5) by (fastforce simp: sorted_wrt_append)
  moreover have "\<forall>i. f_pos (filps \<sigma> filp) \<le> i \<longrightarrow> i < q2 \<longrightarrow> i \<in> de_off ` set (n1 @ n2) \<or> gap i"
    using 1(6) 2(6) by (metis UnCI image_Un linorder_not_less set_append)
  moreover have "read_frame K \<sigma> \<sigma>2"
    using assms read_frame_trans by (auto simp: scanned_def)
  ultimately show ?thesis
    unfolding scanned_def using 1(3,5) 2(1,2,3,5)
    by (intro conjI exI [where x = "n1 @ n2"] exI [where x = q2]) fastforce+
qed

lemma fill_post_scanned:
  assumes "fill_post K filp (slot (f_pos (filps \<sigma> filp))) \<sigma> r \<sigma>'" "0 \<le> r" "pos_ok filp \<sigma>"
  shows "scanned K filp slot gap \<sigma>
     (\<sigma>'\<lparr>filps := (filps \<sigma>')(filp := (filps \<sigma>' filp)\<lparr>f_pos := s64 (f_pos (filps \<sigma>' filp) + 1)\<rparr>)\<rparr>)"
  using assms unfolding scanned_def fill_post_def
  by (auto simp: pos_ok_def intro!: exI [where x = "f_pos (filps \<sigma> filp) + 1"])

lemma fill_post_scanned_refused:
  "fill_post K filp name \<sigma> r \<sigma>' \<Longrightarrow> r < 0 \<Longrightarrow> scanned K filp slot gap \<sigma> \<sigma>' \<and>
     refuses K name (f_pos (filps \<sigma>' filp))"
  by (auto simp: scanned_def fill_post_def intro!: exI [where x = "f_pos (filps \<sigma> filp)"])

lemma scanned_skip:
  assumes "dcache_ok K \<sigma>" "gap (f_pos (filps \<sigma> filp))" "pos_ok filp \<sigma>"
  shows "scanned K filp slot gap \<sigma>
     (\<sigma>\<lparr>filps := (filps \<sigma>)(filp := (filps \<sigma> filp)\<lparr>f_pos := s64 (f_pos (filps \<sigma> filp) + 1)\<rparr>)\<rparr>)"
proof -
  have "i = f_pos (filps \<sigma> filp)" if "f_pos (filps \<sigma> filp) \<le> i" "i < f_pos (filps \<sigma> filp) + 1" for i
    using that by simp
  then show ?thesis
    using assms unfolding scanned_def
    by (auto simp: pos_ok_def read_frame_refl intro!: exI [where x = "f_pos (filps \<sigma> filp) + 1"])
qed

text \<open>A listing of names is a scan without gaps.\<close>

lemma listed_scanned:
  assumes l: "listed K filp ns \<sigma> \<sigma>'"
    and slot: "\<And>i. i < length ns \<Longrightarrow> slot (f_pos (filps \<sigma> filp) + int i) = ns ! i"
  shows "scanned K filp slot gap \<sigma> \<sigma>'"
proof -
  let ?p = "f_pos (filps \<sigma> filp)"
  obtain new where new: "dirents \<sigma>' = dirents \<sigma> @ new" "map de_name new = ns"
      "map de_off new = map (\<lambda>i. ?p + int i) [0..<length ns]"
    using l by (auto simp: listed_def Let_def)
  have len: "length new = length ns" using new(2) by auto
  have nth: "de_name (new ! i) = ns ! i \<and> de_off (new ! i) = ?p + int i" if "i < length ns" for i
    using that new(2,3) len by (metis (no_types, lifting) add.left_neutral diff_zero length_map length_upt nth_map nth_upt)
  have "sorted_wrt (<) (map (\<lambda>i. ?p + int i) [0..<length ns])"
    by (simp add: sorted_wrt_map)
  moreover have "\<forall>e \<in> set new. ?p \<le> de_off e \<and> de_off e < ?p + int (length ns) \<and> de_name e = slot (de_off e)"
    using nth slot len by (auto simp: in_set_conv_nth)
  moreover have "i \<in> de_off ` set new" if "?p \<le> i" "i < ?p + int (length ns)" for i
  proof (rule image_eqI)
    show "i = de_off (new ! nat (i - ?p))" using nth [of "nat (i - ?p)"] that by simp
    show "new ! nat (i - ?p) \<in> set new" using that len by simp
  qed
  ultimately show ?thesis
    using l new unfolding scanned_def listed_def Let_def
    by (auto intro!: exI [where x = new] exI [where x = "?p + int (length ns)"])
qed

lemma scanned_dcache: "scanned K filp slot gap \<sigma> \<sigma>' \<Longrightarrow> dcache_ok K \<sigma>'"
  by (simp add: scanned_def read_frame_def)

lemma scanned_dir:
  assumes "scanned K filp slot gap \<sigma> \<sigma>'" "pinned K (f_dentry (filps \<sigma> filp))"
  shows "dir_of \<sigma>' filp = dir_of \<sigma> filp"
  using assms by (auto simp: scanned_def intro: read_frame_dir)

text \<open>Exactly one of the entries has this name.\<close>

definition once :: "string \<Rightarrow> dirent list \<Rightarrow> bool" where
  "once name new \<longleftrightarrow> length (filter (\<lambda>e. de_name e = name) new) = 1"

text \<open>
  What a scan delivered: every name belongs to its position, and a position passed that is no gap was
  delivered exactly once, if no two positions share a name.
\<close>

lemma scanned_once:
  assumes s: "scanned K filp slot gap \<sigma> \<sigma>'"
    and inj: "inj_on slot {f_pos (filps \<sigma> filp) ..< f_pos (filps \<sigma>' filp)}"
  shows "\<exists>new. dirents \<sigma>' = dirents \<sigma> @ new \<and>
    (\<forall>e \<in> set new. f_pos (filps \<sigma> filp) \<le> de_off e \<and> de_off e < f_pos (filps \<sigma>' filp) \<and> de_name e = slot (de_off e)) \<and>
    (\<forall>j. f_pos (filps \<sigma> filp) \<le> j \<longrightarrow> j < f_pos (filps \<sigma>' filp) \<longrightarrow> \<not> gap j \<longrightarrow> once (slot j) new)"
proof -
  let ?p = "f_pos (filps \<sigma> filp)" and ?q = "f_pos (filps \<sigma>' filp)"
  obtain new where new: "dirents \<sigma>' = dirents \<sigma> @ new" "sorted_wrt (<) (map de_off new)"
      "\<forall>e \<in> set new. ?p \<le> de_off e \<and> de_off e < ?q \<and> de_name e = slot (de_off e)"
      "\<forall>i. ?p \<le> i \<longrightarrow> i < ?q \<longrightarrow> i \<in> de_off ` set new \<or> gap i"
    using s unfolding scanned_def by auto
  have d: "distinct new" "inj_on de_off (set new)"
    using new(2) by (simp_all add: strict_sorted_iff distinct_map)
  have "once (slot j) new" if j: "?p \<le> j" "j < ?q" "\<not> gap j" for j
  proof -
    obtain e where e: "e \<in> set new" "de_off e = j" using new(4) j by blast
    have uniq: "x = e" if x: "x \<in> set new" "de_name x = slot j" for x
    proof (rule inj_onD [OF d(2) _ x(1) e(1)])
      have "slot (de_off x) = slot j" "de_off x \<in> {?p ..< ?q}" using x new(3) by simp_all
      then have "de_off x = j" by (rule inj_onD [OF inj]) (use j in simp)
      then show "de_off x = de_off e" using e(2) by simp
    qed
    have "de_name e = slot j" using new(3) e by blast
    then have "set (filter (\<lambda>x. de_name x = slot j) new) = {e}" using e(1) by (auto dest: uniq)
    moreover have "distinct (filter (\<lambda>x. de_name x = slot j) new)" using d(1) by simp
    ultimately show ?thesis
      unfolding once_def using distinct_card [of "filter (\<lambda>x. de_name x = slot j) new"] by simp
  qed
  with new show ?thesis by blast
qed

text \<open>
  The contract of a directory whose positions are numbers with gaps: a call scans from the position on, up to
  a reason to \<open>stop\<close>, and leaves a position to go on from. Its result is \<open>fin\<close>, or \<open>gone\<close>
  without a task.
\<close>

locale scan_reader =
  fixes K :: kenv and laws :: bool and read :: "ptr \<Rightarrow> 'r k" and gone :: 'r and fin :: 'r and slot :: "int \<Rightarrow> string"
    and gap :: "ptr \<Rightarrow> int \<Rightarrow> bool" and stop :: "ptr \<Rightarrow> int \<Rightarrow> bool" and valid :: "int \<Rightarrow> bool"
  assumes read_spec:
    "laws \<Longrightarrow> dcache_ok K \<sigma> \<Longrightarrow> valid (f_pos (filps \<sigma> filp)) \<Longrightarrow> i = dir_of \<sigma> filp \<Longrightarrow>
     (task_gone K i \<Longrightarrow> Q gone d \<sigma>) \<Longrightarrow>
     (\<And>\<sigma>'. scanned K filp slot (gap i) \<sigma> \<sigma>' \<Longrightarrow> stop i (f_pos (filps \<sigma>' filp)) \<Longrightarrow>
        valid (f_pos (filps \<sigma>' filp)) \<Longrightarrow> Q fin d \<sigma>') \<Longrightarrow>
     owns d \<sigma> (read filp) Q"
begin

definition stopped :: "ptr \<Rightarrow> int \<Rightarrow> 'r \<Rightarrow> bool" where
  "stopped i pos r \<longleftrightarrow> r = gone \<and> task_gone K i \<or> r = fin \<and> stop i pos"

lemma read_times_scanned:
  assumes "laws" "scanned K filp slot (gap i) \<sigma>0 \<sigma>" "valid (f_pos (filps \<sigma> filp))"
    and dir: "pinned K (f_dentry (filps \<sigma>0 filp))" "i = dir_of \<sigma>0 filp"
    and Q: "\<And>rs \<sigma>'. scanned K filp slot (gap i) \<sigma>0 \<sigma>' \<Longrightarrow> valid (f_pos (filps \<sigma>' filp)) \<Longrightarrow>
      results {gone, fin} (stopped i (f_pos (filps \<sigma>' filp))) n rs \<Longrightarrow> Q rs d \<sigma>'"
  shows "owns d \<sigma> (read_times read filp n) Q"
  using assms
proof (induction n arbitrary: \<sigma> Q)
  case 0
  then show ?case by (auto intro!: owns_intros)
next
  case (Suc n)
  have i: "i = dir_of \<sigma> filp" using scanned_dir [OF Suc.prems(2,4)] Suc.prems(5) by simp
  have next_call: "owns d \<sigma>' (read_times read filp n) (\<lambda>rs d \<sigma>'. owns d \<sigma>' (return (r # rs)) Q)"
    if s: "scanned K filp slot (gap i) \<sigma>0 \<sigma>'" "valid (f_pos (filps \<sigma>' filp))"
      "stopped i (f_pos (filps \<sigma>' filp)) r" for r \<sigma>'
  proof (cases n)
    case 0
    then show ?thesis using s by (auto intro!: owns_intros Suc.prems(6) results_Cons simp: stopped_def)
  next
    case (Suc m)
    then show ?thesis
      using s(3) by (intro Suc.IH [OF Suc.prems(1) s(1,2) Suc.prems(4,5)])
        (auto intro!: owns_intros Suc.prems(6) results_Cons simp: stopped_def)
  qed
  show ?case
    unfolding read_times.simps
    using Suc.prems(1-3) scanned_dcache [OF Suc.prems(2)] scanned_trans [OF Suc.prems(2)]
    by (intro owns_bind read_spec [OF _ _ _ i] next_call) (auto simp: stopped_def)
qed

end

section \<open>Properties\<close>

text \<open>
  The table directories satisfy the contract of a positional reader.
\<close>

interpretation tgid_reader: table_reader K "proc_tgid_base_readdir K c" "dir_names (tgid_base_stuff c)"
  for K c
  unfolding proc_tgid_base_readdir_def [abs_def]
  by (rule table_readerI) (blast intro: table_ok_subseq tgid_base_stuff_full full_tables_ok)

interpretation tid_reader: table_reader K "proc_tid_base_readdir K c" "dir_names (tid_base_stuff c)"
  for K c
  unfolding proc_tid_base_readdir_def [abs_def]
  by (rule table_readerI) (blast intro: table_ok_subseq tid_base_stuff_full full_tables_ok)

interpretation attr_reader: table_reader K "proc_attr_dir_readdir K" "dir_names attr_dir_stuff" for K
  unfolding proc_attr_dir_readdir_def [abs_def] by (rule table_readerI) (rule full_tables_ok)

text \<open>
  Property C11. One read of a table directory (\<open>/proc/PID\<close>, a thread directory,
  \<open>attr\<close>) from position \<open>p\<close>: without a task it is \<open>-ENOENT\<close> and nothing
  changes; otherwise the entries from position \<open>p\<close> of \<open>.\<close>, \<open>..\<close> and the
  table are delivered in order at consecutive offsets, either all of them (result 1) or up to one
  that the caller refused at its position (result 0), and the file position has moved on by exactly the number
  delivered. Every reference and lock is given back, including those of the dentries created.
\<close>

theorem proc_pident_readdir_correct:
  assumes "d_add_law K" "dcache_ok K \<sigma>" "table_ok ents" "f_pos (filps \<sigma> filp) = int p" "p < 2 ^ 31"
  shows "owns {#} \<sigma> (proc_pident_readdir K filp ents (ARRAY_SIZE ents))
    (\<lambda>r d \<sigma>'. d = {#} \<and>
       (r = - ENOENT \<and> \<sigma>' = \<sigma> \<and> task_gone K (dir_of \<sigma> filp) \<or>
        readdir_post K filp (drop p (dir_names ents)) \<sigma> r \<sigma>'))"
  using assms by (auto intro!: proc_pident_readdir_spec simp: table_ok_def)

lemma ex_kernel_accepts:
  "0 < p \<Longrightarrow> \<not> task_gone (ex_kernel p n) i" "0 \<le> n \<Longrightarrow> \<not> refuses (ex_kernel p n) name pos"
  by (auto simp: task_gone_def refuses_def)

lemma ex_pinned: "pinned (ex_kernel 7 n) (f_dentry (filps ex_store filp))"
  by (simp add: pinned_def ex_store_def)

lemma ex_store_pos [simp]: "f_pos (filps ex_store filp) = 0"
  by (simp add: ex_store_def)

theorem proc_pident_readdir_correct_witness:
  "d_add_law (ex_kernel 7 1) \<and> dcache_ok (ex_kernel 7 1) ex_store \<and> table_ok attr_dir_stuff \<and>
   f_pos (filps ex_store 1) = int 0 \<and> (0 :: nat) < 2 ^ 31 \<and>
   owns {#} ex_store (proc_pident_readdir (ex_kernel 7 1) 1 attr_dir_stuff (ARRAY_SIZE attr_dir_stuff))
    (\<lambda>r d \<sigma>'. d = {#} \<and>
       r = 1 \<and> listed (ex_kernel 7 1) 1 (dir_names attr_dir_stuff) ex_store \<sigma>')"
  using proc_pident_readdir_correct [of "ex_kernel 7 1" ex_store attr_dir_stuff 1 0] full_tables_ok
  by (auto elim!: owns_mono simp: ex_kernel_accepts readdir_post_def listed_part_def split: if_splits)

text \<open>
  Property C2. A process directory read in any number of calls, each of which may stop early because
  the caller's buffer is full: what the caller has got is always a prefix of the directory, in order,
  each name once, and the file position is its length. No entry is lost or repeated between calls.
  The result of the last call tells where it stands: 1 when the prefix is the whole directory, 0 when
  the caller refuses the entry at that position, \<open>-ENOENT\<close> when the process of this directory is gone.
\<close>

theorem readdir_resumes:
  assumes "d_add_law K" "dcache_ok K \<sigma>" "f_pos (filps \<sigma> filp) = 0" "pinned K (f_dentry (filps \<sigma> filp))"
  shows "owns {#} \<sigma> (read_times (proc_tgid_base_readdir K c) filp n)
    (\<lambda>rs d \<sigma>'. d = {#} \<and>
       (let names = dir_names (tgid_base_stuff c) in
        \<exists>q \<le> length names. listed K filp (take q names) \<sigma> \<sigma>' \<and>
          results {1, 0, - ENOENT} (\<lambda>r.
            r = 1 \<and> q = length names \<or> r = - ENOENT \<and> task_gone K (dir_of \<sigma> filp) \<or>
            r = 0 \<and> q < length names \<and> refuses K (names ! q) (int q)) n rs))"
  unfolding Let_def using assms
  by (intro tgid_reader.read_times_prefix [where q = 0 and ?\<sigma>0.0 = \<sigma>])
    (auto simp: listed_Nil tgid_reader.stopped_def [abs_def])

theorem readdir_resumes_witness:
  "d_add_law (ex_kernel 7 1) \<and> dcache_ok (ex_kernel 7 1) ex_store \<and> f_pos (filps ex_store 1) = 0 \<and>
   pinned (ex_kernel 7 1) (f_dentry (filps ex_store 1)) \<and>
   owns {#} ex_store (read_times (proc_tgid_base_readdir (ex_kernel 7 1) (\<lambda>_. True)) 1 3)
    (\<lambda>rs d \<sigma>'. d = {#} \<and> last rs = 1 \<and>
       listed (ex_kernel 7 1) 1 (dir_names (tgid_base_stuff (\<lambda>_. True))) ex_store \<sigma>')"
  using readdir_resumes [of "ex_kernel 7 1" ex_store 1 "\<lambda>_. True" 3]
  by (auto elim!: owns_mono simp: ex_kernel_accepts ex_pinned results_def Let_def)

end
