(* ===== verification/Pid_Readdir.thy ===== *)
theory Pid_Readdir
  imports Readdir
begin

text \<open>
  The directory of processes: \<open>next_tgid\<close> and \<open>proc_pid_readdir\<close>, with the honeypot hook
  that this tree adds to the loop. Both loops end only because process numbers are bounded, which is
  a property of the kernel's pid allocator; they therefore take fuel, and \<open>None\<close> means that the
  fuel ran out. \<open>PID_MAX_LIMIT\<close>, a constant of \<open>linux/threads.h\<close>, is the parameter
  \<open>pm\<close>.
\<close>

section \<open>Operations\<close>

text \<open>The part of \<open>next_tgid\<close> from the label \<open>retry\<close> on; \<open>NULL\<close> as the task: no process left.\<close>

fun next_tgid_retry :: "kenv \<Rightarrow> ptr \<Rightarrow> nat \<Rightarrow> u32 \<Rightarrow> (u32 \<times> ptr) option k" where
  "next_tgid_retry K ns 0 tgid = return None"
| "next_tgid_retry K ns (Suc n) tgid = do {
     pid \<leftarrow> find_ge_pid K tgid ns;
     (if pid = NULL then return (Some (tgid, NULL))
      else do {
        nr \<leftarrow> pid_nr_ns K pid ns;
        let tgid = (word_of_int nr :: u32);
        task \<leftarrow> pid_task K pid;
        leader \<leftarrow> (if task = NULL then return 0 else has_group_leader_pid K task);
        (if leader = 0 then next_tgid_retry K ns n (tgid + 1)
         else do { get_task_struct task; return (Some (tgid, task)) })
      })
   }"

definition next_tgid :: "kenv \<Rightarrow> ptr \<Rightarrow> nat \<Rightarrow> u32 \<times> ptr \<Rightarrow> (u32 \<times> ptr) option k" where
  "next_tgid K ns n iter = do {
     (if snd iter \<noteq> NULL then put_task_struct (snd iter) else return ());
     rcu_read_lock;
     iter \<leftarrow> next_tgid_retry K ns n (fst iter);
     rcu_read_unlock;
     return iter
   }"

abbreviation (input) FIRST_PROCESS_ENTRY :: u32 where "FIRST_PROCESS_ENTRY \<equiv> 256"

definition TGID_OFFSET :: u32 where
  "TGID_OFFSET = FIRST_PROCESS_ENTRY + ARRAY_SIZE proc_base_stuff"

definition proc_pid_fill_cache :: "kenv \<Rightarrow> kconfig \<Rightarrow> ptr \<Rightarrow> u32 \<times> ptr \<Rightarrow> int k" where
  "proc_pid_fill_cache K c filp iter =
     proc_fill_cache K filp (snprintf_buf PROC_NUMBUF (fmt_d (s32 (uint (fst iter)))))
       (proc_pid_instantiate K c) (snd iter)"

text \<open>The hook that does nothing, and the initial hooks.\<close>

definition dummy_in_proc_pid_readdir :: "unit k" where
  "dummy_in_proc_pid_readdir = return ()"

definition honeypot_hooks_init :: honeypot_hooks_s where
  "honeypot_hooks_init = \<lparr>in_proc_pid_readdir = Dummy_in_proc_pid_readdir, dummy_hook = Null_hook\<rparr>"

text \<open>
  \<open>honeypot_hooks.in_proc_pid_readdir()\<close>: the function of a module is code that is not part of
  \<open>base.c\<close>; it gets no argument, and its result is dropped.
\<close>

definition call_readdir_hook :: "unit k" where
  "call_readdir_hook = do {
     \<sigma> \<leftarrow> get_st;
     (if in_proc_pid_readdir (honeypot_hooks \<sigma>) = Dummy_in_proc_pid_readdir
      then dummy_in_proc_pid_readdir
      else call_hook (in_proc_pid_readdir (honeypot_hooks \<sigma>)))
   }"

definition set_f_pos :: "ptr \<Rightarrow> int \<Rightarrow> unit k" where
  "set_f_pos filp pos = upd_filp filp (\<lambda>f. f\<lparr>f_pos := pos\<rparr>)"

text \<open>The loop over processes, and the assignment behind it.\<close>

fun pid_readdir_loop :: "kenv \<Rightarrow> kconfig \<Rightarrow> u32 \<Rightarrow> ptr \<Rightarrow> ptr \<Rightarrow> nat \<Rightarrow> u32 \<times> ptr \<Rightarrow> unit option k" where
  "pid_readdir_loop K c pm filp ns 0 iter = return None"
| "pid_readdir_loop K c pm filp ns (Suc n) iter =
     (if snd iter = NULL then do {
        set_f_pos filp (uint (pm + TGID_OFFSET));
        return (Some ())
      } else do {
        set_f_pos filp (uint (fst iter + TGID_OFFSET));
        call_readdir_hook;
        r \<leftarrow> proc_pid_fill_cache K c filp iter;
        (if r < 0 then do { put_task_struct (snd iter); return (Some ()) }
         else do {
           it \<leftarrow> next_tgid K ns n (fst iter + 1, snd iter);
           (case it of None \<Rightarrow> return None | Some it \<Rightarrow> pid_readdir_loop K c pm filp ns n it)
         })
      })"

text \<open>The loop over \<open>proc_base_stuff\<close>; false if \<open>filldir\<close> refused.\<close>

fun base_readdir_loop :: "kenv \<Rightarrow> ptr \<Rightarrow> ptr \<Rightarrow> pid_entry list \<Rightarrow> bool k" where
  "base_readdir_loop K filp reaper [] = return True"
| "base_readdir_loop K filp reaper (p # ps) = do {
     r \<leftarrow> proc_base_fill_cache K filp reaper p;
     (if r < 0 then return False
      else do { f_pos_inc filp; base_readdir_loop K filp reaper ps })
   }"

definition proc_pid_readdir :: "kenv \<Rightarrow> kconfig \<Rightarrow> u32 \<Rightarrow> nat \<Rightarrow> ptr \<Rightarrow> int option k" where
  "proc_pid_readdir K c pm n filp = do {
     f \<leftarrow> get_filp filp;
     let nr = (word_of_int (f_pos f - uint FIRST_PROCESS_ENTRY) :: u32);
     inode \<leftarrow> file_inode filp;
     reaper \<leftarrow> get_proc_task K inode;
     (if reaper = NULL then return (Some 0)
      else do {
        ok \<leftarrow> base_readdir_loop K filp reaper (drop (unat nr) proc_base_stuff);
        r \<leftarrow> (if \<not> ok then return (Some ())
          else do {
            dn \<leftarrow> get_dentry (f_dentry f);
            ns \<leftarrow> s_fs_info K (d_sb dn);
            f \<leftarrow> get_filp filp;
            it \<leftarrow> next_tgid K ns n (word_of_int (f_pos f - uint TGID_OFFSET), NULL);
            (case it of None \<Rightarrow> return None | Some it \<Rightarrow> pid_readdir_loop K c pm filp ns n it)
          });
        put_task_struct reaper;
        return (map_option (\<lambda>_. 0) r)
      })
   }"

section \<open>Specifications\<close>

text \<open>
  What the pid allocator promises: \<open>find_ge_pid\<close> answers a pid whose number, asked for at once
  (within the same RCU read section), is at least the one asked for and below \<open>PID_MAX_LIMIT\<close>.
\<close>

definition may_find_ge :: "kenv \<Rightarrow> u32 \<Rightarrow> ptr \<Rightarrow> ptr \<Rightarrow> int \<Rightarrow> bool" where
  "may_find_ge K nr ns pid n \<longleftrightarrow>
     (\<exists>tr. ans_ptr K tr (TaskQ (Q_find_ge_pid nr ns)) = pid \<and>
        ans_int K (tr @ [Ask (TaskQ (Q_find_ge_pid nr ns))]) (TaskQ (Q_pid_nr_ns pid ns)) = n)"

definition find_ge_law :: "kenv \<Rightarrow> u32 \<Rightarrow> bool" where
  "find_ge_law K pm \<longleftrightarrow>
     unat pm < 2 ^ 31 - 1000 \<and>
     (\<forall>nr ns pid n. may_find_ge K nr ns pid n \<longrightarrow> pid \<noteq> NULL \<longrightarrow> uint nr \<le> n \<and> n < uint pm)"

lemma owns_find_ge_pid:
  assumes "\<And>nr'. may_find_ge K nr ns NULL nr' \<Longrightarrow> owns d \<sigma> m Q"
    and "\<And>pid n. may_find_ge K nr ns pid n \<Longrightarrow> 0 < pid \<Longrightarrow> owns d \<sigma> (f pid n) Q"
  shows "owns d \<sigma> (do { pid \<leftarrow> find_ge_pid K nr ns;
    (if pid = NULL then m else do { n \<leftarrow> pid_nr_ns K pid ns; f pid n }) }) Q"
  unfolding owns_def
proof (intro allI impI)
  fix s :: kstate
  assume st: "st s = \<sigma>"
  let ?q = "TaskQ (Q_find_ge_pid nr ns)"
  let ?pid = "ans_ptr K (trace s) ?q"
  let ?n = "ans_int K (trace s @ [Ask ?q]) (TaskQ (Q_pid_nr_ns ?pid ns))"
  have may: "may_find_ge K nr ns ?pid ?n" by (auto simp: may_find_ge_def)
  show "case run_state (do { pid \<leftarrow> find_ge_pid K nr ns;
      (if pid = NULL then m else do { n \<leftarrow> pid_nr_ns K pid ns; f pid n }) }) s of (x, s') \<Rightarrow>
      \<exists>new d'. trace s' = trace s @ new \<and> replay d new = Some d' \<and> Q x d' (st s')"
  proof (cases "?pid = 0")
    case True
    then have "owns d \<sigma> m Q" using assms(1) may by auto
    from owns_run [OF this, of "s\<lparr>trace := trace s @ [Ask ?q]\<rparr>"] show ?thesis
      using True st by (auto simp: find_ge_pid_def ask_ptr_def case_prod_beta)
  next
    case False
    then have "owns d \<sigma> (f ?pid ?n) Q" using assms(2) may by auto
    from owns_run [OF this, of "s\<lparr>trace := trace s @ [Ask ?q, Ask (TaskQ (Q_pid_nr_ns ?pid ns))]\<rparr>"]
    show ?thesis
      using False st
      by (auto simp: find_ge_pid_def pid_nr_ns_def ask_ptr_def ask_int_def case_prod_beta)
  qed
qed

text \<open>
  Why a process number may be passed over: \<open>find_ge_pid\<close>, asked from it or from below, answered
  a larger number or none; or the pid with this number had no task or was not that of a group
  leader.
\<close>

definition tgid_gap :: "kenv \<Rightarrow> int \<Rightarrow> bool" where
  "tgid_gap K i \<longleftrightarrow>
     (\<exists>nr ns pid n. may_find_ge K nr ns pid n \<and> uint nr \<le> i \<and> (pid = NULL \<or> i < n)) \<or>
     (\<exists>nr ns pid t. may_find_ge K nr ns pid i \<and> may_ptr K (TaskQ (Q_pid_task pid)) t \<and>
        (t = NULL \<or> may_int K (TaskQ (Q_has_group_leader_pid t)) 0))"

text \<open>
  What \<open>next_tgid\<close> returns when started at \<open>tgid\<close>: no process, or the number and task
  of one that was found to be a group leader, with nothing but gaps before it.
\<close>

definition next_tgid_post :: "kenv \<Rightarrow> u32 \<Rightarrow> u32 \<Rightarrow> u32 \<times> ptr \<Rightarrow> bool" where
  "next_tgid_post K pm tgid it \<longleftrightarrow>
     tgid \<le> fst it \<and> (tgid \<le> pm \<longrightarrow> fst it \<le> pm) \<and> (\<forall>i. uint tgid \<le> i \<longrightarrow> i < uint (fst it) \<longrightarrow> tgid_gap K i) \<and>
     (if snd it = NULL then \<forall>i. uint (fst it) \<le> i \<longrightarrow> tgid_gap K i
      else fst it < pm \<and> (\<exists>x. x \<noteq> 0 \<and> may_int K (TaskQ (Q_has_group_leader_pid (snd it))) x))"

lemma tgid_gap_skip:
  "may_find_ge K nr ns pid n \<Longrightarrow> uint nr \<le> i \<Longrightarrow> pid = NULL \<or> i < n \<Longrightarrow> tgid_gap K i"
  unfolding tgid_gap_def by blast

lemma tgid_gap_no_leader:
  assumes "may_find_ge K nr ns pid i" "may_ptr K (TaskQ (Q_pid_task pid)) t"
    "t = NULL \<or> may_int K (TaskQ (Q_has_group_leader_pid t)) 0"
  shows "tgid_gap K i"
  unfolding tgid_gap_def using assms by metis

lemma find_ge_bounds:
  assumes "find_ge_law K pm" "may_find_ge K tgid ns pid n" "0 < pid"
  shows "uint (word_of_int n :: u32) = n" "tgid \<le> word_of_int n" "(word_of_int n :: u32) < pm"
    "uint tgid \<le> n"
proof -
  have n: "uint tgid \<le> n" "n < uint pm" using assms unfolding find_ge_law_def by blast+
  have "0 \<le> n" using n(1) uint_nonnegative [of tgid] by linarith
  then show u: "uint (word_of_int n :: u32) = n"
    using n(2) uint_bounded [of pm] by (simp add: uint_word_of_int_eq take_bit_int_eq_self)
  show "tgid \<le> word_of_int n" "(word_of_int n :: u32) < pm" "uint tgid \<le> n"
    using n u by (simp_all add: word_le_def word_less_def)
qed

lemma next_tgid_post_found:
  assumes "find_ge_law K pm" "may_find_ge K tgid ns pid n" "0 < pid" "0 < task"
    "may_int K (TaskQ (Q_has_group_leader_pid task)) x" "x \<noteq> 0"
  shows "next_tgid_post K pm tgid (word_of_int n, task)"
proof -
  note b = find_ge_bounds [OF assms(1-3)]
  have "tgid_gap K i" if "uint tgid \<le> i" "i < n" for i
    using that assms(2) tgid_gap_skip by blast
  then show ?thesis
    unfolding next_tgid_post_def using b assms(4-) by (auto intro: less_imp_le)
qed

lemma next_tgid_post_retry:
  assumes "find_ge_law K pm" "may_find_ge K tgid ns pid n" "0 < pid"
    and gap: "tgid_gap K n"
    and it: "next_tgid_post K pm (word_of_int n + 1) it"
  shows "next_tgid_post K pm tgid it"
proof -
  note b = find_ge_bounds [OF assms(1-3)]
  have inc: "uint (word_of_int n + 1 :: u32) = n + 1" using uint_inc [OF b(3)] b(1) by simp
  have before: "tgid_gap K i" if "uint tgid \<le> i" "i < n" for i
    using that assms(2) tgid_gap_skip by blast
  have "tgid_gap K i" if "uint tgid \<le> i" "i < uint (fst it)" for i
    using that it before gap inc unfolding next_tgid_post_def
    by (cases i n rule: linorder_cases) auto
  moreover have "tgid \<le> fst it"
    using it inc b(4) by (simp add: next_tgid_post_def word_le_def)
  moreover have "(word_of_int n + 1 :: u32) \<le> pm"
    using inc b(1,3) by (simp add: word_le_def word_less_def)
  ultimately show ?thesis
    using it unfolding next_tgid_post_def by blast
qed

lemma next_tgid_post_null:
  "may_find_ge K tgid ns 0 n \<Longrightarrow> next_tgid_post K pm tgid (tgid, 0)"
  unfolding next_tgid_post_def by (auto intro: tgid_gap_skip)

lemma next_tgid_retry_spec:
  assumes law: "find_ge_law K pm"
    and fuel: "unat pm - unat tgid < n"
    and none: "\<And>t. next_tgid_post K pm tgid (t, NULL) \<Longrightarrow> Q (Some (t, NULL)) d \<sigma>"
    and some: "\<And>t task. next_tgid_post K pm tgid (t, task) \<Longrightarrow> 0 < task \<Longrightarrow>
      Q (Some (t, task)) (add_mset (RTask task) d) \<sigma>"
  shows "owns d \<sigma> (next_tgid_retry K ns n tgid) Q"
  using fuel none some
proof (induction n arbitrary: tgid)
  case 0
  then show ?case by simp
next
  case (Suc n)
  have retry: "owns d \<sigma> (next_tgid_retry K ns n (word_of_int m + 1)) Q"
    if f: "may_find_ge K tgid ns pid m" "0 < pid" "tgid_gap K m" for pid m
  proof (rule Suc.IH)
    note b = find_ge_bounds [OF law f(1,2)]
    have "unat (word_of_int m + 1 :: u32) = Suc (unat (word_of_int m :: u32))"
      using unat_inc [OF b(3)] .
    then show "unat pm - unat (word_of_int m + 1 :: u32) < n"
      using Suc.prems(1) b(2,3) by (simp add: word_le_nat_alt word_less_nat_alt)
  qed (use Suc.prems(2,3) next_tgid_post_retry [OF law f] in blast)+
  show ?case
    unfolding next_tgid_retry.simps
    by (rule owns_find_ge_pid)
      (auto intro!: owns_intros retry Suc.prems(2,3) next_tgid_post_null next_tgid_post_found [OF law]
        simp: kernel_defs intro: tgid_gap_no_leader)
qed

lemma next_tgid_spec:
  assumes "find_ge_law K pm" "unat pm - unat tgid < n"
    and d: "d' = (if task = NULL then d else add_mset (RTask task) d)"
    and "\<And>t. next_tgid_post K pm tgid (t, NULL) \<Longrightarrow> Q (Some (t, NULL)) d \<sigma>"
    and "\<And>t task. next_tgid_post K pm tgid (t, task) \<Longrightarrow> 0 < task \<Longrightarrow>
      Q (Some (t, task)) (add_mset (RTask task) d) \<sigma>"
  shows "owns d' \<sigma> (next_tgid K ns n (tgid, task)) Q"
  unfolding next_tgid_def d
  by (auto intro!: owns_intros next_tgid_retry_spec [OF assms(1,2)] assms(4,5) simp: kernel_defs)

text \<open>
  The positions of \<open>/proc\<close>: the static entry, then process \<open>n\<close> at position
  \<open>n + TGID_OFFSET\<close>.
\<close>

definition pid_slot :: "int \<Rightarrow> string" where
  "pid_slot pos = (if pos = 256 then ''self'' else fmt_d (s32 (pos - 257)))"

text \<open>Where a read may stop: at a process that the caller refuses, or at the end.\<close>

definition pid_stop :: "kenv \<Rightarrow> u32 \<Rightarrow> int \<Rightarrow> bool" where
  "pid_stop K pm pos \<longleftrightarrow> pos \<le> uint pm + 257 \<and> (refuses K (pid_slot pos) pos \<or> pos = uint pm + 257)"

definition pid_gap :: "kenv \<Rightarrow> int \<Rightarrow> bool" where
  "pid_gap K pos \<longleftrightarrow> 257 \<le> pos \<and> tgid_gap K (pos - 257)"

lemma TGID_OFFSET_eq [simp]: "TGID_OFFSET = 257"
  by (simp add: TGID_OFFSET_def ARRAY_SIZE_def proc_base_stuff_def)

lemma uint_offset:
  assumes "find_ge_law K pm" "t \<le> pm"
  shows "uint (t + 257) = uint t + 257"
proof -
  have "unat t + 257 < 2 ^ 32"
    using assms by (simp add: find_ge_law_def word_le_nat_alt)
  then have "unat (t + 257) = unat t + 257" using unat_add_lem [of t 257] by simp
  then have "int (unat (t + 257)) = int (unat t + 257)" by (rule arg_cong)
  then show ?thesis by simp
qed

text \<open>The store with the file position set.\<close>

definition at_pos :: "ptr \<Rightarrow> int \<Rightarrow> store \<Rightarrow> store" where
  "at_pos filp pos \<sigma> = \<sigma>\<lparr>filps := (filps \<sigma>)(filp := (filps \<sigma> filp)\<lparr>f_pos := pos\<rparr>)\<rparr>"

lemma at_pos_simps [simp]:
  "f_pos (filps (at_pos filp pos \<sigma>) filp) = pos" "at_pos filp p (at_pos filp q \<sigma>) = at_pos filp p \<sigma>"
  "dcache_ok K (at_pos filp pos \<sigma>) = dcache_ok K \<sigma>"
  "honeypot_hooks (at_pos filp pos \<sigma>) = honeypot_hooks \<sigma>"
  by (simp_all add: at_pos_def)

lemma at_pos_id: "f_pos (filps \<sigma> filp) = pos \<Longrightarrow> at_pos filp pos \<sigma> = \<sigma>"
  by (auto simp: at_pos_def)

lemma scanned_jump:
  assumes s: "scanned K filp slot gap \<sigma> \<sigma>'" and q: "f_pos (filps \<sigma>' filp) \<le> q"
    and g: "\<And>i. f_pos (filps \<sigma>' filp) \<le> i \<Longrightarrow> i < q \<Longrightarrow> gap i"
  shows "scanned K filp slot gap \<sigma> (at_pos filp q \<sigma>')"
proof -
  have 1: "dcache_ok K \<sigma>'" using s by (rule scanned_dcache)
  have "scanned K filp slot gap \<sigma>' (at_pos filp q \<sigma>')"
    unfolding scanned_def at_pos_def using q g 1
    by (auto simp: read_frame_refl intro!: exI [where x = q])
  then show ?thesis using s scanned_trans by blast
qed

lemma pid_slot_name:
  "pid_slot (uint t + 257) = snprintf_buf PROC_NUMBUF (fmt_d (s32 (uint (t :: u32))))"
proof -
  have "uint t + 257 \<noteq> 256" using uint_nonnegative [of t] by linarith
  then show ?thesis
    unfolding pid_slot_def using s32_range [of "uint t"] by (simp add: numbuf_fmt_d)
qed

text \<open>An accepted entry, as the loop then sees the position: on the next number.\<close>

lemma fill_post_advance:
  assumes "fill_post K filp (pid_slot pos) (at_pos filp pos \<sigma>) r \<sigma>'" "0 \<le> r" "0 \<le> pos" "pos < 2 ^ 62"
  shows "scanned K filp pid_slot gap (at_pos filp pos \<sigma>) (at_pos filp (pos + 1) \<sigma>')"
proof -
  have f: "filps \<sigma>' = filps (at_pos filp pos \<sigma>)" using assms(1) by (simp add: fill_post_def)
  then have "at_pos filp (pos + 1) \<sigma>' = \<sigma>'\<lparr>filps := (filps \<sigma>')(filp :=
      (filps \<sigma>' filp)\<lparr>f_pos := s64 (f_pos (filps \<sigma>' filp) + 1)\<rparr>)\<rparr>"
    using assms(3,4) by (simp add: at_pos_def)
  then show ?thesis
    using fill_post_scanned [where slot = pid_slot and gap = gap and \<sigma> = "at_pos filp pos \<sigma>", of K filp r \<sigma>'] assms
    by (simp add: pos_ok_def)
qed

lemma set_f_pos_spec [owns_intros]:
  "Q () d (at_pos filp pos \<sigma>) \<Longrightarrow> owns d \<sigma> (set_f_pos filp pos) Q"
  unfolding set_f_pos_def at_pos_def by (auto intro!: owns_intros simp: kernel_defs)

text \<open>Calling the hook changes nothing the directory read depends on.\<close>

lemma call_readdir_hook_spec [owns_intros]: "Q () d \<sigma> \<Longrightarrow> owns d \<sigma> call_readdir_hook Q"
  unfolding call_readdir_hook_def dummy_in_proc_pid_readdir_def by (auto intro!: owns_intros simp: kernel_defs)

lemma proc_pid_fill_cache_spec:
  assumes "d_add_law K" "dcache_ok K \<sigma>"
    and "\<And>r \<sigma>'. fill_post K filp (pid_slot (uint t + 257)) \<sigma> r \<sigma>' \<Longrightarrow> Q r d \<sigma>'"
  shows "owns d \<sigma> (proc_pid_fill_cache K c filp (t, task)) Q"
  unfolding proc_pid_fill_cache_def using assms
  by (auto intro!: tgid_dir.fill_cache_spec simp: pid_slot_name)

lemma pid_jump:
  assumes "scanned K filp pid_slot (pid_gap K) \<sigma>0 (at_pos filp (uint t + 257) \<sigma>)" "t \<le> t'"
    and gap: "\<And>i. uint t \<le> i \<Longrightarrow> i < uint t' \<Longrightarrow> tgid_gap K i"
  shows "scanned K filp pid_slot (pid_gap K) \<sigma>0 (at_pos filp (uint t' + 257) \<sigma>)"
proof -
  have "pid_gap K i" if "uint t + 257 \<le> i" "i < uint t' + 257" for i
  proof -
    have "257 \<le> i" using that(1) uint_nonnegative [of t] by linarith
    then show ?thesis using that gap [of "i - 257"] by (simp add: pid_gap_def)
  qed
  then show ?thesis
    using scanned_jump [OF assms(1), of "uint t' + 257"] assms(2) by (simp add: word_le_def)
qed

text \<open>After an entry that was taken, the iterator moves on and the loop goes on from there.\<close>

lemma pid_loop_advance:
  assumes law: "find_ge_law K pm" and n: "unat pm - unat t < Suc n" and tp: "t < pm" and task: "0 < task"
    and s0: "scanned K filp pid_slot (pid_gap K) \<sigma>0 (at_pos filp (uint t + 257) \<sigma>)"
    and f: "fill_post K filp (pid_slot (uint t + 257)) (at_pos filp (uint t + 257) \<sigma>) r \<sigma>'" "0 \<le> r"
    and IH: "\<And>t' task'. scanned K filp pid_slot (pid_gap K) \<sigma>0 (at_pos filp (uint t' + 257) \<sigma>') \<Longrightarrow>
      unat pm - unat t' < n \<Longrightarrow> t' \<le> pm \<Longrightarrow> (task' = NULL \<Longrightarrow> \<forall>i. uint t' \<le> i \<longrightarrow> tgid_gap K i) \<Longrightarrow>
      (task' \<noteq> NULL \<Longrightarrow> t' < pm) \<Longrightarrow>
      owns (if task' = NULL then d else add_mset (RTask task') d) \<sigma>' (pid_readdir_loop K c pm filp ns n (t', task')) Q"
  shows "owns (add_mset (RTask task) d) \<sigma>' (next_tgid K ns n (t + 1, task)) (\<lambda>it d' \<sigma>'. owns d' \<sigma>'
    (case it of None \<Rightarrow> return None | Some it \<Rightarrow> pid_readdir_loop K c pm filp ns n it) Q)"
proof -
  have pos: "0 \<le> uint t + 257" "uint t + 257 < 2 ^ 62" using uint_bounded [of t] uint_nonnegative [of t] by auto
  have "scanned K filp pid_slot (pid_gap K) \<sigma>0 (at_pos filp (uint t + 257 + 1) \<sigma>')"
    using scanned_trans [OF s0 fill_post_advance [OF f pos]] .
  then have s: "scanned K filp pid_slot (pid_gap K) \<sigma>0 (at_pos filp (uint (t + 1) + 257) \<sigma>')"
    by (simp add: uint_inc [OF tp])
  have t1: "t + 1 \<le> pm" using uint_inc [OF tp] tp by (simp add: word_le_def word_less_def)
  have fuel: "unat pm - unat (t + 1) < n" using n unat_inc [OF tp] tp by (simp add: word_less_nat_alt)
  have rec: "owns (if snd it = NULL then d else add_mset (RTask (snd it)) d) \<sigma>'
      (pid_readdir_loop K c pm filp ns n it) Q" if it: "next_tgid_post K pm (t + 1) it" for it
  proof -
    obtain t' task' where eq: "it = (t', task')" by fastforce
    have 1: "t + 1 \<le> t'" "t' \<le> pm" using it t1 by (auto simp: eq next_tgid_post_def)
    then have "unat pm - unat t' < n" using fuel by (simp add: word_le_nat_alt)
    moreover have "scanned K filp pid_slot (pid_gap K) \<sigma>0 (at_pos filp (uint t' + 257) \<sigma>')"
      by (rule pid_jump [OF s 1(1)]) (use it in \<open>auto simp: eq next_tgid_post_def\<close>)
    ultimately show ?thesis
      unfolding eq snd_conv using it 1(2) by (intro IH) (auto simp: eq next_tgid_post_def split: if_splits)
  qed
  show ?thesis
    using task by (auto intro!: owns_intros next_tgid_spec [OF law fuel]) (drule rec, simp)+
qed

lemma pid_readdir_loop_spec:
  assumes laws: "d_add_law K" "find_ge_law K pm"
    and "dcache_ok K \<sigma>" "scanned K filp pid_slot (pid_gap K) \<sigma>0 (at_pos filp (uint t + 257) \<sigma>)"
      "unat pm - unat t < n" "t \<le> pm"
      "task = NULL \<Longrightarrow> \<forall>i. uint t \<le> i \<longrightarrow> tgid_gap K i" "task \<noteq> NULL \<Longrightarrow> t < pm"
      "d' = (if task = NULL then d else add_mset (RTask task) d)"
    and Q: "\<And>\<sigma>'. scanned K filp pid_slot (pid_gap K) \<sigma>0 \<sigma>' \<Longrightarrow>
      pid_stop K pm (f_pos (filps \<sigma>' filp)) \<Longrightarrow> Q (Some ()) d \<sigma>'"
  shows "owns d' \<sigma> (pid_readdir_loop K c pm filp ns n (t, task)) Q"
  using assms(3-9)
proof (induction n arbitrary: \<sigma> t task d')
  case 0
  then show ?case by simp
next
  case (Suc n)
  note off = uint_offset [OF laws(2) Suc.prems(4)] uint_offset [OF laws(2) order_refl]
  let ?pos = "uint t + 257"
  show ?case
  proof (cases "task = 0")
    case True
    have "scanned K filp pid_slot (pid_gap K) \<sigma>0 (at_pos filp (uint pm + 257) \<sigma>)"
      by (rule pid_jump [OF Suc.prems(2,4)]) (use Suc.prems(5) True in blast)
    then show ?thesis
      using True Suc.prems(7) off by (auto intro!: owns_intros Q simp: pid_stop_def)
  next
    case False
    then have tp: "t < pm" "0 < task" using Suc.prems(6) by simp_all
    have refused: "Q (Some ()) d \<sigma>'"
      if "fill_post K filp (pid_slot ?pos) (at_pos filp ?pos \<sigma>) r \<sigma>'" "r < 0" for r \<sigma>'
      using fill_post_scanned_refused [OF that] scanned_trans [OF Suc.prems(2)] that tp(1)
      by (intro Q) (auto simp: pid_stop_def fill_post_def word_less_def)
    have step: "owns (add_mset (RTask task) d) \<sigma>' (next_tgid K ns n (t + 1, task)) (\<lambda>it d' \<sigma>'. owns d' \<sigma>'
        (case it of None \<Rightarrow> return None | Some it \<Rightarrow> pid_readdir_loop K c pm filp ns n it) Q)"
      if "fill_post K filp (pid_slot ?pos) (at_pos filp ?pos \<sigma>) r \<sigma>'" "\<not> r < 0" for r \<sigma>'
      using that by (intro pid_loop_advance [OF laws(2) Suc.prems(3) tp Suc.prems(2) that(1)] Suc.IH)
        (auto simp: fill_post_def read_frame_def)
    show ?thesis
      using False off Suc.prems(1,7) laws(1)
      by (auto intro!: owns_intros proc_pid_fill_cache_spec step simp: kernel_defs)
        (blast intro: refused)+
  qed
qed

lemma base_entry: "\<exists>e. proc_base_stuff = [e] \<and> pe_name e = ''self''"
  by (simp add: proc_base_stuff_def entry_defs)

text \<open>The static entry: from position 256 it is delivered or refused, behind it there is nothing to do.\<close>

lemma base_readdir_loop_spec:
  assumes "d_add_law K" "dcache_ok K \<sigma>" "f_pos (filps \<sigma> filp) = int p" "256 \<le> p" "p < 2 ^ 31"
    and "\<And>\<sigma>'. scanned K filp pid_slot gap \<sigma> \<sigma>' \<Longrightarrow> f_pos (filps \<sigma>' filp) = int (max 257 p) \<Longrightarrow> Q True d \<sigma>'"
    and "\<And>\<sigma>'. scanned K filp pid_slot gap \<sigma> \<sigma>' \<Longrightarrow> pid_stop K pm (f_pos (filps \<sigma>' filp)) \<Longrightarrow> Q False d \<sigma>'"
  shows "owns d \<sigma> (base_readdir_loop K filp reaper (drop (p - 256) proc_base_stuff)) Q"
proof (cases "p = 256")
  case True
  obtain e where e: "proc_base_stuff = [e]" "pe_name e = ''self''" using base_entry by blast
  let ?inc = "\<lambda>\<sigma>'. \<sigma>'\<lparr>filps := (filps \<sigma>')(filp := (filps \<sigma>' filp)\<lparr>f_pos := s64 (f_pos (filps \<sigma>' filp) + 1)\<rparr>)\<rparr>"
  have pos: "pos_ok filp \<sigma>" using assms(3) True by (simp add: pos_ok_def)
  have slot: "pid_slot (f_pos (filps \<sigma> filp)) = ''self''" using assms(3) True by (simp add: pid_slot_def)
  have acc: "Q True d (?inc \<sigma>')" if "fill_post K filp ''self'' \<sigma> r \<sigma>'" "0 \<le> r" for r \<sigma>'
  proof (rule assms(6))
    show "scanned K filp pid_slot gap \<sigma> (?inc \<sigma>')"
      using that pos slot by (intro fill_post_scanned) simp_all
    show "f_pos (filps (?inc \<sigma>') filp) = int (max 257 p)"
      using that(1) assms(3) True by (simp add: fill_post_def)
  qed
  have refd: "Q False d \<sigma>'" if "fill_post K filp ''self'' \<sigma> r \<sigma>'" "r < 0" for r \<sigma>'
    using fill_post_scanned_refused [OF that] that slot assms(3) True uint_nonnegative [of pm]
    by (intro assms(7)) (auto simp: pid_stop_def fill_post_def)
  show ?thesis
    using assms(1,2) True
    by (auto intro!: owns_intros base.fill_cache_spec acc simp: e proc_base_fill_cache_def kernel_defs)
      (blast intro: refd)+
next
  case False
  obtain e where e: "proc_base_stuff = [e]" using base_entry by blast
  have "1 \<le> p - 256" using False assms(4) by simp
  then have "drop (p - 256) proc_base_stuff = []" by (simp add: e)
  moreover have "Q True d \<sigma>"
    using False assms(2-4) by (intro assms(6) scanned_refl) auto
  ultimately show ?thesis by (auto intro!: owns_intros)
qed

lemma find_ge_law_pm:
  assumes "find_ge_law K pm"
  shows "uint pm < 2147482648"
proof -
  have "unat pm < 2147482648" using assms by (simp add: find_ge_law_def)
  then have "int (unat pm) < 2147482648" by linarith
  then show ?thesis by simp
qed

lemma proc_pid_readdir_spec:
  assumes laws: "d_add_law K" "find_ge_law K pm" "dcache_ok K \<sigma>"
    and p: "f_pos (filps \<sigma> filp) = int p" "256 \<le> p" "int p \<le> uint pm + 257"
    and fuel: "unat pm < n"
    and null: "task_gone K (dir_of \<sigma> filp) \<Longrightarrow> Q (Some 0) d \<sigma>"
    and Q: "\<And>\<sigma>'. scanned K filp pid_slot (pid_gap K) \<sigma> \<sigma>' \<Longrightarrow>
      pid_stop K pm (f_pos (filps \<sigma>' filp)) \<Longrightarrow> Q (Some 0) d \<sigma>'"
  shows "owns d \<sigma> (proc_pid_readdir K c pm n filp) Q"
proof -
  note pm = find_ge_law_pm [OF laws(2)]
  have nr: "unat (of_nat p - 256 :: u32) = p - 256"
    using u32_of_int [of "int p - 256"] p(2,3) pm by (simp add: nat_diff_distrib)
  have start: "uint (word_of_int q - 257 :: u32) = q - 257" if "257 \<le> q" "q \<le> uint pm + 257" for q
    using that pm uint_word_of_int_eq [of "q - 257", where 'a = 32] by (simp add: take_bit_int_eq_self)
  let ?q = "int (max 257 p)"
  let ?t = "word_of_int ?q - 257 :: u32"
  have "?q \<le> uint pm + 257" using p(3) uint_nonnegative [of pm] by linarith
  then have u: "uint ?t = ?q - 257" by (intro start) simp_all
  have t: "?t \<le> pm" unfolding word_le_def u using \<open>?q \<le> uint pm + 257\<close> by simp
  have f: "unat pm - x < n" for x using fuel by simp
  have run: "owns (if snd it = NULL then e else add_mset (RTask (snd it)) e) \<sigma>1
      (pid_readdir_loop K c pm filp ns n it) R"
    if s: "scanned K filp pid_slot (pid_gap K) \<sigma> \<sigma>1" "f_pos (filps \<sigma>1 filp) = ?q"
      and it: "next_tgid_post K pm ?t it"
      and R: "\<And>\<sigma>'. scanned K filp pid_slot (pid_gap K) \<sigma> \<sigma>' \<Longrightarrow>
        pid_stop K pm (f_pos (filps \<sigma>' filp)) \<Longrightarrow> R (Some ()) e \<sigma>'" for \<sigma>1 it ns e R
  proof -
    obtain t' task' where eq: "it = (t', task')" by fastforce
    have t': "?t \<le> t'" "t' \<le> pm" using it t by (auto simp: eq next_tgid_post_def)
    have "at_pos filp (uint ?t + 257) \<sigma>1 = \<sigma>1" unfolding u using s(2) by (simp add: at_pos_id)
    then have "scanned K filp pid_slot (pid_gap K) \<sigma> (at_pos filp (uint t' + 257) \<sigma>1)"
      using s(1) it by (intro pid_jump [OF _ t'(1)]) (auto simp: eq next_tgid_post_def)
    then show ?thesis
      unfolding eq snd_conv using it t' fuel scanned_dcache [OF s(1)] R
      by (intro pid_readdir_loop_spec [OF laws(1,2)])
        (auto simp: eq next_tgid_post_def split: if_splits)
  qed
  have run0: "owns e \<sigma>1 (pid_readdir_loop K c pm filp ns n (t', 0)) R"
    if "scanned K filp pid_slot (pid_gap K) \<sigma> \<sigma>1" "f_pos (filps \<sigma>1 filp) = ?q"
      "next_tgid_post K pm ?t (t', 0)"
      "\<And>\<sigma>'. scanned K filp pid_slot (pid_gap K) \<sigma> \<sigma>' \<Longrightarrow>
        pid_stop K pm (f_pos (filps \<sigma>' filp)) \<Longrightarrow> R (Some ()) e \<sigma>'" for \<sigma>1 t' ns e R
    using run [where R = R and e = e, OF that] by simp
  have run1: "owns (add_mset (RTask task) e) \<sigma>1 (pid_readdir_loop K c pm filp ns n (t', task)) R"
    if "0 < task" "scanned K filp pid_slot (pid_gap K) \<sigma> \<sigma>1" "f_pos (filps \<sigma>1 filp) = ?q"
      "next_tgid_post K pm ?t (t', task)"
      "\<And>\<sigma>'. scanned K filp pid_slot (pid_gap K) \<sigma> \<sigma>' \<Longrightarrow>
        pid_stop K pm (f_pos (filps \<sigma>' filp)) \<Longrightarrow> R (Some ()) e \<sigma>'" for \<sigma>1 t' task ns e R
    using run [where R = R and e = e, OF that(2-)] that(1) by simp
  have p31: "p < 2 ^ 31" using p(3) pm by simp
  show ?thesis
    unfolding proc_pid_readdir_def using p(2) laws p31
    by (auto intro!: owns_intros base_readdir_loop_spec [where p = p and pm = pm]
        next_tgid_spec [where task = 0, OF laws(2) _ refl, simplified] f run0 run1 null [OF goneI] Q
        simp: kernel_defs p(1) nr)
qed

section \<open>Properties\<close>

text \<open>
  Property C1. Reading \<open>/proc\<close>'s processes from position \<open>p\<close>, with a pid allocator
  that keeps its contract: the two loops end within \<open>PID_MAX_LIMIT\<close> + 1 steps; the entries
  delivered have strictly increasing positions, process \<open>n\<close> at \<open>n + 257\<close> under its
  decimal name; a number is passed over only if it was found unused or not a group leader's; and the
  read stops only at an entry that is refused at its position, which is kept for the next call, or
  at the end.
  Task references and the RCU lock are balanced, also when an entry is refused in the middle. The
  installed honeypot hook is arbitrary: it cannot hide an entry.
\<close>

theorem proc_pid_readdir_correct:
  assumes "d_add_law K" "find_ge_law K pm" "dcache_ok K \<sigma>"
    "f_pos (filps \<sigma> filp) = int p" "256 \<le> p" "int p \<le> uint pm + 257" "unat pm < n"
  shows "owns {#} \<sigma> (proc_pid_readdir K c pm n filp)
    (\<lambda>r d \<sigma>'. d = {#} \<and> r = Some 0 \<and>
       (\<sigma>' = \<sigma> \<and> task_gone K (dir_of \<sigma> filp) \<or>
        scanned K filp pid_slot (pid_gap K) \<sigma> \<sigma>' \<and>
        pid_stop K pm (f_pos (filps \<sigma>' filp))))"
  using assms by (intro proc_pid_readdir_spec) auto

text \<open>A kernel with one process, number 1, whose directory is read from the start.\<close>

definition ex_pids :: kenv where
  "ex_pids = (ex_kernel 7 1)\<lparr>ans_ptr := \<lambda>_ q.
     (case q of TaskQ (Q_find_ge_pid nr ns) \<Rightarrow> if nr \<le> 1 then 7 else NULL | _ \<Rightarrow> 7)\<rparr>"

lemma ex_pids_laws [simp]:
  "d_add_law ex_pids" "find_ge_law ex_pids 32768" "dcache_ok ex_pids ex_store"
  by (auto simp: ex_pids_def ex_kernel_def ex_store_def at_pos_def d_add_law_def dcache_ok_def find_ge_law_def
      may_find_ge_def word_le_def split: if_splits)

theorem proc_pid_readdir_correct_witness:
  "d_add_law ex_pids \<and> find_ge_law ex_pids 32768 \<and> dcache_ok ex_pids (at_pos 1 256 ex_store) \<and>
   f_pos (filps (at_pos 1 256 ex_store) 1) = int 256 \<and> unat (32768 :: u32) < 40000 \<and>
   fst (run_state (proc_pid_readdir ex_pids (\<lambda>_. True) 32768 40000 1) \<lparr>trace = [], st = at_pos 1 256 ex_store\<rparr>) = Some 0"
  using owns_run [OF proc_pid_readdir_correct [of ex_pids 32768 "at_pos 1 256 ex_store" 1 256 40000 "\<lambda>_. True"],
      of "\<lparr>trace = [], st = at_pos 1 256 ex_store\<rparr>"]
  by simp

text \<open>The directory of processes satisfies the contract of a scanning reader.\<close>

interpretation pid_reader: scan_reader K "d_add_law K \<and> find_ge_law K pm \<and> unat pm < n" "proc_pid_readdir K c pm n"
    "Some 0" "Some 0" pid_slot "\<lambda>_. pid_gap K" "\<lambda>_. pid_stop K pm" "\<lambda>p. 256 \<le> p \<and> p \<le> uint pm + 257" for K c pm n
proof
  fix \<sigma> filp i d and Q :: "int option \<Rightarrow> res multiset \<Rightarrow> store \<Rightarrow> bool"
  assume laws: "d_add_law K \<and> find_ge_law K pm \<and> unat pm < n" "dcache_ok K \<sigma>" and i: "i = dir_of \<sigma> filp"
    and p: "256 \<le> f_pos (filps \<sigma> filp) \<and> f_pos (filps \<sigma> filp) \<le> uint pm + 257"
    and null: "task_gone K i \<Longrightarrow> Q (Some 0) d \<sigma>"
    and Q: "\<And>\<sigma>'. scanned K filp pid_slot (pid_gap K) \<sigma> \<sigma>' \<Longrightarrow> pid_stop K pm (f_pos (filps \<sigma>' filp)) \<Longrightarrow>
      256 \<le> f_pos (filps \<sigma>' filp) \<and> f_pos (filps \<sigma>' filp) \<le> uint pm + 257 \<Longrightarrow> Q (Some 0) d \<sigma>'"
  have "256 \<le> f_pos (filps \<sigma>' filp)" if "scanned K filp pid_slot (pid_gap K) \<sigma> \<sigma>'" for \<sigma>'
    using that p by (auto simp: scanned_def)
  then show "owns d \<sigma> (proc_pid_readdir K c pm n filp) Q"
    using laws p null i Q
    by (intro proc_pid_readdir_spec [where p = "nat (f_pos (filps \<sigma> filp))"]) (auto simp: pid_stop_def)
qed

text \<open>
  The processes \<open>L\<close> are group leaders throughout: \<open>find_ge_pid\<close> never misses one of them. Others may
  come and go meanwhile.
\<close>

definition leaders_stay :: "kenv \<Rightarrow> int set \<Rightarrow> bool" where
  "leaders_stay K L \<longleftrightarrow>
     (\<forall>nr ns pid n. may_find_ge K nr ns pid n \<longrightarrow>
        (\<forall>i \<in> L. uint nr \<le> i \<longrightarrow> pid \<noteq> NULL \<and> n \<le> i) \<and>
        (n \<in> L \<longrightarrow> (\<forall>t. may_ptr K (TaskQ (Q_pid_task pid)) t \<longrightarrow>
           t \<noteq> NULL \<and> \<not> may_int K (TaskQ (Q_has_group_leader_pid t)) 0)))"

lemma leaders_not_gap: "leaders_stay K L \<Longrightarrow> i \<in> L \<Longrightarrow> \<not> tgid_gap K i"
  unfolding leaders_stay_def tgid_gap_def by (metis linorder_not_less)

lemma pid_slot_inj:
  assumes "find_ge_law K pm"
  shows "inj_on pid_slot {256 ..< uint pm + 257}"
proof (rule inj_onI)
  fix p q
  assume "p \<in> {256 ..< uint pm + 257}" "q \<in> {256 ..< uint pm + 257}" "pid_slot p = pid_slot q"
  then show "p = q"
    using find_ge_law_pm [OF assms] by (auto simp: pid_slot_def fmt_d_inj fmt_d_digits is_digit_def split: if_splits)
qed

text \<open>
  What a reader of \<open>/proc\<close> has after \<open>k\<close> calls, all of which end with 0: names that a lookup takes for the number of their
  position, beside \<open>self\<close>; every process of \<open>L\<close> before the file position, exactly once; and
  everything up to \<open>PID_MAX_LIMIT\<close>, unless the next entry is refused.
\<close>

definition pids_delivered :: "kenv \<Rightarrow> int set \<Rightarrow> u32 \<Rightarrow> ptr \<Rightarrow> nat \<Rightarrow> int option list \<Rightarrow> store \<Rightarrow> store \<Rightarrow> bool" where
  "pids_delivered K L pm filp k rs \<sigma> \<sigma>' \<longleftrightarrow>
     (\<exists>new. dirents \<sigma>' = dirents \<sigma> @ new \<and>
        (\<forall>e \<in> set new. de_name e = ''self'' \<or> fd_named (de_name e) = Some (word_of_int (de_off e - 257))) \<and>
        (\<forall>i \<in> L. 0 \<le> i \<longrightarrow> i + 257 < f_pos (filps \<sigma>' filp) \<longrightarrow> once (fmt_d i) new)) \<and>
     results {Some 0} (\<lambda>_. pid_stop K pm (f_pos (filps \<sigma>' filp))) k rs"

lemma pids_deliveredI:
  assumes s: "scanned K filp pid_slot (pid_gap K) \<sigma> \<sigma>'" and p: "f_pos (filps \<sigma> filp) = 256"
    "f_pos (filps \<sigma>' filp) \<le> uint pm + 257" and laws: "find_ge_law K pm" "leaders_stay K L"
    and k: "results {Some 0} (\<lambda>_. pid_stop K pm (f_pos (filps \<sigma>' filp))) k rs"
  shows "pids_delivered K L pm filp k rs \<sigma> \<sigma>'"
proof -
  note pm = find_ge_law_pm [OF laws(1)]
  have "inj_on pid_slot {f_pos (filps \<sigma> filp) ..< f_pos (filps \<sigma>' filp)}"
    by (rule inj_on_subset [OF pid_slot_inj [OF laws(1)]]) (use p in auto)
  then obtain new where new: "dirents \<sigma>' = dirents \<sigma> @ new"
      "\<forall>e \<in> set new. 256 \<le> de_off e \<and> de_off e < f_pos (filps \<sigma>' filp) \<and> de_name e = pid_slot (de_off e)"
      "\<forall>j. 256 \<le> j \<longrightarrow> j < f_pos (filps \<sigma>' filp) \<longrightarrow> \<not> pid_gap K j \<longrightarrow> once (pid_slot j) new"
    using scanned_once [OF s] p(1) by auto
  have "de_name e = ''self'' \<or> fd_named (de_name e) = Some (word_of_int (de_off e - 257))" if "e \<in> set new" for e
    using bspec [OF new(2) that] p(2) pm fd_named_fmt_d [of "de_off e - 257"] by (auto simp: pid_slot_def)
  moreover have "once (fmt_d i) new" if "i \<in> L" "0 \<le> i" "i + 257 < f_pos (filps \<sigma>' filp)" for i
    using new(3) [rule_format, of "i + 257"] leaders_not_gap [OF laws(2) that(1)] that p(2) pm
    by (simp add: pid_gap_def pid_slot_def)
  ultimately show ?thesis unfolding pids_delivered_def using new(1) k by blast
qed

lemma pid_read_times_spec:
  assumes "d_add_law K" "find_ge_law K pm" "dcache_ok K \<sigma>"
    "f_pos (filps \<sigma> filp) = 256" "unat pm < n" "pinned K (f_dentry (filps \<sigma> filp))"
    "leaders_stay K L" "\<not> task_gone K (dir_of \<sigma> filp)"
    and Q: "\<And>rs \<sigma>'. pids_delivered K L pm filp k rs \<sigma> \<sigma>' \<Longrightarrow> Q rs d \<sigma>'"
  shows "owns d \<sigma> (read_times (proc_pid_readdir K c pm n) filp k) Q"
proof (rule pid_reader.read_times_scanned [OF _ scanned_refl [OF assms(3)] _ assms(6) refl])
  show "256 \<le> f_pos (filps \<sigma> filp) \<and> f_pos (filps \<sigma> filp) \<le> uint pm + 257"
    using assms(4) uint_nonnegative [of pm] by linarith
qed (use assms in \<open>auto intro!: Q pids_deliveredI simp: pid_reader.stopped_def results_def\<close>)

text \<open>
  Property C8. Completeness: \<open>/proc\<close> read from its first process entry in any number of calls, each of
  which may stop early, while processes come and go. Every process that is a group leader throughout,
  with a number before the file position, is delivered exactly once under its decimal name; a lookup of a
  delivered name asks for the process that was listed; and while the reaper is there, each call gets as
  far as \<open>PID_MAX_LIMIT\<close> unless the next entry is refused. No installed hook changes this.
\<close>

theorem proc_pid_readdir_complete:
  assumes "d_add_law K" "find_ge_law K pm" "dcache_ok K \<sigma>"
    "f_pos (filps \<sigma> filp) = 256" "unat pm < n" "pinned K (f_dentry (filps \<sigma> filp))"
    "leaders_stay K L" "\<not> task_gone K (dir_of \<sigma> filp)"
  shows "owns {#} \<sigma> (read_times (proc_pid_readdir K c pm n) filp k)
    (\<lambda>rs d \<sigma>'. d = {#} \<and> pids_delivered K L pm filp k rs \<sigma> \<sigma>')"
  using assms by (intro pid_read_times_spec) auto

theorem proc_pid_readdir_complete_witness:
  "leaders_stay ex_pids {1} \<and>
   (\<exists>new. dirents (st (snd (run_state (read_times (proc_pid_readdir ex_pids (\<lambda>_. True) 32768 40000) 1 2)
        \<lparr>trace = [], st = at_pos 1 256 ex_store\<rparr>))) = new \<and> once ''1'' new)"
proof -
  have 1: "leaders_stay ex_pids {1}" "\<not> refuses ex_pids name pos" "pinned ex_pids 1"
    "\<not> task_gone ex_pids i" for i name pos
    by (auto simp: leaders_stay_def refuses_def task_gone_def ex_pids_def ex_kernel_def may_find_ge_def may_ptr_def
        may_int_def word_le_def pinned_def split: if_splits)
  have z: "fmt_d 1 = ''1''" by code_simp
  have d: "dirents (at_pos 1 256 ex_store) = []" "f_dentry (filps (at_pos 1 256 ex_store) 1) = 1"
    by (simp_all add: at_pos_def ex_store_def)
  have "once ''1'' (dirents \<sigma>')"
    if "pids_delivered ex_pids {1} 32768 1 2 rs (at_pos 1 256 ex_store) \<sigma>'" for rs \<sigma>'
    using that 1(2) z d(1) by (simp add: pids_delivered_def pid_stop_def results_def)
  then show ?thesis
    using owns_run [OF proc_pid_readdir_complete [of ex_pids 32768 "at_pos 1 256 ex_store" 1 40000 "{1}" "\<lambda>_. True" 2],
        of "\<lparr>trace = [], st = at_pos 1 256 ex_store\<rparr>"] 1 d(2)
    by auto
qed

end
