(* ===== verification/Task_Readdir.thy ===== *)
theory Task_Readdir
  imports Pid_Readdir
begin

text \<open>
  The threads of a process: \<open>get_nr_threads\<close>, \<open>first_tid\<close>, \<open>next_tid\<close>,
  \<open>proc_task_readdir\<close> and \<open>proc_task_getattr\<close>. Thread directories have no fixed
  positions: the reader resumes from the thread number cached in \<open>f_version\<close>, or by walking the
  thread list. The loop runs as long as the thread list goes on; it takes fuel.
\<close>

section \<open>Operations\<close>

definition get_nr_threads :: "kenv \<Rightarrow> ptr \<Rightarrow> int k" where
  "get_nr_threads K tsk = do {
     locked \<leftarrow> lock_task_sighand K tsk;
     (if locked then do {
        count \<leftarrow> signal_count K tsk;
        unlock_task_sighand tsk;
        return count
      } else return 0)
   }"

text \<open>\<open>for (pos = leader; nr > 0; --nr)\<close>; \<open>NULL\<close> when the walk comes back to the leader.\<close>

fun walk_threads :: "kenv \<Rightarrow> ptr \<Rightarrow> ptr \<Rightarrow> nat \<Rightarrow> ptr k" where
  "walk_threads K leader pos 0 = return pos"
| "walk_threads K leader pos (Suc nr) = do {
     pos \<leftarrow> next_thread K pos;
     (if pos = leader then return NULL else walk_threads K leader pos nr)
   }"

text \<open>The attempt to start with the cached thread.\<close>

definition cached_tid :: "kenv \<Rightarrow> ptr \<Rightarrow> int \<Rightarrow> int \<Rightarrow> ptr \<Rightarrow> ptr k" where
  "cached_tid K leader tid nr ns =
     (if tid \<noteq> 0 \<and> nr > 0 then do {
        pos \<leftarrow> find_task_by_pid_ns K (word_of_int tid) ns;
        (if pos \<noteq> NULL then do {
           gl \<leftarrow> group_leader K pos;
           return (if gl = leader then pos else NULL)
         } else return NULL)
      } else return NULL)"

definition first_tid :: "kenv \<Rightarrow> ptr \<Rightarrow> int \<Rightarrow> int \<Rightarrow> ptr \<Rightarrow> ptr k" where
  "first_tid K leader tid nr ns = do {
     rcu_read_lock;
     pos \<leftarrow> cached_tid K leader tid nr ns;
     pos \<leftarrow> (if pos \<noteq> NULL then return pos
       else do {
         n \<leftarrow> (if nr \<noteq> 0 then get_nr_threads K leader else return 0);
         (if nr \<noteq> 0 \<and> nr \<ge> n then return NULL else walk_threads K leader leader (nat nr))
       });
     (if pos \<noteq> NULL then get_task_struct pos else return ());
     rcu_read_unlock;
     return pos
   }"

definition next_tid :: "kenv \<Rightarrow> ptr \<Rightarrow> ptr k" where
  "next_tid K start = do {
     rcu_read_lock;
     alive \<leftarrow> pid_alive K start;
     pos \<leftarrow> (if alive \<noteq> 0 then do {
         pos \<leftarrow> next_thread K start;
         tl \<leftarrow> thread_group_leader K pos;
         (if tl \<noteq> 0 then return NULL else do { get_task_struct pos; return pos })
       } else return NULL);
     rcu_read_unlock;
     put_task_struct start;
     return pos
   }"

definition proc_task_fill_cache :: "kenv \<Rightarrow> kconfig \<Rightarrow> ptr \<Rightarrow> ptr \<Rightarrow> int \<Rightarrow> int k" where
  "proc_task_fill_cache K c filp task tid =
     proc_fill_cache K filp (snprintf_buf PROC_NUMBUF (fmt_d tid)) (proc_task_instantiate K c) task"

definition set_f_version :: "ptr \<Rightarrow> u64 \<Rightarrow> unit k" where
  "set_f_version filp v = upd_filp filp (\<lambda>f. f\<lparr>f_version := v\<rparr>)"

fun task_readdir_loop :: "kenv \<Rightarrow> kconfig \<Rightarrow> ptr \<Rightarrow> ptr \<Rightarrow> nat \<Rightarrow> ptr \<Rightarrow> unit option k" where
  "task_readdir_loop K c filp ns 0 task = return None"
| "task_readdir_loop K c filp ns (Suc n) task =
     (if task = NULL then return (Some ())
      else do {
        tid \<leftarrow> task_pid_nr_ns K task ns;
        r \<leftarrow> proc_task_fill_cache K c filp task tid;
        (if r < 0 then do {
           set_f_version filp (word_of_int tid);
           put_task_struct task;
           return (Some ())
         } else do {
           task \<leftarrow> next_tid K task;
           f_pos_inc filp;
           task_readdir_loop K c filp ns n task
         })
      })"

text \<open>The leader of a live task, with a reference.\<close>

definition get_leader :: "kenv \<Rightarrow> ptr \<Rightarrow> ptr k" where
  "get_leader K task = do {
     rcu_read_lock;
     alive \<leftarrow> pid_alive K task;
     leader \<leftarrow> (if alive \<noteq> 0 then do {
         leader \<leftarrow> group_leader K task;
         get_task_struct leader;
         return leader
       } else return NULL);
     rcu_read_unlock;
     put_task_struct task;
     return leader
   }"

text \<open>The \<open>switch\<close> on the position; false if \<open>filldir\<close> refused.\<close>

definition task_dots :: "kenv \<Rightarrow> ptr \<Rightarrow> ptr \<Rightarrow> ptr \<Rightarrow> bool k" where
  "task_dots K filp dentry inode = do {
     f \<leftarrow> get_filp filp;
     let pos = (word_of_int (f_pos f) :: u32);
     ok \<leftarrow> (if pos = 0 then do {
         ino \<leftarrow> get_inode inode;
         fill_dot K filp ''.'' (f_pos f) (i_ino ino)
       } else return True);
     (if ok \<and> (pos = 0 \<or> pos = 1) then do {
        ino \<leftarrow> parent_ino K dentry;
        f \<leftarrow> get_filp filp;
        fill_dot K filp ''..'' (f_pos f) ino
      } else return ok)
   }"

definition proc_task_readdir :: "kenv \<Rightarrow> kconfig \<Rightarrow> nat \<Rightarrow> ptr \<Rightarrow> int option k" where
  "proc_task_readdir K c n filp = do {
     f \<leftarrow> get_filp filp;
     inode \<leftarrow> file_inode filp;
     task \<leftarrow> get_proc_task K inode;
     (if task = NULL then return (Some (- ENOENT))
      else do {
        leader \<leftarrow> get_leader K task;
        (if leader = NULL then return (Some (- ENOENT))
         else do {
           ok \<leftarrow> task_dots K filp (f_dentry f) inode;
           r \<leftarrow> (if \<not> ok then return (Some ())
             else do {
               dn \<leftarrow> get_dentry (f_dentry f);
               ns \<leftarrow> s_fs_info K (d_sb dn);
               f \<leftarrow> get_filp filp;
               let tid = s32 (uint (f_version f));
               set_f_version filp 0;
               task \<leftarrow> first_tid K leader tid (s32 (f_pos f - 2)) ns;
               task_readdir_loop K c filp ns n task
             });
           put_task_struct leader;
           return (map_option (\<lambda>_. 0) r)
         })
      })
   }"

definition proc_task_getattr :: "kenv \<Rightarrow> ptr \<Rightarrow> (int \<times> kstat) k" where
  "proc_task_getattr K dentry = do {
     dn \<leftarrow> get_dentry dentry;
     p \<leftarrow> get_proc_task K (d_inode dn);
     inode \<leftarrow> get_inode (d_inode dn);
     let stat = generic_fillattr K inode;
     stat \<leftarrow> (if p \<noteq> NULL then do {
         n \<leftarrow> get_nr_threads K p;
         put_task_struct p;
         return (stat\<lparr>ks_nlink := ks_nlink stat + word_of_int n\<rparr>)
       } else return stat);
     return (0, stat)
   }"

section \<open>Specifications\<close>

text \<open>A thread list that does not change during the read: the threads, leader first, and their numbers.\<close>

record thread_list =
  threads :: "ptr list"
  tids :: "int list"

definition thread_name :: "int \<Rightarrow> string" where
  "thread_name tid = snprintf_buf PROC_NUMBUF (fmt_d tid)"

definition threads_ok :: "thread_list \<Rightarrow> bool" where
  "threads_ok T \<longleftrightarrow>
     threads T \<noteq> [] \<and> distinct (threads T) \<and> NULL \<notin> set (threads T) \<and>
     length (tids T) = length (threads T) \<and> length (threads T) < 2 ^ 30 \<and>
     (\<forall>t \<in> set (tids T). 0 < t \<and> t < 2 ^ 31)"

text \<open>What the kernel then answers.\<close>

definition thread_answers :: "kenv \<Rightarrow> thread_list \<Rightarrow> bool" where
  "thread_answers K T \<longleftrightarrow>
     (\<forall>i < length (threads T).
        (let t = threads T ! i in
         (\<forall>x. may_ptr K (TaskQ (Q_next_thread t)) x \<longrightarrow>
            x = (if Suc i < length (threads T) then threads T ! Suc i else hd (threads T))) \<and>
         (\<forall>x. may_int K (TaskQ (Q_thread_group_leader t)) x \<longrightarrow> (x \<noteq> 0 \<longleftrightarrow> i = 0)) \<and>
         (\<forall>x. may_int K (TaskQ (Q_pid_alive t)) x \<longrightarrow> x \<noteq> 0) \<and>
         (\<forall>x. may_ptr K (TaskQ (Q_group_leader t)) x \<longrightarrow> x = hd (threads T)) \<and>
         (\<forall>ns x. may_int K (TaskQ (Q_task_pid_nr_ns t ns)) x \<longrightarrow> x = tids T ! i) \<and>
         (\<forall>ns x. may_ptr K (TaskQ (Q_find_task_by_pid_ns (word_of_int (tids T ! i)) ns)) x \<longrightarrow> x = t))) \<and>
     (\<forall>x. may_int K (TaskQ (Q_lock_task_sighand (hd (threads T)))) x \<longrightarrow> x \<noteq> 0) \<and>
     (\<forall>x. may_int K (TaskQ (Q_signal_count (hd (threads T)))) x \<longrightarrow> x = int (length (threads T)))"

lemma thread_answersD:
  assumes "thread_answers K T" "i < length (threads T)"
  shows "may_ptr K (TaskQ (Q_next_thread (threads T ! i))) x \<Longrightarrow>
      x = (if Suc i < length (threads T) then threads T ! Suc i else hd (threads T))"
    "may_int K (TaskQ (Q_thread_group_leader (threads T ! i))) y \<Longrightarrow> y \<noteq> 0 \<longleftrightarrow> i = 0"
    "may_int K (TaskQ (Q_pid_alive (threads T ! i))) y \<Longrightarrow> y \<noteq> 0"
    "may_ptr K (TaskQ (Q_group_leader (threads T ! i))) x \<Longrightarrow> x = hd (threads T)"
    "may_int K (TaskQ (Q_task_pid_nr_ns (threads T ! i) ns)) y \<Longrightarrow> y = tids T ! i"
    "may_ptr K (TaskQ (Q_find_task_by_pid_ns (word_of_int (tids T ! i)) ns)) x \<Longrightarrow> x = threads T ! i"
  using assms unfolding thread_answers_def Let_def by blast+

lemma threads_okD:
  assumes "threads_ok T"
  shows "hd (threads T) = threads T ! 0" "0 < length (threads T)"
    "i < length (threads T) \<Longrightarrow> 0 < threads T ! i"
    "Suc i < length (threads T) \<Longrightarrow> threads T ! Suc i \<noteq> threads T ! 0"
    "i < length (threads T) \<Longrightarrow> 0 < tids T ! i \<and> tids T ! i < 2 ^ 31"
    "length (threads T) < 2 ^ 30"
proof -
  show "hd (threads T) = threads T ! 0" "0 < length (threads T)" "length (threads T) < 2 ^ 30"
    using assms by (auto simp: threads_ok_def hd_conv_nth)
  show "0 < threads T ! i" if "i < length (threads T)"
    using assms that nth_mem [OF that] by (metis neq0_conv threads_ok_def)
  show "threads T ! Suc i \<noteq> threads T ! 0" if "Suc i < length (threads T)"
    using assms that by (auto simp: threads_ok_def nth_eq_iff_index_eq)
  show "0 < tids T ! i \<and> tids T ! i < 2 ^ 31" if "i < length (threads T)"
    using assms that nth_mem [of i "tids T"] by (auto simp: threads_ok_def)
qed

lemma walk_threads_spec:
  assumes T: "threads_ok T" and K: "thread_answers K T"
  shows "i + nr < length (threads T) \<Longrightarrow> Q (threads T ! (i + nr)) d \<sigma> \<Longrightarrow>
    owns d \<sigma> (walk_threads K (threads T ! 0) (threads T ! i) nr) Q"
proof (induction nr arbitrary: i)
  case (Suc nr)
  have "x = threads T ! Suc i" "x \<noteq> threads T ! 0"
    if "may_ptr K (TaskQ (Q_next_thread (threads T ! i))) x" for x
    using thread_answersD(1) [OF K, of i x] that Suc.prems(1) threads_okD(4) [OF T, of i] by auto
  then show ?case
    using Suc.prems Suc.IH [of "Suc i"] by (auto intro!: owns_intros simp: kernel_defs)
qed (auto intro: owns_intros)

lemma get_nr_threads_spec [owns_intros]:
  assumes "may_int K (TaskQ (Q_lock_task_sighand t)) 0 \<Longrightarrow> Q 0 d \<sigma>"
    and "\<And>x. may_int K (TaskQ (Q_signal_count t)) x \<Longrightarrow> Q x d \<sigma>"
  shows "owns d \<sigma> (get_nr_threads K t) Q"
  unfolding get_nr_threads_def using assms by (auto intro!: owns_intros simp: kernel_defs)

text \<open>
  The first thread: thread number \<open>i\<close> of the list, found through the cached number or by
  walking; none behind the end of the list.
\<close>

lemma first_tid_spec:
  assumes T: "threads_ok T" and K: "thread_answers K T"
    and tid: "i = 0 \<or> tid = 0 \<or> i < length (threads T) \<and> tid = tids T ! i"
    and some: "i < length (threads T) \<Longrightarrow> Q (threads T ! i) (add_mset (RTask (threads T ! i)) d) \<sigma>"
    and none: "length (threads T) \<le> i \<Longrightarrow> Q NULL d \<sigma>"
  shows "owns d \<sigma> (first_tid K (threads T ! 0) tid (int i) ns) Q"
proof (cases "i < length (threads T)")
  case True
  have found: "x = threads T ! i" if "may_ptr K (TaskQ (Q_find_task_by_pid_ns (word_of_int (tids T ! i)) ns)) x" for x
    using thread_answersD(6) [OF K True that] .
  have lead: "x = threads T ! 0" if "may_ptr K (TaskQ (Q_group_leader (threads T ! i))) x" for x
    using thread_answersD(4) [OF K True that] threads_okD(1) [OF T] by simp
  note pos = threads_okD(3) [OF T True]
  have count: "x = int (length (threads T))" if "may_int K (TaskQ (Q_signal_count (threads T ! 0))) x" for x
    using K that threads_okD(1) [OF T] by (simp add: thread_answers_def)
  have sig: "\<not> may_int K (TaskQ (Q_lock_task_sighand (threads T ! 0))) 0"
    using K threads_okD(1) [OF T] by (auto simp: thread_answers_def)
  have cached: "owns d' \<sigma> (cached_tid K (threads T ! 0) tid nr ns) Q'"
    if "nr = int i" "Q' 0 d' \<sigma>" "0 < i \<Longrightarrow> Q' (threads T ! i) d' \<sigma>" for Q' d' nr
    unfolding cached_tid_def using that tid pos
    by (auto intro!: owns_intros simp: kernel_defs dest!: found lead)
  show ?thesis
    unfolding first_tid_def using some True pos
    by (auto intro!: owns_intros cached walk_threads_spec [OF T K, of 0, simplified] simp: kernel_defs sig
        dest: count)
next
  case False
  then have i: "tid = 0" "0 < i" using tid threads_okD(2) [OF T] by (auto intro: gr0I)
  have count: "x = int (length (threads T))" if "may_int K (TaskQ (Q_signal_count (threads T ! 0))) x" for x
    using K that threads_okD(1) [OF T] by (simp add: thread_answers_def)
  show ?thesis
    unfolding first_tid_def cached_tid_def using none False i
    by (auto intro!: owns_intros simp: kernel_defs dest: count)
qed

lemma next_tid_spec:
  assumes T: "threads_ok T" and K: "thread_answers K T" and i: "i < length (threads T)"
    and some: "Suc i < length (threads T) \<Longrightarrow>
      Q (threads T ! Suc i) (add_mset (RTask (threads T ! Suc i)) d) \<sigma>"
    and none: "length (threads T) = Suc i \<Longrightarrow> Q NULL d \<sigma>"
  shows "owns (add_mset (RTask (threads T ! i)) d) \<sigma> (next_tid K (threads T ! i)) Q"
proof -
  note nxt = thread_answersD(1) [OF K i]
  have hd: "hd (threads T) = threads T ! 0" "0 < length (threads T)" using threads_okD [OF T] by auto
  have gl0: "\<not> may_int K (TaskQ (Q_thread_group_leader (threads T ! 0))) 0"
    using thread_answersD(2) [OF K hd(2)] by auto
  have gl: "x = 0" if "may_int K (TaskQ (Q_thread_group_leader (threads T ! Suc i))) x"
    "Suc i < length (threads T)" for x
    using thread_answersD(2) [OF K that(2,1)] by simp
  show ?thesis
    unfolding next_tid_def using some none i
    by (auto intro!: owns_intros simp: kernel_defs hd gl0 dest!: nxt dest: gl thread_answersD(3) [OF K i]
        split: if_splits) (blast dest: gl)
qed

text \<open>The store with \<open>f_version\<close> set.\<close>

definition with_version :: "ptr \<Rightarrow> u64 \<Rightarrow> store \<Rightarrow> store" where
  "with_version filp v \<sigma> = \<sigma>\<lparr>filps := (filps \<sigma>)(filp := (filps \<sigma> filp)\<lparr>f_version := v\<rparr>)\<rparr>"

lemma set_f_version_spec [owns_intros]:
  "Q () d (with_version filp v \<sigma>) \<Longrightarrow> owns d \<sigma> (set_f_version filp v) Q"
  unfolding set_f_version_def with_version_def by (auto intro!: owns_intros simp: kernel_defs)

text \<open>
  The threads from number \<open>i\<close> on were listed: all of them, or up to one that was refused, whose
  number is then in \<open>f_version\<close>.
\<close>

definition threads_listed :: "kenv \<Rightarrow> ptr \<Rightarrow> thread_list \<Rightarrow> nat \<Rightarrow> store \<Rightarrow> store \<Rightarrow> bool" where
  "threads_listed K filp T i \<sigma> \<sigma>' \<longleftrightarrow>
     (let names = map thread_name (drop i (tids T)) in
      listed K filp names \<sigma> \<sigma>' \<or>
      (\<exists>m < length names. \<exists>\<sigma>1. listed K filp (take m names) \<sigma> \<sigma>1 \<and>
         refuses K (names ! m) (f_pos (filps \<sigma>1 filp)) \<and>
         \<sigma>' = with_version filp (word_of_int (tids T ! (i + m))) \<sigma>1))"

lemma threads_listed_refused:
  assumes "listed K filp [] \<sigma> \<sigma>1" "refuses K (thread_name (tids T ! i)) (f_pos (filps \<sigma> filp))"
    "i < length (tids T)"
  shows "threads_listed K filp T i \<sigma> (with_version filp (word_of_int (tids T ! i)) \<sigma>1)"
  unfolding threads_listed_def Let_def using assms listed_pos [OF assms(1)]
  by (intro disjI2 exI [where x = 0]) auto

lemma threads_listed_Cons:
  assumes "listed K filp [thread_name (tids T ! i)] \<sigma> \<sigma>1" "threads_listed K filp T (Suc i) \<sigma>1 \<sigma>2"
    "i < length (tids T)"
  shows "threads_listed K filp T i \<sigma> \<sigma>2"
proof -
  have d: "map thread_name (drop i (tids T)) =
      thread_name (tids T ! i) # map thread_name (drop (Suc i) (tids T))"
    using assms(3) by (simp flip: Cons_nth_drop_Suc)
  from assms(2) consider "listed K filp (map thread_name (drop (Suc i) (tids T))) \<sigma>1 \<sigma>2"
    | m \<sigma>3 where "refuses K (thread_name (tids T ! (Suc i + m))) (f_pos (filps \<sigma>3 filp))"
      "m < length (tids T) - Suc i"
      "listed K filp (take m (map thread_name (drop (Suc i) (tids T)))) \<sigma>1 \<sigma>3"
      "\<sigma>2 = with_version filp (word_of_int (tids T ! (Suc i + m))) \<sigma>3"
    unfolding threads_listed_def Let_def by force
  then show ?thesis
  proof cases
    case 1
    then show ?thesis
      unfolding threads_listed_def d using listed_Cons [OF assms(1)] by simp
  next
    case 2
    then show ?thesis
      unfolding threads_listed_def Let_def d using listed_Cons [OF assms(1) 2(3)]
      by (auto intro!: exI [where x = "Suc m"])
  qed
qed

lemma task_readdir_loop_spec:
  assumes "d_add_law K" and T: "threads_ok T" and K: "thread_answers K T"
    and "dcache_ok K \<sigma>" "f_pos (filps \<sigma> filp) = int i + 2"
    and "length (threads T) - i < n"
    and Q: "\<And>\<sigma>'. threads_listed K filp T i \<sigma> \<sigma>' \<Longrightarrow> Q (Some ()) d \<sigma>'"
  shows "owns (if i < length (threads T) then add_mset (RTask (threads T ! i)) d else d) \<sigma>
    (task_readdir_loop K c filp ns n (if i < length (threads T) then threads T ! i else NULL)) Q"
  using assms(4-7)
proof (induction n arbitrary: i \<sigma>)
  case 0
  then show ?case by simp
next
  case (Suc n)
  have len: "length (tids T) = length (threads T)" using T by (simp add: threads_ok_def)
  show ?case
  proof (cases "i < length (threads T)")
    case False
    then have "threads_listed K filp T i \<sigma> \<sigma>"
      using Suc.prems(1) len by (simp add: threads_listed_def listed_Nil)
    then show ?thesis using False Suc.prems(4) by (auto intro!: owns_intros)
  next
    case True
    note t = threads_okD(3) [OF T True]
    have pos: "pos_ok filp \<sigma>"
      using Suc.prems(2) True threads_okD(6) [OF T] by (simp add: pos_ok_def)
    have step: "owns (if Suc i < length (threads T) then add_mset (RTask (threads T ! Suc i)) d else d) \<sigma>1
        (task_readdir_loop K c filp ns n (if Suc i < length (threads T) then threads T ! Suc i else NULL)) Q"
      if l: "listed K filp [thread_name (tids T ! i)] \<sigma> \<sigma>1" for \<sigma>1
      using Suc.prems(2,3) True listed_pos [OF l] listed_dcache [OF l] threads_listed_Cons [OF l] len
      by (intro Suc.IH) (auto intro: Suc.prems(4))
    let ?fill = "fill_post K filp (thread_name (tids T ! i)) \<sigma>"
    have refused: "Q (Some ()) d (with_version filp (word_of_int (tids T ! i)) \<sigma>')"
      if "?fill r \<sigma>'" "r < 0" for r \<sigma>'
      using fill_post_refused [OF that] True len by (intro Suc.prems(4) threads_listed_refused) auto
    have accepted: "owns d' (\<sigma>'\<lparr>filps := (filps \<sigma>')(filp := (filps \<sigma>' filp)\<lparr>f_pos := s64 (f_pos (filps \<sigma>' filp) + 1)\<rparr>)\<rparr>)
        (task_readdir_loop K c filp ns n task) Q"
      if "?fill r \<sigma>'" "\<not> r < 0"
        "d' = (if Suc i < length (threads T) then add_mset (RTask (threads T ! Suc i)) d else d)"
        "task = (if Suc i < length (threads T) then threads T ! Suc i else NULL)" for r \<sigma>' d' task
      using step [OF fill_post_listed [OF that(1) _ pos]] that(2-) by (simp add: not_less)
    have tid: "x = tids T ! i" if "may_int K (TaskQ (Q_task_pid_nr_ns (threads T ! i) ns)) x" for x
      using thread_answersD(5) [OF K True that] .
    show ?thesis
      using True t assms(1) Suc.prems(1)
      by (auto intro!: owns_intros tid_dir.fill_cache_spec next_tid_spec [OF T K True]
          accepted refused [unfolded thread_name_def] dest!: tid
          simp: kernel_defs proc_task_fill_cache_def simp flip: thread_name_def)
  qed
qed

abbreviation (input) dots :: "string list" where "dots \<equiv> [''.'', ''..'']"

lemma task_dots_spec:
  assumes "dcache_ok K \<sigma>" "f_pos (filps \<sigma> filp) = int p" "p < 2 ^ 30 + 2"
    and yes: "\<And>\<sigma>'. listed K filp (drop p dots) \<sigma> \<sigma>' \<Longrightarrow> Q True d \<sigma>'"
    and no: "\<And>m \<sigma>'. m < 2 - p \<Longrightarrow> listed K filp (take m (drop p dots)) \<sigma> \<sigma>' \<Longrightarrow>
      refuses K (dots ! (p + m)) (int (p + m)) \<Longrightarrow> Q False d \<sigma>'"
  shows "owns d \<sigma> (task_dots K filp dentry inode) Q"
proof -
  have w: "(of_nat p :: u32) = 0 \<longleftrightarrow> p = 0" "(of_nat p :: u32) = 1 \<longleftrightarrow> p = 1"
    using assms(3) unat_of_nat_less [of p, where 'a = 32]
    by (auto simp: word_unat_eq_iff)
  have nil: "Q True d \<sigma>" if "2 \<le> p" using that assms(1) by (intro yes) (simp add: listed_Nil)
  have pos: "pos_ok filp \<sigma>" using assms(2,3) by (simp add: pos_ok_def)
  have both: "Q True d \<sigma>''" if "listed K filp [''.''] \<sigma> \<sigma>'" "listed K filp [''..''] \<sigma>' \<sigma>''" "p = 0" for \<sigma>' \<sigma>''
    using listed_Cons [OF that(1,2)] that(3) by (intro yes) simp
  have one: "Q False d \<sigma>'" if "listed K filp [''.''] \<sigma> \<sigma>'" "refuses K ''..'' 1" "p = 0" for \<sigma>'
    using that by (intro no [of 1]) auto
  have zero: "Q False d \<sigma>" if "refuses K (dots ! p) (int p)" "p = 0 \<or> p = 1"
    using that assms(1) by (intro no [of 0]) (auto simp: listed_Nil)
  consider "p = 0" | "p = 1" | "2 \<le> p" by linarith
  then show ?thesis
  proof cases
    case 1
    show ?thesis
      unfolding task_dots_def using assms(1) pos 1
      by (auto intro!: owns_intros fill_dot_spec simp: kernel_defs assms(2) pos_ok_def listed_pos listed_dcache)
        (erule (2) both, erule (2) one, simp add: zero)
  next
    case 2
    show ?thesis
      unfolding task_dots_def using assms(1) pos 2 yes
      by (auto intro!: owns_intros fill_dot_spec simp: kernel_defs assms(2) zero)
  next
    case 3
    then show ?thesis
      unfolding task_dots_def using nil by (auto intro!: owns_intros simp: kernel_defs assms(2) w)
  qed
qed

text \<open>
  A read of a thread directory from position \<open>p\<close>: stopped at a dot entry, or the dots that
  remain were listed and then the threads from number \<open>p - 2\<close> on.
\<close>

definition task_read_post :: "kenv \<Rightarrow> ptr \<Rightarrow> thread_list \<Rightarrow> nat \<Rightarrow> store \<Rightarrow> store \<Rightarrow> bool" where
  "task_read_post K filp T p \<sigma> \<sigma>' \<longleftrightarrow>
     (\<exists>m < 2 - p. listed K filp (take m (drop p dots)) \<sigma> \<sigma>' \<and> refuses K (dots ! (p + m)) (int (p + m))) \<or>
     (\<exists>\<sigma>1. listed K filp (drop p dots) \<sigma> \<sigma>1 \<and>
        threads_listed K filp T (p - 2) (with_version filp 0 \<sigma>1) \<sigma>')"

lemma with_version_simps [simp]:
  "f_pos (filps (with_version filp v \<sigma>) filp) = f_pos (filps \<sigma> filp)"
  "dcache_ok K (with_version filp v \<sigma>) = dcache_ok K \<sigma>"
  by (simp_all add: with_version_def)

lemma listed_version: "listed K filp ns \<sigma> \<sigma>' \<Longrightarrow> f_version (filps \<sigma>' filp) = f_version (filps \<sigma> filp)"
  by (simp add: listed_def Let_def)

lemma get_leader_spec:
  assumes T: "threads_ok T" and K: "thread_answers K T" and t: "task \<in> set (threads T)"
    and Q: "Q (threads T ! 0) (add_mset (RTask (threads T ! 0)) d) \<sigma>"
  shows "owns (add_mset (RTask task) d) \<sigma> (get_leader K task) Q"
proof -
  obtain i where i: "i < length (threads T)" "task = threads T ! i" using t by (auto simp: in_set_conv_nth)
  show ?thesis
    unfolding get_leader_def i(2) using Q threads_okD(1) [OF T]
    by (auto intro!: owns_intros simp: kernel_defs add_mset_commute
        dest: thread_answersD(3) [OF K i(1)] dest!: thread_answersD(4) [OF K i(1)])
qed

lemma tid_u64: "0 < t \<Longrightarrow> t < 2 ^ 31 \<Longrightarrow> s32 (uint (word_of_int t :: u64)) = t"
  by (simp add: uint_word_of_int_eq take_bit_int_eq_self)

text \<open>
  The version with which a read may resume at position \<open>p\<close>: none, or the number of the thread at
  that position.
\<close>

definition version_ok :: "thread_list \<Rightarrow> nat \<Rightarrow> u64 \<Rightarrow> bool" where
  "version_ok T p v \<longleftrightarrow> p \<le> 2 \<or> v = 0 \<or> p - 2 < length (threads T) \<and> v = word_of_int (tids T ! (p - 2))"

lemma task_read_post_version:
  assumes "task_read_post K filp T p \<sigma> \<sigma>'" "f_pos (filps \<sigma> filp) = int p" "threads_ok T"
  shows "version_ok T (nat (f_pos (filps \<sigma>' filp))) (f_version (filps \<sigma>' filp))"
proof -
  from assms(1) consider (dot) m where "m < 2 - p" "listed K filp (take m (drop p dots)) \<sigma> \<sigma>'"
    | (thr) \<sigma>1 where "listed K filp (drop p dots) \<sigma> \<sigma>1"
        "threads_listed K filp T (p - 2) (with_version filp 0 \<sigma>1) \<sigma>'"
    unfolding task_read_post_def by blast
  then show ?thesis
  proof cases
    case dot
    then show ?thesis using listed_pos [OF dot(2)] assms(2) by (auto simp: version_ok_def)
  next
    case thr
    have pos: "f_pos (filps \<sigma>1 filp) = int (max p 2)" using listed_pos [OF thr(1)] assms(2) by auto
    from thr(2) consider (all) "listed K filp (map thread_name (drop (p - 2) (tids T))) (with_version filp 0 \<sigma>1) \<sigma>'"
      | (ref) m \<sigma>2 where "m < length (tids T) - (p - 2)"
          "listed K filp (take m (map thread_name (drop (p - 2) (tids T)))) (with_version filp 0 \<sigma>1) \<sigma>2"
          "\<sigma>' = with_version filp (word_of_int (tids T ! (p - 2 + m))) \<sigma>2"
      unfolding threads_listed_def Let_def by force
    then show ?thesis
    proof cases
      case all
      then show ?thesis using listed_version [OF all] by (simp add: version_ok_def with_version_def)
    next
      case ref
      have len: "length (tids T) = length (threads T)" using assms(3) by (simp add: threads_ok_def)
      have "f_pos (filps \<sigma>' filp) = int (max p 2 + m)" using listed_pos [OF ref(2)] ref(1,3) pos by auto
      then have "nat (f_pos (filps \<sigma>' filp)) = max p 2 + m" by (simp only: nat_int)
      moreover have "max p 2 + m - 2 = p - 2 + m" "p - 2 + m < length (threads T)" using ref(1) len by auto
      ultimately show ?thesis using ref(1,3) len by (simp add: version_ok_def with_version_def)
    qed
  qed
qed

lemma first_tid_resume:
  assumes T: "threads_ok T" and K: "thread_answers K T" and v: "version_ok T p (f_version (filps \<sigma> filp))"
    and p: "f_pos (filps \<sigma> filp) = int p" "p < 2 ^ 30 + 2" and s: "listed K filp (drop p dots) \<sigma> \<sigma>1"
    and R: "p - 2 < length (threads T) \<Longrightarrow> R (threads T ! (p - 2)) (add_mset (RTask (threads T ! (p - 2))) e) \<sigma>2"
      "length (threads T) \<le> p - 2 \<Longrightarrow> R NULL e \<sigma>2"
  shows "owns e \<sigma>2 (first_tid K (threads T ! 0) (s32 (uint (f_version (filps \<sigma>1 filp))))
    (s32 (f_pos (filps \<sigma>1 filp) - 2)) ns) R"
proof -
  have tid: "p - 2 = 0 \<or> s32 (uint (f_version (filps \<sigma> filp))) = 0 \<or>
      p - 2 < length (threads T) \<and> s32 (uint (f_version (filps \<sigma> filp))) = tids T ! (p - 2)"
  proof (cases "p - 2 < length (threads T)")
    case True
    then show ?thesis using v tid_u64 threads_okD(5) [OF T True] by (auto simp: version_ok_def)
  qed (use v in \<open>auto simp: version_ok_def\<close>)
  have "f_pos (filps \<sigma>1 filp) - 2 = int (p - 2)" using listed_pos [OF s] p(1) by auto
  moreover have "s32 (int (p - 2)) = int (p - 2)" using p(2) by (intro s32_id) auto
  ultimately show ?thesis
    using first_tid_spec [where Q = R, OF T K tid R] by (simp add: listed_version [OF s])
qed

lemma task_readdir_loop_resume:
  assumes "d_add_law K" and T: "threads_ok T" and K: "thread_answers K T"
    and p: "f_pos (filps \<sigma> filp) = int p" and fuel: "length (threads T) < n"
    and s: "listed K filp (drop p dots) \<sigma> \<sigma>1" "\<sigma>2 = with_version filp 0 \<sigma>1"
    and e: "p - 2 < length (threads T) \<Longrightarrow> task = threads T ! (p - 2) \<and> e = add_mset (RTask task) d"
      "\<not> p - 2 < length (threads T) \<Longrightarrow> task = 0 \<and> e = d"
    and R: "\<And>\<sigma>'. task_read_post K filp T p \<sigma> \<sigma>' \<Longrightarrow> R (Some ()) d \<sigma>'"
  shows "owns e \<sigma>2 (task_readdir_loop K c filp ns n task) R"
proof -
  have "f_pos (filps \<sigma>2 filp) = int (p - 2) + 2" using listed_pos [OF s(1)] s(2) p by auto
  then have "owns (if p - 2 < length (threads T) then add_mset (RTask (threads T ! (p - 2))) d else d) \<sigma>2
      (task_readdir_loop K c filp ns n (if p - 2 < length (threads T) then threads T ! (p - 2) else NULL)) R"
    using s listed_dcache [OF s(1)] fuel
    by (intro task_readdir_loop_spec [OF assms(1) T K]) (auto intro!: R simp: task_read_post_def)
  then show ?thesis using e by (auto split: if_splits)
qed

text \<open>
  One call, on a list of threads that does not change during it: from position \<open>p\<close> it delivers the
  dots that remain and then exactly the threads from number \<open>p - 2\<close> of the list on, in list order,
  one position each, up to an entry that is refused; afterwards the position and \<open>f_version\<close> satisfy
  again the condition under which a read resumes.
\<close>

lemma proc_task_readdir_once:
  assumes "d_add_law K" "dcache_ok K \<sigma>" "threads_ok T" "thread_answers K T"
    and "\<And>x. dir_task K (dir_of \<sigma> filp) x \<Longrightarrow> x = NULL \<or> x \<in> set (threads T)"
    and "f_pos (filps \<sigma> filp) = int p" "p < 2 ^ 30 + 2" "version_ok T p (f_version (filps \<sigma> filp))"
    and "length (threads T) < n"
  shows "owns {#} \<sigma> (proc_task_readdir K c n filp)
    (\<lambda>r d \<sigma>'. d = {#} \<and>
       (r = Some (- ENOENT) \<and> \<sigma>' = \<sigma> \<and> task_gone K (dir_of \<sigma> filp) \<or>
        r = Some 0 \<and> task_read_post K filp T p \<sigma> \<sigma>' \<and>
          version_ok T (nat (f_pos (filps \<sigma>' filp))) (f_version (filps \<sigma>' filp))))"
proof -
  note T = assms(3) and K = assms(4) and p = assms(6,7)
  note again = task_read_post_version [OF _ p(1) T]
  have task: "x \<in> set (threads T)"
    if "may_ptr K (TaskQ (Q_get_proc_task (d_inode (dentries \<sigma> (f_dentry (filps \<sigma> filp)))))) x" "0 < x" for x
    using assms(5) [of x] that by (simp add: dir_task_def dir_of_def)
  have no: "task_read_post K filp T p \<sigma> \<sigma>'"
    if "m < 2 - p" "listed K filp (take m (drop p dots)) \<sigma> \<sigma>'"
      "refuses K (dots ! (p + m)) (int p + int m)" for m \<sigma>'
    using that unfolding task_read_post_def by auto
  have "owns {#} \<sigma> (proc_task_readdir K c n filp) (\<lambda>r d \<sigma>'. d = {#} \<and>
      (r = Some (- ENOENT) \<and> \<sigma>' = \<sigma> \<and> task_gone K (dir_of \<sigma> filp) \<or>
       r = Some 0 \<and> task_read_post K filp T p \<sigma> \<sigma>'))"
    unfolding proc_task_readdir_def using assms(2) p threads_okD(3) [OF T threads_okD(2) [OF T]]
    by (auto intro!: owns_intros get_leader_spec [OF T K] task task_dots_spec
        first_tid_resume [OF T K assms(8) p] task_readdir_loop_resume [OF assms(1) T K p(1) assms(9)]
        intro: no simp: kernel_defs goneI)
  then show ?thesis by (rule owns_mono) (auto intro: again)
qed

section \<open>Reading the threads in several calls\<close>

definition task_names :: "thread_list \<Rightarrow> string list" where
  "task_names T = dots @ map thread_name (tids T)"

lemma with_version_eqs [simp]:
  "with_version filp v (with_version filp w \<sigma>) = with_version filp v \<sigma>"
  "with_version filp (f_version (filps \<sigma> filp)) \<sigma> = \<sigma>"
  "dir_of (with_version filp v \<sigma>) filp = dir_of \<sigma> filp"
  by (simp_all add: with_version_def dir_of_def)

lemma listed_with_version:
  "listed K filp ns \<sigma> \<sigma>' \<Longrightarrow> listed K filp ns (with_version filp v \<sigma>) (with_version filp v \<sigma>')"
  by (auto simp: listed_def with_version_def Let_def read_frame_def dcache_ok_def)

text \<open>The first \<open>q\<close> entries were listed; \<open>f_version\<close> may have changed on the way.\<close>

definition threads_prefix :: "kenv \<Rightarrow> ptr \<Rightarrow> thread_list \<Rightarrow> nat \<Rightarrow> store \<Rightarrow> store \<Rightarrow> bool" where
  "threads_prefix K filp T q \<sigma> \<sigma>' \<longleftrightarrow>
     listed K filp (take q (task_names T)) \<sigma> (with_version filp (f_version (filps \<sigma> filp)) \<sigma>')"

lemma threads_prefix_pos:
  assumes "threads_prefix K filp T q \<sigma> \<sigma>'" "f_pos (filps \<sigma> filp) = 0" "q \<le> length (task_names T)"
  shows "f_pos (filps \<sigma>' filp) = int q"
  using listed_pos [OF assms(1) [unfolded threads_prefix_def]] assms(2,3) by simp

lemma threads_prefix_append:
  assumes "threads_prefix K filp T q \<sigma>0 \<sigma>" "listed K filp (take m (drop q (task_names T))) \<sigma> \<sigma>'"
  shows "threads_prefix K filp T (q + m) \<sigma>0 \<sigma>'"
  using listed_append [OF assms(1) [unfolded threads_prefix_def] listed_with_version [OF assms(2)]]
  by (simp add: threads_prefix_def take_add)

lemma threads_prefix_version [simp]:
  "threads_prefix K filp T q \<sigma> (with_version filp v \<sigma>') = threads_prefix K filp T q \<sigma> \<sigma>'"
  by (simp add: threads_prefix_def)

lemma dots_prefix: "q \<le> length (task_names T) \<Longrightarrow> drop q (task_names T) = drop q dots @ map thread_name (drop (q - 2) (tids T))"
  unfolding task_names_def drop_append by (simp add: drop_map numeral_2_eq_2)

text \<open>Where the caller stands: behind the last thread, or at an entry that is refused.\<close>

definition threads_stop :: "kenv \<Rightarrow> thread_list \<Rightarrow> nat \<Rightarrow> bool" where
  "threads_stop K T q \<longleftrightarrow>
     q = length (task_names T) \<or> q < length (task_names T) \<and> refuses K (task_names T ! q) (int q)"

lemma threads_prefix_tail:
  assumes pre: "threads_prefix K filp T p \<sigma>0 \<sigma>1" "f_pos (filps \<sigma>0 filp) = 0" "2 \<le> p" "p \<le> length (task_names T)"
    and post: "threads_listed K filp T (p - 2) (with_version filp 0 \<sigma>1) \<sigma>'"
  shows "\<exists>q'. q' \<le> length (task_names T) \<and> threads_prefix K filp T q' \<sigma>0 \<sigma>' \<and> threads_stop K T q'"
proof -
  let ?N = "task_names T" and ?t = "map thread_name (drop (p - 2) (tids T))"
  have d: "drop p ?N = ?t" using dots_prefix [OF pre(4)] pre(3) by simp
  have len: "p + length ?t = length ?N" using d pre(4) by (metis length_drop le_add_diff_inverse)
  have go: "threads_prefix K filp T (p + m) \<sigma>0 \<sigma>2"
    if "listed K filp (take m ?t) (with_version filp 0 \<sigma>1) \<sigma>2" for m \<sigma>2
    using that pre(1) d by (intro threads_prefix_append [where \<sigma> = "with_version filp 0 \<sigma>1"]) simp_all
  from post consider (all) "listed K filp ?t (with_version filp 0 \<sigma>1) \<sigma>'"
    | (ref) m \<sigma>2 where "m < length ?t" "listed K filp (take m ?t) (with_version filp 0 \<sigma>1) \<sigma>2"
        "refuses K (?t ! m) (f_pos (filps \<sigma>2 filp))"
        "\<sigma>' = with_version filp (word_of_int (tids T ! (p - 2 + m))) \<sigma>2"
    unfolding threads_listed_def Let_def by blast
  then show ?thesis
  proof cases
    case all
    then have "threads_prefix K filp T (length ?N) \<sigma>0 \<sigma>'" using go [of "length ?t"] len by simp
    then show ?thesis by (auto simp: threads_stop_def)
  next
    case ref
    have "?N ! (p + m) = ?t ! m" using nth_drop [of p ?N m] d pre(4) by simp
    moreover have "f_pos (filps \<sigma>2 filp) = int (p + m)"
      using listed_pos [OF ref(2)] ref(1) threads_prefix_pos [OF pre(1,2,4)] by simp
    ultimately show ?thesis
      using go [OF ref(2)] ref(1,3,4) len by (intro exI [where x = "p + m"]) (auto simp: threads_stop_def)
  qed
qed

lemma threads_prefix_step:
  assumes pre: "threads_prefix K filp T q \<sigma>0 \<sigma>" "f_pos (filps \<sigma>0 filp) = 0" "q \<le> length (task_names T)"
    and post: "task_read_post K filp T q \<sigma> \<sigma>'"
  shows "\<exists>q'. q' \<le> length (task_names T) \<and> threads_prefix K filp T q' \<sigma>0 \<sigma>' \<and> threads_stop K T q'"
proof -
  let ?N = "task_names T"
  note N = dots_prefix [OF pre(3)]
  have len: "length ?N = 2 + length (tids T)" by (simp add: task_names_def)
  from post consider (dot) m where "m < 2 - q" "listed K filp (take m (drop q dots)) \<sigma> \<sigma>'"
        "refuses K (dots ! (q + m)) (int (q + m))"
    | (thr) \<sigma>1 where "listed K filp (drop q dots) \<sigma> \<sigma>1"
        "threads_listed K filp T (q - 2) (with_version filp 0 \<sigma>1) \<sigma>'"
    unfolding task_read_post_def by blast
  then show ?thesis
  proof cases
    case dot
    have "threads_prefix K filp T (q + m) \<sigma>0 \<sigma>'"
      using dot(1,2) N by (intro threads_prefix_append [OF pre(1)]) simp
    moreover have "?N ! (q + m) = dots ! (q + m)" using dot(1) unfolding task_names_def by (subst nth_append) auto
    ultimately show ?thesis
      using dot(1,3) len by (intro exI [where x = "q + m"]) (auto simp: threads_stop_def)
  next
    case thr
    have "q + length (drop q dots) = max q 2" "max q 2 - 2 = q - 2" by auto
    then have "threads_prefix K filp T (max q 2) \<sigma>0 \<sigma>1"
      "threads_listed K filp T (max q 2 - 2) (with_version filp 0 \<sigma>1) \<sigma>'"
      using threads_prefix_append [OF pre(1), where m = "length (drop q dots)"] thr N by simp_all
    then show ?thesis by (intro threads_prefix_tail [OF _ pre(2)]) (use pre(3) len in auto)
  qed
qed

section \<open>Properties\<close>

text \<open>The condition under which the reading goes on, between two calls.\<close>

definition threads_inv :: "kenv \<Rightarrow> ptr \<Rightarrow> thread_list \<Rightarrow> nat \<Rightarrow> store \<Rightarrow> store \<Rightarrow> bool" where
  "threads_inv K filp T q \<sigma>0 \<sigma> \<longleftrightarrow>
     q \<le> length (task_names T) \<and> threads_prefix K filp T q \<sigma>0 \<sigma> \<and>
     version_ok T q (f_version (filps \<sigma> filp))"

lemma threads_inv_step:
  assumes "threads_inv K filp T q \<sigma>0 \<sigma>" "f_pos (filps \<sigma>0 filp) = 0" "task_read_post K filp T q \<sigma> \<sigma>'"
    "version_ok T (nat (f_pos (filps \<sigma>' filp))) (f_version (filps \<sigma>' filp))"
  shows "\<exists>q'. threads_inv K filp T q' \<sigma>0 \<sigma>' \<and> threads_stop K T q'"
proof -
  from threads_prefix_step [OF _ assms(2) _ assms(3)] assms(1) obtain q' where
    q': "q' \<le> length (task_names T)" "threads_prefix K filp T q' \<sigma>0 \<sigma>'" "threads_stop K T q'"
    by (auto simp: threads_inv_def)
  then show ?thesis
    using threads_prefix_pos [OF q'(2) assms(2) q'(1)] assms(4) by (intro exI [where x = q']) (simp add: threads_inv_def)
qed

lemma task_read_times:
  assumes "d_add_law K" "threads_ok T" "thread_answers K T" "length (threads T) < m"
    and dir: "\<And>x. dir_task K (dir_of \<sigma>0 filp) x \<Longrightarrow> x = NULL \<or> x \<in> set (threads T)"
    and "f_pos (filps \<sigma>0 filp) = 0" "pinned K (f_dentry (filps \<sigma>0 filp))" "threads_inv K filp T q \<sigma>0 \<sigma>"
    and "\<And>q' rs \<sigma>'. threads_inv K filp T q' \<sigma>0 \<sigma>' \<Longrightarrow>
      results {Some (- ENOENT), Some 0} (\<lambda>r. r = Some (- ENOENT) \<and> task_gone K (dir_of \<sigma>0 filp) \<or>
        r = Some 0 \<and> threads_stop K T q') n rs \<Longrightarrow> Q rs {#} \<sigma>'"
  shows "owns {#} \<sigma> (read_times (proc_task_readdir K c m) filp n) Q"
  using assms(8-)
proof (induction n arbitrary: \<sigma> q Q)
  case 0
  then show ?case by (auto intro!: owns_intros)
next
  case (Suc n)
  let ?i = "dir_of \<sigma>0 filp"
  let ?last = "\<lambda>q r. r = Some (- ENOENT) \<and> task_gone K ?i \<or> r = Some 0 \<and> threads_stop K T q"
  have pre: "threads_prefix K filp T q \<sigma>0 \<sigma>" "q \<le> length (task_names T)" "version_ok T q (f_version (filps \<sigma> filp))"
    using Suc.prems(1) by (simp_all add: threads_inv_def)
  have i: "dir_of \<sigma> filp = ?i" using listed_dir [OF pre(1) [unfolded threads_prefix_def] assms(7)] by simp
  have dc: "dcache_ok K \<sigma>" using listed_dcache [OF pre(1) [unfolded threads_prefix_def]] by simp
  have p: "f_pos (filps \<sigma> filp) = int q" "q < 2 ^ 30 + 2"
    using threads_prefix_pos [OF pre(1) assms(6) pre(2)] pre(2) assms(2) by (auto simp: task_names_def threads_ok_def)
  have next_call: "owns {#} \<sigma>' (read_times (proc_task_readdir K c m) filp n) (\<lambda>rs d \<sigma>'. owns d \<sigma>' (return (r # rs)) Q)"
    if q': "threads_inv K filp T q' \<sigma>0 \<sigma>'" "?last q' r" for q' r \<sigma>'
  proof (cases n)
    case 0
    then show ?thesis using q' by (auto intro!: owns_intros Suc.prems(2) results_Cons)
  next
    case (Suc l)
    then show ?thesis
      using q'(2) by (intro Suc.IH [OF q'(1)]) (auto intro!: owns_intros Suc.prems(2) results_Cons)
  qed
  have "owns {#} \<sigma> (proc_task_readdir K c m filp) (\<lambda>r d \<sigma>'. d = {#} \<and>
       (r = Some (- ENOENT) \<and> \<sigma>' = \<sigma> \<and> task_gone K ?i \<or>
        r = Some 0 \<and> task_read_post K filp T q \<sigma> \<sigma>' \<and>
          version_ok T (nat (f_pos (filps \<sigma>' filp))) (f_version (filps \<sigma>' filp))))"
    using proc_task_readdir_once [OF assms(1) dc assms(2,3) _ p pre(3) assms(4), of c] dir unfolding i by blast
  moreover have "owns {#} \<sigma>' (read_times (proc_task_readdir K c m) filp n) (\<lambda>rs d \<sigma>'. owns d \<sigma>' (return (Some 0 # rs)) Q)"
    if "task_read_post K filp T q \<sigma> \<sigma>'" "version_ok T (nat (f_pos (filps \<sigma>' filp))) (f_version (filps \<sigma>' filp))" for \<sigma>'
    using threads_inv_step [OF Suc.prems(1) assms(6) that] next_call by auto
  moreover have "owns {#} \<sigma> (read_times (proc_task_readdir K c m) filp n)
      (\<lambda>rs d \<sigma>'. owns d \<sigma>' (return (Some (- ENOENT) # rs)) Q)" if "task_gone K ?i"
    using next_call [OF Suc.prems(1)] that by simp
  ultimately show ?case
    unfolding read_times.simps by (auto intro!: owns_bind elim!: owns_mono)
qed

text \<open>
  Property C16. The \<open>task\<close> directory of a process whose thread list does not change, read from the
  start in any number of calls with more fuel than threads: every call ends; what the caller has got is
  always a prefix of the dots and the threads in list order, each once, and the position is its length,
  although the code finds the place again by the number it kept in \<open>f_version\<close>. The last call
  returned \<open>-ENOENT\<close> and the process is gone, or it returned 0 and the prefix is all there is or ends
  at an entry that the caller refuses. All task references are given back.
\<close>

theorem proc_task_readdir_correct:
  assumes "d_add_law K" "dcache_ok K \<sigma>" "threads_ok T" "thread_answers K T" "length (threads T) < m"
    and "\<And>x. dir_task K (dir_of \<sigma> filp) x \<Longrightarrow> x = NULL \<or> x \<in> set (threads T)"
    and "f_pos (filps \<sigma> filp) = 0" "pinned K (f_dentry (filps \<sigma> filp))"
  shows "owns {#} \<sigma> (read_times (proc_task_readdir K c m) filp n)
    (\<lambda>rs d \<sigma>'. d = {#} \<and>
       (\<exists>q \<le> length (task_names T). threads_prefix K filp T q \<sigma> \<sigma>' \<and>
          results {Some (- ENOENT), Some 0} (\<lambda>r. r = Some (- ENOENT) \<and> task_gone K (dir_of \<sigma> filp) \<or>
            r = Some 0 \<and> threads_stop K T q) n rs))"
proof (rule task_read_times [where q = 0, OF assms(1,3,4,5,6,7,8)])
  show "threads_inv K filp T 0 \<sigma> \<sigma>"
    using assms(2) by (simp add: threads_inv_def threads_prefix_def listed_Nil version_ok_def)
qed (auto simp: threads_inv_def)

lemma ex_thread:
  "threads_ok \<lparr>threads = [7], tids = [1]\<rparr>" "thread_answers (ex_kernel 7 1) \<lparr>threads = [7], tids = [1]\<rparr>"
  "may_ptr (ex_kernel 7 1) q x \<Longrightarrow> x = 7"
  by (auto simp: threads_ok_def thread_answers_def ex_kernel_def may_ptr_def may_int_def)

theorem proc_task_readdir_correct_witness:
  "threads_ok \<lparr>threads = [7], tids = [1]\<rparr> \<and>
   thread_answers (ex_kernel 7 1) \<lparr>threads = [7], tids = [1]\<rparr> \<and> pinned (ex_kernel 7 1) (f_dentry (filps ex_store 1)) \<and>
   owns {#} ex_store (read_times (proc_task_readdir (ex_kernel 7 1) (\<lambda>_. True) 2) 1 3)
    (\<lambda>rs d \<sigma>'. d = {#} \<and> last rs = Some 0 \<and>
       threads_prefix (ex_kernel 7 1) 1 \<lparr>threads = [7], tids = [1]\<rparr> 3 ex_store \<sigma>')"
  using proc_task_readdir_correct [of "ex_kernel 7 1" ex_store "\<lparr>threads = [7], tids = [1]\<rparr>" 2 1 "\<lambda>_. True" 3]
    ex_thread by (auto elim!: owns_mono simp: ex_kernel_accepts ex_pinned dir_task_def threads_stop_def results_def
      task_names_def numeral_3_eq_3)

text \<open>The kernel's thread lists are circular and every task has a leader.\<close>

definition task_law :: "kenv \<Rightarrow> bool" where
  "task_law K \<longleftrightarrow>
     (\<forall>t. t \<noteq> NULL \<longrightarrow>
        \<not> may_ptr K (TaskQ (Q_group_leader t)) NULL \<and> \<not> may_ptr K (TaskQ (Q_next_thread t)) NULL)"

lemma walk_threads_any:
  "(\<And>pos. Q pos d \<sigma>) \<Longrightarrow> owns d \<sigma> (walk_threads K leader pos nr) Q"
  by (induction nr arbitrary: pos) (auto intro!: owns_intros simp: kernel_defs)

lemma first_tid_any:
  assumes "Q NULL d \<sigma>" "\<And>pos. 0 < pos \<Longrightarrow> Q pos (add_mset (RTask pos) d) \<sigma>"
  shows "owns d \<sigma> (first_tid K leader tid nr ns) Q"
proof -
  have c: "owns e \<sigma> (cached_tid K leader tid m ns) R" if "\<And>pos. R pos e \<sigma>" for e R m
    unfolding cached_tid_def using that by (auto intro!: owns_intros simp: kernel_defs)
  show ?thesis
    unfolding first_tid_def using assms by (auto intro!: owns_intros c walk_threads_any simp: kernel_defs)
qed

lemma next_tid_any:
  assumes "task_law K" "0 < start" "Q NULL d \<sigma>" "\<And>pos. 0 < pos \<Longrightarrow> Q pos (add_mset (RTask pos) d) \<sigma>"
  shows "owns (add_mset (RTask start) d) \<sigma> (next_tid K start) Q"
proof -
  have "0 < x" if "may_ptr K (TaskQ (Q_next_thread start)) x" for x
    using assms(1,2) that unfolding task_law_def by (cases x) auto
  then show ?thesis
    unfolding next_tid_def using assms(3,4)
    by (auto intro!: owns_intros simp: kernel_defs add_mset_commute)
qed

lemma task_readdir_loop_any:
  assumes "d_add_law K" "task_law K" "dcache_ok K \<sigma>"
    and Q: "\<And>\<sigma>'. dcache_ok K \<sigma>' \<Longrightarrow> Q (Some ()) d \<sigma>'" "\<And>d' \<sigma>'. d \<subseteq># d' \<Longrightarrow> Q None d' \<sigma>'"
  shows "owns (if task = NULL then d else add_mset (RTask task) d) \<sigma> (task_readdir_loop K c filp ns n task) Q"
  using assms(3)
proof (induction n arbitrary: task \<sigma>)
  case 0
  then show ?case by (auto intro!: owns_intros Q)
next
  case (Suc n)
  have next0: "owns d \<sigma>' (task_readdir_loop K c filp ns n 0) Q" if "dcache_ok K \<sigma>'" for \<sigma>'
    using Suc.IH [OF that, of 0] by simp
  have next1: "owns (add_mset (RTask t) d) \<sigma>' (task_readdir_loop K c filp ns n t) Q"
    if "dcache_ok K \<sigma>'" "0 < t" for \<sigma>' t
    using Suc.IH [OF that(1), of t] that(2) by simp
  have dc: "dcache_ok K \<sigma>'" "dcache_ok K (with_version filp v \<sigma>')" if "fill_post K filp name \<sigma> r \<sigma>'" for name r \<sigma>' v
    using that by (simp_all add: fill_post_def read_frame_def)
  show ?case
    using Suc.prems assms(1)
    by (auto intro!: owns_intros tid_dir.fill_cache_spec next_tid_any [OF assms(2)] next0 next1 Q
        simp: kernel_defs proc_task_fill_cache_def) (erule dc)+
qed

lemma task_dots_any:
  assumes "dcache_ok K \<sigma>" "\<And>b \<sigma>'. dcache_ok K \<sigma>' \<Longrightarrow> Q b d \<sigma>'"
  shows "owns d \<sigma> (task_dots K filp dentry inode) Q"
  unfolding task_dots_def fill_dot_def using assms
  by (auto intro!: owns_intros simp: kernel_defs)

lemma proc_task_readdir_any:
  assumes "d_add_law K" "task_law K" "dcache_ok K \<sigma>"
    and Q: "\<And>r \<sigma>'. dcache_ok K \<sigma>' \<Longrightarrow> Q (Some r) d \<sigma>'" "\<And>d' \<sigma>'. Q None d' \<sigma>'"
  shows "owns d \<sigma> (proc_task_readdir K c n filp) Q"
proof -
  have leader: "0 < x" if "may_ptr K (TaskQ (Q_group_leader t)) x" "0 < t" for t x
    using assms(2) that unfolding task_law_def by (cases x) auto
  have leader0: "\<not> may_ptr K (TaskQ (Q_group_leader t)) 0" if "0 < t" for t
    using assms(2) that by (simp add: task_law_def)
  have loop0: "owns d \<sigma>' (task_readdir_loop K c filp ns n 0) R" if "dcache_ok K \<sigma>'"
      "\<And>\<sigma>'. dcache_ok K \<sigma>' \<Longrightarrow> R (Some ()) d \<sigma>'" "\<And>d' \<sigma>'. d \<subseteq># d' \<Longrightarrow> R None d' \<sigma>'" for d R \<sigma>' ns
    using task_readdir_loop_any [where task = 0 and Q = R and d = d, OF assms(1,2) that] by simp
  have loop1: "owns (add_mset (RTask t) d) \<sigma>' (task_readdir_loop K c filp ns n t) R" if "0 < t" "dcache_ok K \<sigma>'"
      "\<And>\<sigma>'. dcache_ok K \<sigma>' \<Longrightarrow> R (Some ()) d \<sigma>'" "\<And>d' \<sigma>'. d \<subseteq># d' \<Longrightarrow> R None d' \<sigma>'" for d R \<sigma>' ns t
    using task_readdir_loop_any [where task = t and Q = R and d = d, OF assms(1,2) that(2-)] that(1) by simp
  show ?thesis
    unfolding proc_task_readdir_def get_leader_def using assms(3)
    by (auto intro!: owns_intros task_dots_any first_tid_any loop0 loop1 Q simp: kernel_defs leader0
        dest: leader) (simp add: mset_subset_eq_insertD)+
qed

text \<open>
  Whatever the other CPUs do to the thread list meanwhile, a read of the \<open>task\<close>
  directory that ends gives back every task reference and lock it took: the references on the task,
  on its leader and on each thread on the way; and the dcache is still in order.
\<close>

theorem proc_task_readdir_balanced:
  assumes "d_add_law K" "task_law K" "dcache_ok K \<sigma>"
  shows "owns {#} \<sigma> (proc_task_readdir K c n filp)
    (\<lambda>r d \<sigma>'. r \<noteq> None \<longrightarrow> d = {#} \<and> dcache_ok K \<sigma>')"
  using assms by (auto intro: proc_task_readdir_any)

text \<open>
  \<open>stat\<close> of a \<open>task\<close> directory reports the generic attributes with one link
  more per thread of the process, none if the process is gone or has no signal state, and keeps no
  reference or lock.
\<close>

theorem proc_task_getattr_links:
  "owns {#} \<sigma> (proc_task_getattr K dentry)
     (\<lambda>(r, stat) d \<sigma>'. d = {#} \<and> \<sigma>' = \<sigma> \<and> r = 0 \<and>
        (\<exists>n. stat = (generic_fillattr K (inodes \<sigma> (d_inode (dentries \<sigma> dentry))))
             \<lparr>ks_nlink := ks_nlink (generic_fillattr K (inodes \<sigma> (d_inode (dentries \<sigma> dentry)))) + word_of_int n\<rparr> \<and>
           (n = 0 \<or> (\<exists>p. may_ptr K (TaskQ (Q_get_proc_task (d_inode (dentries \<sigma> dentry)))) p \<and> p \<noteq> NULL \<and>
              may_int K (TaskQ (Q_signal_count p)) n))))"
  unfolding proc_task_getattr_def
  by (auto intro!: owns_intros simp: kernel_defs)
    (rule exI [where x = 0], simp, rule exI [where x = 0], simp, rule exI, rule conjI, rule refl, blast)

end
