(* ===== verification/Fd_Readdir.thy ===== *)
theory Fd_Readdir
  imports Readdir
begin

text \<open>
  The \<open>readdir\<close> operations of the descriptor directories \<open>fd\<close> and \<open>fdinfo\<close>: descriptor
  \<open>n\<close> stands at position \<open>n + 2\<close>, and the read scans over the closed ones. The readers satisfy
  the contract \<open>scan_reader\<close>, from which follows what a caller gets in several calls.
\<close>

lemma u32_measure: "fd < m \<Longrightarrow> 2 ^ 32 - unat (fd + 1 :: u32) < 2 ^ 32 - unat fd"
proof -
  assume "fd < m"
  then have "unat (fd + 1) = Suc (unat fd)" by (rule unat_inc)
  moreover have "unat fd < 2 ^ LENGTH(32)" by (rule unsigned_less)
  ultimately show ?thesis by simp
qed

section \<open>Operations\<close>

text \<open>
  The loop over descriptors, entered and left under \<open>rcu_read_lock\<close>. \<open>max_fds\<close> is read
  anew in every iteration; as \<open>fd < max_fds\<close> the counter never wraps, which is why the loop ends.
\<close>

function readfd_loop ::
    "kenv \<Rightarrow> (u32 \<Rightarrow> ptr \<Rightarrow> ptr \<Rightarrow> ptr \<Rightarrow> dresult k) \<Rightarrow> ptr \<Rightarrow> ptr \<Rightarrow> ptr \<Rightarrow> u32 \<Rightarrow> unit k" where
  "readfd_loop K instantiate filp p files fd = do {
     m \<leftarrow> max_fds K files;
     (if fd < m then do {
        f \<leftarrow> fcheck_files K files fd;
        (if f = NULL then do {
           f_pos_inc filp;
           readfd_loop K instantiate filp p files (fd + 1)
         } else do {
           rcu_read_unlock;
           r \<leftarrow> proc_fill_cache K filp (snprintf_buf PROC_NUMBUF (fmt_d (s32 (uint fd)))) (instantiate fd) p;
           rcu_read_lock;
           (if r < 0 then return ()
            else do {
              f_pos_inc filp;
              readfd_loop K instantiate filp p files (fd + 1)
            })
         })
      } else return ())
   }"
  by pat_completeness auto
termination
  by (relation "measure (\<lambda>(K, inst, filp, p, files, fd). 2 ^ 32 - unat fd)")
    (auto dest: u32_measure)

declare readfd_loop.simps [simp del]

text \<open>The \<open>default\<close> case.\<close>

definition readfd_default ::
    "kenv \<Rightarrow> (u32 \<Rightarrow> ptr \<Rightarrow> ptr \<Rightarrow> ptr \<Rightarrow> dresult k) \<Rightarrow> ptr \<Rightarrow> ptr \<Rightarrow> unit k" where
  "readfd_default K instantiate filp p = do {
     files \<leftarrow> get_files_struct K p;
     (if files = NULL then return ()
      else do {
        rcu_read_lock;
        f \<leftarrow> get_filp filp;
        readfd_loop K instantiate filp p files (word_of_int (f_pos f - 2));
        rcu_read_unlock;
        put_files_struct files
      })
   }"

definition proc_readfd_common ::
    "kenv \<Rightarrow> (u32 \<Rightarrow> ptr \<Rightarrow> ptr \<Rightarrow> ptr \<Rightarrow> dresult k) \<Rightarrow> ptr \<Rightarrow> int k" where
  "proc_readfd_common K instantiate filp = do {
     f \<leftarrow> get_filp filp;
     inode \<leftarrow> file_inode filp;
     p \<leftarrow> get_proc_task K inode;
     (if p = NULL then return (- ENOENT)
      else do {
        let fd = (word_of_int (f_pos f) :: u32);
        ok \<leftarrow> (if fd = 0 then do {
            ino \<leftarrow> get_inode inode;
            fill_dot K filp ''.'' 0 (i_ino ino)
          } else return True);
        ok \<leftarrow> (if ok \<and> (fd = 0 \<or> fd = 1) then do {
            ino \<leftarrow> parent_ino K (f_dentry f);
            fill_dot K filp ''..'' 1 ino
          } else return ok);
        (if ok then readfd_default K instantiate filp p else return ());
        put_task_struct p;
        return 0
      })
   }"

definition proc_readfd :: "kenv \<Rightarrow> ptr \<Rightarrow> int k" where
  "proc_readfd K filp = proc_readfd_common K (proc_fd_instantiate K) filp"

definition proc_readfdinfo :: "kenv \<Rightarrow> ptr \<Rightarrow> int k" where
  "proc_readfdinfo K filp = proc_readfd_common K (proc_fdinfo_instantiate K) filp"

section \<open>Specifications\<close>

text \<open>
  The positions of a descriptor directory: the dots, then descriptor \<open>n\<close> at position
  \<open>n + 2\<close> under its decimal name. A gap is a descriptor that \<open>fcheck_files\<close> answered
  \<open>NULL\<close> for in the files of the directory's task. A read ends when the entry at the position is
  refused, when the task has no files, or behind the last descriptor of the table.
\<close>

definition fd_slot :: "int \<Rightarrow> string" where
  "fd_slot pos = (if pos = 0 then ''.'' else if pos = 1 then ''..'' else fmt_d (s32 (pos - 2)))"

definition files_of :: "kenv \<Rightarrow> ptr \<Rightarrow> ptr \<Rightarrow> bool" where
  "files_of K i files \<longleftrightarrow>
     (\<exists>task. dir_task K i task \<and> task \<noteq> NULL \<and> may_ptr K (VfsQ (Q_get_files_struct task)) files)"

definition fd_gap :: "kenv \<Rightarrow> ptr \<Rightarrow> int \<Rightarrow> bool" where
  "fd_gap K i pos \<longleftrightarrow>
     2 \<le> pos \<and> (\<exists>files. files_of K i files \<and> files \<noteq> NULL \<and>
       may_ptr K (VfsQ (Q_fcheck_files files (word_of_int (pos - 2)))) NULL)"

definition fd_end :: "kenv \<Rightarrow> ptr \<Rightarrow> int \<Rightarrow> bool" where
  "fd_end K i pos \<longleftrightarrow> refuses K (fd_slot pos) pos \<or>
     2 \<le> pos \<and> (files_of K i NULL \<or>
       (\<exists>files m. files_of K i files \<and> files \<noteq> NULL \<and> may_int K (VfsQ (Q_max_fds files)) m \<and>
          uint (word_of_int m :: u32) \<le> pos - 2))"

lemma files_ofI:
  "may_ptr K (TaskQ (Q_get_proc_task i)) task \<Longrightarrow> 0 < task \<Longrightarrow>
   may_ptr K (VfsQ (Q_get_files_struct task)) files \<Longrightarrow> files_of K i files"
  by (auto simp: files_of_def dir_task_def)

lemma fd_pos_ok: "f_pos (filps \<sigma> filp) = uint (fd :: u32) + 2 \<Longrightarrow> pos_ok filp \<sigma>"
  using uint_bounded [of fd] uint_nonnegative [of fd] by (simp add: pos_ok_def)

lemma fd_slot_name: "fd_slot (uint (fd :: u32) + 2) = snprintf_buf PROC_NUMBUF (fmt_d (s32 (uint fd)))"
proof -
  have "uint fd + 2 \<noteq> 0" "uint fd + 2 \<noteq> 1" using uint_nonnegative [of fd] by linarith+
  then show ?thesis
    unfolding fd_slot_def using s32_range [of "uint fd"] by (simp add: numbuf_fmt_d)
qed

text \<open>
  A scan never goes beyond the largest table of descriptors, unless it started there.
\<close>

definition fds_below :: "kenv \<Rightarrow> int \<Rightarrow> bool" where
  "fds_below K b \<longleftrightarrow> 0 \<le> b \<and>
     (\<forall>files m. may_int K (VfsQ (Q_max_fds files)) m \<longrightarrow> uint (word_of_int m :: u32) \<le> b)"

definition fd_bounded :: "kenv \<Rightarrow> int \<Rightarrow> int \<Rightarrow> bool" where
  "fd_bounded K p q \<longleftrightarrow> (\<forall>b. fds_below K b \<longrightarrow> q \<le> max p (b + 2))"

definition fd_scanned :: "kenv \<Rightarrow> ptr \<Rightarrow> ptr \<Rightarrow> store \<Rightarrow> store \<Rightarrow> bool" where
  "fd_scanned K i filp \<sigma> \<sigma>' \<longleftrightarrow>
     scanned K filp fd_slot (fd_gap K i) \<sigma> \<sigma>' \<and> fd_bounded K (f_pos (filps \<sigma> filp)) (f_pos (filps \<sigma>' filp))"

lemma fd_bounded_next:
  "may_int K (VfsQ (Q_max_fds files)) m \<Longrightarrow> fd < (word_of_int m :: u32) \<Longrightarrow> fd_bounded K p (uint fd + 3)"
  unfolding fd_bounded_def fds_below_def word_less_def by fastforce

lemma fd_bounded_low: "q \<le> 2 \<Longrightarrow> fd_bounded K p q"
  by (auto simp: fd_bounded_def fds_below_def)

lemma fd_scanned_refl: "dcache_ok K \<sigma> \<Longrightarrow> fd_scanned K i filp \<sigma> \<sigma>"
  by (simp add: fd_scanned_def scanned_refl fd_bounded_def)

lemma fd_scanned_trans:
  "fd_scanned K i filp \<sigma> \<sigma>1 \<Longrightarrow> fd_scanned K i filp \<sigma>1 \<sigma>2 \<Longrightarrow> fd_scanned K i filp \<sigma> \<sigma>2"
  unfolding fd_scanned_def fd_bounded_def by (force intro: scanned_trans)

lemma fd_scanned_dcache: "fd_scanned K i filp \<sigma> \<sigma>' \<Longrightarrow> dcache_ok K \<sigma>'"
  by (auto simp: fd_scanned_def scanned_dcache)

lemma fd_scanned_refused:
  "fill_post K filp name \<sigma> r \<sigma>' \<Longrightarrow> r < 0 \<Longrightarrow> fd_scanned K i filp \<sigma> \<sigma>' \<and>
     refuses K name (f_pos (filps \<sigma>' filp))"
  using fill_post_scanned_refused [of K filp name \<sigma> r \<sigma>' fd_slot "fd_gap K i"]
  by (auto simp: fd_scanned_def fd_bounded_def fill_post_def)

lemma fd_dot_scanned:
  assumes "listed K filp [name] \<sigma> \<sigma>'" "name = fd_slot (f_pos (filps \<sigma> filp))" "f_pos (filps \<sigma> filp) \<le> 1"
  shows "fd_scanned K i filp \<sigma> \<sigma>'"
  unfolding fd_scanned_def using assms listed_pos [OF assms(1)]
  by (auto intro!: listed_scanned [OF assms(1)] fd_bounded_low)

context fd_instantiator
begin

lemma readfd_loop_spec:
  assumes "d_add_law K" "dcache_ok K \<sigma>" "f_pos (filps \<sigma> filp) = uint fd + 2" "RLock Rcu_read \<in># d"
    and files: "files_of K i files" "0 < files"
    and "\<And>\<sigma>'. fd_scanned K i filp \<sigma> \<sigma>' \<Longrightarrow> fd_end K i (f_pos (filps \<sigma>' filp)) \<Longrightarrow> Q () d \<sigma>'"
  shows "owns d \<sigma> (readfd_loop K inst filp p files fd) Q"
  using assms(2,3,7)
proof (induction "2 ^ 32 - unat fd" arbitrary: fd \<sigma> rule: less_induct)
  case less
  note pos = fd_pos_ok [OF less.prems(2)]
  have next_fd: "owns d \<sigma>1 (readfd_loop K inst filp p files (fd + 1)) Q"
    if s: "scanned K filp fd_slot (fd_gap K i) \<sigma> \<sigma>1" "f_pos (filps \<sigma>1 filp) = uint fd + 3"
      "may_int K (VfsQ (Q_max_fds files)) m" "fd < word_of_int m" for \<sigma>1 m
  proof -
    have s': "fd_scanned K i filp \<sigma> \<sigma>1" using s fd_bounded_next [OF s(3,4)] by (simp add: fd_scanned_def)
    show ?thesis
      using less.prems s(2) uint_inc [OF s(4)] fd_scanned_dcache [OF s'] fd_scanned_trans [OF s']
      by (intro less.hyps [OF u32_measure [OF s(4)]]) auto
  qed
  have gap: "fd_gap K i (f_pos (filps \<sigma> filp))" if "may_ptr K (VfsQ (Q_fcheck_files files fd)) 0"
    using that less.prems(2) uint_nonnegative [of fd] files by (auto simp: fd_gap_def intro!: exI [where x = files])
  let ?name = "snprintf_buf PROC_NUMBUF (fmt_d (s32 (uint fd)))"
  let ?inc = "\<lambda>\<sigma>'. \<sigma>'\<lparr>filps := (filps \<sigma>')(filp := (filps \<sigma>' filp)\<lparr>f_pos := s64 (f_pos (filps \<sigma>' filp) + 1)\<rparr>)\<rparr>"
  have inc: "f_pos (filps (?inc \<sigma>') filp) = uint fd + 3" if "filps \<sigma>' = filps \<sigma>" for \<sigma>'
    using that less.prems(2) pos by (simp add: pos_ok_def)
  have filled: "owns d (?inc \<sigma>') (readfd_loop K inst filp p files (fd + 1)) Q"
    if f: "fill_post K filp ?name \<sigma> r \<sigma>'" "\<not> r < 0" "may_int K (VfsQ (Q_max_fds files)) m" "fd < word_of_int m" for r \<sigma>' m
  proof (rule next_fd [OF _ inc f(3,4)])
    have "fill_post K filp (fd_slot (f_pos (filps \<sigma> filp))) \<sigma> r \<sigma>'"
      using f(1) less.prems(2) by (simp add: fd_slot_name)
    then show "scanned K filp fd_slot (fd_gap K i) \<sigma> (?inc \<sigma>')"
      using f(2) pos by (intro fill_post_scanned) (simp_all add: not_less)
    show "filps \<sigma>' = filps \<sigma>" using f(1) by (simp add: fill_post_def)
  qed
  have skipped: "owns d (?inc \<sigma>) (readfd_loop K inst filp p files (fd + 1)) Q"
    if f: "may_ptr K (VfsQ (Q_fcheck_files files fd)) 0" "may_int K (VfsQ (Q_max_fds files)) m" "fd < word_of_int m" for m
    by (rule next_fd [OF scanned_skip [where gap = "fd_gap K i", OF less.prems(1) gap [OF f(1)] pos] inc f(2,3)]) simp
  have refused: "Q () d \<sigma>'" if "fill_post K filp ?name \<sigma> r \<sigma>'" "r < 0" for r \<sigma>'
    using fd_scanned_refused [OF that] that less.prems(2)
    by (intro less.prems(3)) (auto simp: fd_end_def fd_slot_name fill_post_def)
  have ended: "Q () d \<sigma>"
    if "may_int K (VfsQ (Q_max_fds files)) m" "\<not> fd < word_of_int m" for m
    using that less.prems(1,2) files by (intro less.prems(3) fd_scanned_refl)
      (auto simp: fd_end_def word_less_def not_less intro!: exI [where x = files])
  show ?case
    by (subst readfd_loop.simps,
        auto intro!: owns_intros fill_cache_spec filled skipped assms(1,4) less.prems(1)
          simp: kernel_defs assms(4) intro: ended)
      (blast intro: refused)+
qed

lemma readfd_default_spec:
  assumes "d_add_law K" "dcache_ok K \<sigma>" "2 \<le> f_pos (filps \<sigma> filp)" "f_pos (filps \<sigma> filp) < 2 ^ 32"
    and task: "may_ptr K (TaskQ (Q_get_proc_task i)) task" "0 < task"
    and Q: "\<And>\<sigma>'. fd_scanned K i filp \<sigma> \<sigma>' \<Longrightarrow> fd_end K i (f_pos (filps \<sigma>' filp)) \<Longrightarrow> Q () d \<sigma>'"
  shows "owns d \<sigma> (readfd_default K inst filp task) Q"
proof -
  define q where "q = f_pos (filps \<sigma> filp)"
  have u: "uint (word_of_int q - 2 :: u32) = q - 2"
    using assms(3,4) uint_word_of_int_eq [of "q - 2", where 'a = 32]
    by (simp add: q_def take_bit_int_eq_self)
  show ?thesis
    unfolding readfd_default_def using assms(1,2,3) files_ofI [OF task]
    by (auto intro!: owns_intros readfd_loop_spec Q fd_scanned_refl simp: kernel_defs u [unfolded q_def])
      (auto simp: fd_end_def)
qed

lemma readfd_common_spec:
  assumes "d_add_law K" "dcache_ok K \<sigma>" "p < 2 ^ 31"
    and p: "f_pos (filps \<sigma> filp) = int p" and i: "i = dir_of \<sigma> filp"
    and null: "task_gone K i \<Longrightarrow> Q (- ENOENT) d \<sigma>"
    and Q: "\<And>\<sigma>'. fd_scanned K i filp \<sigma> \<sigma>' \<Longrightarrow> fd_end K i (f_pos (filps \<sigma>' filp)) \<Longrightarrow> Q 0 d \<sigma>'"
  shows "owns d \<sigma> (proc_readfd_common K inst filp) Q"
proof -
  have w: "(word_of_int (int p) :: u32) = of_nat p" by simp
  have w0: "(of_nat p :: u32) = 0 \<longleftrightarrow> p = 0" "(of_nat p :: u32) = 1 \<longleftrightarrow> p = 1"
    using assms(3) unat_of_nat_less [of p, where 'a = 32]
    by (auto simp flip: word_unat_eq_iff simp: word_unat_eq_iff)
  have di: "d_inode (dentries \<sigma> (f_dentry (filps \<sigma> filp))) = i" using i by (simp add: dir_of_def)
  note intros = owns_intros fill_dot_spec readfd_default_spec [where i = i] null
  have dot: "fd_scanned K i filp \<sigma>' \<sigma>''"
    if "listed K filp [name] \<sigma>' \<sigma>''" "name = fd_slot (f_pos (filps \<sigma>' filp))" "f_pos (filps \<sigma>' filp) \<le> 1" for name \<sigma>' \<sigma>''
    using that by (rule fd_dot_scanned)
  have pos: "pos_ok filp \<sigma>'" if "f_pos (filps \<sigma>' filp) = 0 \<or> f_pos (filps \<sigma>' filp) = 1" for \<sigma>'
    using that by (auto simp: pos_ok_def)
  have slots: "fd_slot 0 = ''.''" "fd_slot 1 = ''..''" by (simp_all add: fd_slot_def)
  have stop: "Q 0 d \<sigma>'" if "fd_scanned K i filp \<sigma> \<sigma>'"
      "refuses K name q" "f_pos (filps \<sigma>' filp) = q" "fd_slot q = name" for \<sigma>' name q
    using that by (intro Q) (auto simp: fd_end_def)
  have go: "Q 0 d \<sigma>''" if "fd_scanned K i filp \<sigma> \<sigma>'"
      "fd_scanned K i filp \<sigma>' \<sigma>''" "fd_end K i (f_pos (filps \<sigma>'' filp))" for \<sigma>' \<sigma>''
    using that by (intro Q) (blast intro: fd_scanned_trans)+
  consider (0) "p = 0" | (1) "p = 1" | (2) "2 \<le> p" by linarith
  then show ?thesis
  proof cases
    case 0
    then have 1: "fd_scanned K i filp \<sigma> \<sigma>' \<and> f_pos (filps \<sigma>' filp) = 1"
      if "listed K filp [''.''] \<sigma> \<sigma>'" for \<sigma>'
      using that p slots listed_pos [OF that] by (auto intro: dot)
    have 2: "fd_scanned K i filp \<sigma> \<sigma>''"
      if "listed K filp [''.''] \<sigma> \<sigma>'" "listed K filp [''..''] \<sigma>' \<sigma>''" for \<sigma>' \<sigma>''
      by (rule fd_scanned_trans [OF conjunct1 [OF 1 [OF that(1)]] dot [OF that(2)]])
        (use 1 [OF that(1)] slots in auto)
    show ?thesis
      unfolding proc_readfd_common_def using assms(1-3) 0
      by (auto intro!: intros pos simp: kernel_defs p di listed_pos listed_dcache task_gone_def)
        (use p slots in \<open>auto intro: stop go fd_scanned_refl dest: 1 2\<close>)
  next
    case 1
    then have 2: "fd_scanned K i filp \<sigma> \<sigma>'" if "listed K filp [''..''] \<sigma> \<sigma>'" for \<sigma>'
      using that p slots by (auto intro: dot)
    show ?thesis
      unfolding proc_readfd_common_def using assms(1-3) 1
      by (auto intro!: intros pos simp: kernel_defs p di listed_pos listed_dcache task_gone_def)
        (use p slots in \<open>auto intro: stop go fd_scanned_refl dest: 2\<close>)
  next
    case 2
    then show ?thesis
      unfolding proc_readfd_common_def using assms(1-3)
      by (auto intro!: intros Q simp: kernel_defs p di w0 task_gone_def)
  qed
qed

end

section \<open>Properties\<close>

text \<open>
  Property C3. Reading \<open>fd\<close> or \<open>fdinfo\<close> from position \<open>p\<close>: the entries
  delivered are in strictly increasing order of position, descriptor \<open>n\<close> at position
  \<open>n + 2\<close> under its decimal name; a position is skipped only if the descriptor was found
  closed in that task; and the read ends only at an entry that is refused, without a task or
  files, or behind \<open>max_fds\<close>. The loop terminates for every kernel, and all references and the RCU lock are
  balanced although the loop drops the lock in each iteration.
\<close>

theorem proc_readfd_correct:
  assumes "d_add_law K" "dcache_ok K \<sigma>" "f_pos (filps \<sigma> filp) = int p" "p < 2 ^ 31"
  shows "owns {#} \<sigma> (proc_readfd K filp)
      (\<lambda>r d \<sigma>'. d = {#} \<and> (r = - ENOENT \<and> \<sigma>' = \<sigma> \<and> task_gone K (dir_of \<sigma> filp) \<or>
         r = 0 \<and> scanned K filp fd_slot (fd_gap K (dir_of \<sigma> filp)) \<sigma> \<sigma>' \<and> fd_end K (dir_of \<sigma> filp) (f_pos (filps \<sigma>' filp)))) \<and>
    owns {#} \<sigma> (proc_readfdinfo K filp)
      (\<lambda>r d \<sigma>'. d = {#} \<and> (r = - ENOENT \<and> \<sigma>' = \<sigma> \<and> task_gone K (dir_of \<sigma> filp) \<or>
         r = 0 \<and> scanned K filp fd_slot (fd_gap K (dir_of \<sigma> filp)) \<sigma> \<sigma>' \<and> fd_end K (dir_of \<sigma> filp) (f_pos (filps \<sigma>' filp))))"
  unfolding proc_readfd_def proc_readfdinfo_def
  using assms by (auto intro!: fd_dir.readfd_common_spec fdinfo_dir.readfd_common_spec simp: fd_scanned_def)

theorem proc_readfd_correct_witness:
  "d_add_law (ex_kernel 7 1) \<and> dcache_ok (ex_kernel 7 1) ex_store \<and> f_pos (filps ex_store 1) = int 0 \<and>
   (0 :: nat) < 2 ^ 31 \<and>
   owns {#} ex_store (proc_readfd (ex_kernel 7 1) 1)
      (\<lambda>r d \<sigma>'. d = {#} \<and> r = 0 \<and>
         scanned (ex_kernel 7 1) 1 fd_slot (\<lambda>_. False) ex_store \<sigma>' \<and> 3 \<le> f_pos (filps \<sigma>' 1))"
proof -
  have "fd_gap (ex_kernel 7 1) i = (\<lambda>_. False)" "fd_end (ex_kernel 7 1) i q \<Longrightarrow> 3 \<le> q" for i q
    by (auto simp: fd_gap_def fd_end_def files_of_def ex_kernel_accepts)
  then show ?thesis
    using proc_readfd_correct [of "ex_kernel 7 1" ex_store 1 0]
    by (auto elim!: owns_mono simp: ex_kernel_accepts)
qed

text \<open>Both directories satisfy the contract of a scanning reader, where tables of descriptors are bounded.\<close>

lemma scan_readerI:
  assumes "fd_instantiator K inst P fails"
  shows "scan_reader K (d_add_law K \<and> fds_below K (2 ^ 30)) (proc_readfd_common K inst) (- ENOENT) 0 fd_slot (fd_gap K) (fd_end K)
    (\<lambda>p. 0 \<le> p \<and> p \<le> 2 ^ 30 + 2)"
proof
  fix \<sigma> filp i d and Q :: "int \<Rightarrow> res multiset \<Rightarrow> store \<Rightarrow> bool"
  assume laws: "d_add_law K \<and> fds_below K (2 ^ 30)" and ok: "dcache_ok K \<sigma>"
    and p: "0 \<le> f_pos (filps \<sigma> filp) \<and> f_pos (filps \<sigma> filp) \<le> 2 ^ 30 + 2" and i: "i = dir_of \<sigma> filp"
    and null: "task_gone K i \<Longrightarrow> Q (- ENOENT) d \<sigma>"
    and Q: "\<And>\<sigma>'. scanned K filp fd_slot (fd_gap K i) \<sigma> \<sigma>' \<Longrightarrow> fd_end K i (f_pos (filps \<sigma>' filp)) \<Longrightarrow>
      0 \<le> f_pos (filps \<sigma>' filp) \<and> f_pos (filps \<sigma>' filp) \<le> 2 ^ 30 + 2 \<Longrightarrow> Q 0 d \<sigma>'"
  let ?p = "nat (f_pos (filps \<sigma> filp))"
  have "?p < 2 ^ 31" "f_pos (filps \<sigma> filp) = int ?p" using p by auto
  moreover have "0 \<le> f_pos (filps \<sigma>' filp) \<and> f_pos (filps \<sigma>' filp) \<le> 2 ^ 30 + 2"
    if "fd_scanned K i filp \<sigma> \<sigma>'" for \<sigma>'
    using that p laws by (force simp: fd_scanned_def fd_bounded_def scanned_def)
  ultimately show "owns d \<sigma> (proc_readfd_common K inst filp) Q"
    using laws ok i null Q by (intro fd_instantiator.readfd_common_spec [OF assms]) (auto simp: fd_scanned_def)
qed

interpretation fd_reader: scan_reader K "d_add_law K \<and> fds_below K (2 ^ 30)" "proc_readfd K" "- ENOENT" 0 fd_slot "fd_gap K"
    "fd_end K" "\<lambda>p. 0 \<le> p \<and> p \<le> 2 ^ 30 + 2" for K
  unfolding proc_readfd_def [abs_def] by (rule scan_readerI) unfold_locales

interpretation fdinfo_reader: scan_reader K "d_add_law K \<and> fds_below K (2 ^ 30)" "proc_readfdinfo K" "- ENOENT" 0 fd_slot "fd_gap K"
    "fd_end K" "\<lambda>p. 0 \<le> p \<and> p \<le> 2 ^ 30 + 2" for K
  unfolding proc_readfdinfo_def [abs_def] by (rule scan_readerI) unfold_locales

lemma fd_slot_simps: "0 \<le> fd \<Longrightarrow> fd < 2 ^ 31 \<Longrightarrow> fd_slot (fd + 2) = fmt_d fd"
  by (simp add: fd_slot_def)

lemma fd_slot_inj: "inj_on fd_slot {0 ..< 2 ^ 30 + 3}"
proof (rule inj_onI)
  fix p q
  assume "p \<in> {0 ..< 2 ^ 30 + 3}" "q \<in> {0 ..< 2 ^ 30 + 3}" "fd_slot p = fd_slot q"
  then show "p = q"
    by (auto simp: fd_slot_def fmt_d_inj fmt_d_digits is_digit_def split: if_splits)
qed

text \<open>
  What a reader of the directory \<open>i\<close> has after \<open>n\<close> calls with the results \<open>rs\<close>: beside the
  dots, names that a lookup takes for the descriptor of their position; every descriptor before the file
  position that was never found closed, exactly once; and the whole table, unless the task is gone, it has
  no files, or the next entry is refused.
\<close>

definition fds_delivered :: "kenv \<Rightarrow> ptr \<Rightarrow> ptr \<Rightarrow> nat \<Rightarrow> int list \<Rightarrow> store \<Rightarrow> store \<Rightarrow> bool" where
  "fds_delivered K i filp n rs \<sigma> \<sigma>' \<longleftrightarrow>
     (\<exists>new. dirents \<sigma>' = dirents \<sigma> @ new \<and>
        (\<forall>e \<in> set new. de_name e = ''.'' \<or> de_name e = ''..'' \<or> fd_named (de_name e) = Some (word_of_int (de_off e - 2))) \<and>
        (\<forall>fd. 0 \<le> fd \<longrightarrow> fd + 2 < f_pos (filps \<sigma>' filp) \<longrightarrow> \<not> fd_gap K i (fd + 2) \<longrightarrow> once (fmt_d fd) new)) \<and>
     results {- ENOENT, 0} (\<lambda>r. r = - ENOENT \<and> task_gone K i \<or> r = 0 \<and> fd_end K i (f_pos (filps \<sigma>' filp))) n rs"

lemma fds_deliveredI:
  assumes "scanned K filp fd_slot (fd_gap K i) \<sigma> \<sigma>'" "f_pos (filps \<sigma> filp) = 0"
    "f_pos (filps \<sigma>' filp) \<le> 2 ^ 30 + 2"
    "results {- ENOENT, 0} (\<lambda>r. r = - ENOENT \<and> task_gone K i \<or> r = 0 \<and> fd_end K i (f_pos (filps \<sigma>' filp))) n rs"
  shows "fds_delivered K i filp n rs \<sigma> \<sigma>'"
proof -
  have "inj_on fd_slot {f_pos (filps \<sigma> filp) ..< f_pos (filps \<sigma>' filp)}"
    by (rule inj_on_subset [OF fd_slot_inj]) (use assms(2,3) in auto)
  then obtain new where new: "dirents \<sigma>' = dirents \<sigma> @ new"
      "\<forall>e \<in> set new. 0 \<le> de_off e \<and> de_off e < f_pos (filps \<sigma>' filp) \<and> de_name e = fd_slot (de_off e)"
      "\<forall>j. 0 \<le> j \<longrightarrow> j < f_pos (filps \<sigma>' filp) \<longrightarrow> \<not> fd_gap K i j \<longrightarrow> once (fd_slot j) new"
    using scanned_once [OF assms(1)] assms(2) by auto
  have "de_name e = ''.'' \<or> de_name e = ''..'' \<or> fd_named (de_name e) = Some (word_of_int (de_off e - 2))"
    if "e \<in> set new" for e
    using bspec [OF new(2) that] assms(3) fd_named_fmt_d [of "de_off e - 2"] by (auto simp: fd_slot_def)
  moreover have "once (fmt_d fd) new" if "0 \<le> fd" "fd + 2 < f_pos (filps \<sigma>' filp)" "\<not> fd_gap K i (fd + 2)" for fd
    using new(3) [rule_format, of "fd + 2"] that assms(3) by (simp add: fd_slot_simps)
  ultimately show ?thesis unfolding fds_delivered_def using new(1) assms(4) by blast
qed

text \<open>
  Property C9. The descriptors of a process, read in any number of calls from the start of \<open>fd\<close> or
  \<open>fdinfo\<close>, each of which may stop early, while other descriptors come and go: every descriptor
  before the file position that stays open is delivered exactly once under its decimal name, and a
  lookup of a delivered name asks for the descriptor that was listed; the reading has not come to the
  end of the table only if the next entry is refused or the process or its files are gone.
\<close>

theorem fd_listing_complete:
  assumes "d_add_law K" "fds_below K (2 ^ 30)" "dcache_ok K \<sigma>" "f_pos (filps \<sigma> filp) = 0"
    "pinned K (f_dentry (filps \<sigma> filp))"
  shows "owns {#} \<sigma> (read_times (proc_readfd K) filp n)
      (\<lambda>rs d \<sigma>'. d = {#} \<and> fds_delivered K (dir_of \<sigma> filp) filp n rs \<sigma> \<sigma>') \<and>
    owns {#} \<sigma> (read_times (proc_readfdinfo K) filp n)
      (\<lambda>rs d \<sigma>'. d = {#} \<and> fds_delivered K (dir_of \<sigma> filp) filp n rs \<sigma> \<sigma>')"
  using assms
  by (auto intro!: fd_reader.read_times_scanned [where i = "dir_of \<sigma> filp"]
      fdinfo_reader.read_times_scanned [where i = "dir_of \<sigma> filp"] scanned_refl fds_deliveredI
      simp: fd_reader.stopped_def [abs_def] fdinfo_reader.stopped_def [abs_def])

theorem fd_listing_complete_witness:
  "d_add_law (ex_kernel 7 1) \<and> fds_below (ex_kernel 7 1) (2 ^ 30) \<and> dcache_ok (ex_kernel 7 1) ex_store \<and>
   f_pos (filps ex_store 1) = 0 \<and> pinned (ex_kernel 7 1) (f_dentry (filps ex_store 1)) \<and>
   owns {#} ex_store (read_times (proc_readfd (ex_kernel 7 1)) 1 2)
    (\<lambda>_ d \<sigma>'. d = {#} \<and> (\<exists>new. dirents \<sigma>' = dirents ex_store @ new \<and> once ''0'' new))"
proof -
  have g: "\<not> fd_gap (ex_kernel 7 1) i q" "fd_end (ex_kernel 7 1) i q \<Longrightarrow> 3 \<le> q" for i q
    by (auto simp: fd_gap_def fd_end_def files_of_def ex_kernel_accepts)
  have b: "fds_below (ex_kernel 7 1) (2 ^ 30)" by (simp add: fds_below_def)
  have z: "fmt_d 0 = ''0''" by code_simp
  have "\<exists>new. dirents \<sigma>' = dirents ex_store @ new \<and> once ''0'' new"
    if "fds_delivered (ex_kernel 7 1) (dir_of ex_store 1) 1 2 rs ex_store \<sigma>'" for rs \<sigma>'
    using that g z by (force simp: fds_delivered_def ex_kernel_accepts results_def)
  then show ?thesis
    using fd_listing_complete [of "ex_kernel 7 1" ex_store 1 2] b by (auto elim!: owns_mono simp: ex_pinned)
qed

end
