(* ===== verification/Proc_Mem.thy ===== *)
theory Proc_Mem
  imports Pid_Inode
begin

text \<open>
  Files that show the memory of another process: \<open>check_mem_permission\<close>,
  \<open>mm_for_maps\<close>, \<open>cmdline\<close>, \<open>auxv\<close>, \<open>mem\<close> and \<open>environ\<close>. The loops
  over user memory take fuel, since they end only because \<open>access_process_vm\<close> copies at least
  one byte and at most what was asked for. A \<open>read\<close> operation takes \<open>*ppos\<close> and returns
  the result and the new \<open>*ppos\<close>.
\<close>

section \<open>Operations\<close>

definition field_u32 :: "kenv \<Rightarrow> query \<Rightarrow> u32 k" where [kernel_defs]:
  "field_u32 K q = do { r \<leftarrow> ask_int K q; return (word_of_int r) }"

definition check_mem_permission :: "kenv \<Rightarrow> ptr \<Rightarrow> int k" where
  "check_mem_permission K task = do {
     cur \<leftarrow> current K;
     (if task = cur then return 0
      else do {
        stopped \<leftarrow> ask_int K (AccessQ (Q_task_is_stopped_or_traced task));
        (if stopped \<noteq> 0 then do {
           rcu_read_lock;
           tracer \<leftarrow> ask_ptr K (AccessQ (Q_tracehook_tracer_task task));
           cur \<leftarrow> current K;
           let match = (tracer = cur);
           rcu_read_unlock;
           may \<leftarrow> (if match then ptrace_may_access K task PTRACE_MODE_ATTACH else return 0);
           return (if may \<noteq> 0 then 0 else - EPERM)
         } else return (- EPERM))
      })
   }"

definition mm_for_maps :: "kenv \<Rightarrow> ptr \<Rightarrow> ptr k" where
  "mm_for_maps K task = do {
     mm \<leftarrow> get_task_mm K task;
     (if mm = NULL then return NULL
      else do {
        down_read_mmap mm;
        task_lock task;
        tmm \<leftarrow> task_mm K task;
        bad \<leftarrow> (if tmm \<noteq> mm then return True
          else do {
            cur \<leftarrow> current K;
            cmm \<leftarrow> task_mm K cur;
            (if tmm \<noteq> cmm then do {
               r \<leftarrow> ptrace_may_access_locked K task PTRACE_MODE_READ;
               return (r < 0)
             } else return False)
          });
        task_unlock task;
        (if bad then do {
           up_read_mmap mm;
           mmput mm;
           return NULL
         } else return mm)
      })
   }"

text \<open>A \<open>proc_read\<close> function returns its result and the bytes it left in the page.\<close>

definition proc_pid_cmdline :: "kenv \<Rightarrow> ptr \<Rightarrow> (int \<times> string) k" where
  "proc_pid_cmdline K task = do {
     mm \<leftarrow> get_task_mm K task;
     (if mm = NULL then return (0, [])
      else do {
        arg_end \<leftarrow> field_u32 K (MmQ (Q_arg_end mm));
        r \<leftarrow> (if arg_end = 0 then return (0, [])
          else do {
            arg_end \<leftarrow> field_u32 K (MmQ (Q_arg_end mm));
            arg_start \<leftarrow> field_u32 K (MmQ (Q_arg_start mm));
            let len = min (unat (arg_end - arg_start)) PAGE_SIZE;
            (res, buffer) \<leftarrow> access_process_vm K task arg_start len;
            (if res > 0 \<and> buffer ! (nat res - 1) \<noteq> CHR 0x00 \<and> len < PAGE_SIZE then do {
               let n = strnlen buffer (nat res);
               (if n < nat res then return (int n, buffer)
                else do {
                  env_end \<leftarrow> field_u32 K (MmQ (Q_env_end mm));
                  env_start \<leftarrow> field_u32 K (MmQ (Q_env_start mm));
                  let len = min (unat (env_end - env_start)) (PAGE_SIZE - nat res);
                  (res2, buffer2) \<leftarrow> access_process_vm K task env_start len;
                  let buffer = take (nat res) buffer @ buffer2;
                  return (int (strnlen buffer (nat (res + res2))), buffer)
                })
             } else return (res, buffer))
          });
        mmput mm;
        return r
      })
   }"

text \<open>\<open>do { nwords += 2; } while (saved_auxv[nwords - 2] != 0);\<close>\<close>

fun auxv_words :: "kenv \<Rightarrow> ptr \<Rightarrow> nat \<Rightarrow> nat \<Rightarrow> nat option k" where
  "auxv_words K mm 0 nwords = return None"
| "auxv_words K mm (Suc n) nwords = do {
     w \<leftarrow> ask_int K (MmQ (Q_saved_auxv mm nwords));
     (if w \<noteq> 0 then auxv_words K mm n (nwords + 2) else return (Some (nwords + 2)))
   }"

definition proc_pid_auxv :: "kenv \<Rightarrow> nat \<Rightarrow> ptr \<Rightarrow> (int \<times> string) option k" where
  "proc_pid_auxv K n task = do {
     mm \<leftarrow> get_task_mm K task;
     (if mm \<noteq> NULL then do {
        nwords \<leftarrow> auxv_words K mm n 0;
        (case nwords of None \<Rightarrow> return None
         | Some nwords \<Rightarrow> do {
             let res = min (nwords * 4) PAGE_SIZE;
             bytes \<leftarrow> ask_str K (TaskQ (Q_field mm ''saved_auxv''));
             mmput mm;
             return (Some (int res, take res bytes))
           })
      } else return (Some (0, [])))
   }"

definition mem_open :: "kenv \<Rightarrow> ptr \<Rightarrow> int k" where
  "mem_open K file = do {
     cur \<leftarrow> current K;
     self_exec_id \<leftarrow> ask_int K (TaskQ (Q_self_exec_id cur));
     upd_filp file (\<lambda>f. f\<lparr>f_private := Private_long (s32 self_exec_id)\<rparr>);
     return 0
   }"

fun mem_read_loop :: "kenv \<Rightarrow> ptr \<Rightarrow> nat \<Rightarrow> nat \<Rightarrow> u32 \<Rightarrow> int \<Rightarrow> (int \<times> u32) option k" where
  "mem_read_loop K task 0 cnt src ret = return None"
| "mem_read_loop K task (Suc n) cnt src ret =
     (if cnt = 0 then return (Some (ret, src))
      else do {
        let this_len = min cnt PAGE_SIZE;
        (retval, page) \<leftarrow> access_process_vm K task src this_len;
        denied \<leftarrow> (if retval = 0 then return 1 else check_mem_permission K task);
        (if denied \<noteq> 0 then return (Some (if ret = 0 then - EIO else ret, src))
         else do {
           fault \<leftarrow> copy_to_user K (take (nat retval) page);
           (if fault \<noteq> 0 then return (Some (- EFAULT, src))
            else mem_read_loop K task n (cnt - nat retval) (src + word_of_int retval) (s32 (ret + retval)))
         })
      })"

definition mem_read :: "kenv \<Rightarrow> nat \<Rightarrow> ptr \<Rightarrow> nat \<Rightarrow> int \<Rightarrow> (int \<times> int) option k" where
  "mem_read K n file cnt ppos = do {
     inode \<leftarrow> file_inode file;
     task \<leftarrow> get_proc_task K inode;
     (if task = NULL then return (Some (- ESRCH, ppos))
      else do {
        denied \<leftarrow> check_mem_permission K task;
        r \<leftarrow> (if denied \<noteq> 0 then return (Some (- ESRCH, ppos))
          else do {
            page \<leftarrow> get_free_page K;
            (if page = NULL then return (Some (- ENOMEM, ppos))
             else do {
               mm \<leftarrow> get_task_mm K task;
               r \<leftarrow> (if mm = NULL then return (Some (0, ppos))
                 else do {
                   f \<leftarrow> get_filp file;
                   cur \<leftarrow> current K;
                   self_exec_id \<leftarrow> ask_int K (TaskQ (Q_self_exec_id cur));
                   r \<leftarrow> (if f_private f \<noteq> Private_long (s32 self_exec_id) then return (Some (- EIO, ppos))
                     else do {
                       r \<leftarrow> mem_read_loop K task n cnt (word_of_int ppos) 0;
                       return (map_option (\<lambda>(ret, src). (ret, uint src)) r)
                     });
                   mmput mm;
                   return r
                 });
               free_page page;
               return r
             })
          });
        put_task_struct task;
        return r
      })
   }"

text \<open>
  \<open>mem_write\<close> is compiled only without the line \<open>#define mem_write NULL\<close> in front of it. It
  returns \<open>copied\<close> and the new \<open>*ppos\<close>.
\<close>

fun mem_write_loop ::
    "kenv \<Rightarrow> ptr \<Rightarrow> nat \<Rightarrow> ptr \<Rightarrow> nat \<Rightarrow> u32 \<Rightarrow> int \<Rightarrow> (int \<times> u32) option k" where
  "mem_write_loop K task 0 buf cnt dst copied = return None"
| "mem_write_loop K task (Suc n) buf cnt dst copied =
     (if cnt = 0 then return (Some (copied, dst))
      else do {
        let this_len = min cnt PAGE_SIZE;
        (fault, page) \<leftarrow> copy_from_user K buf this_len;
        (if fault \<noteq> 0 then return (Some (- EFAULT, dst))
         else do {
           retval \<leftarrow> write_process_vm K task dst page this_len;
           (if retval = 0 then return (Some (if copied = 0 then - EIO else copied, dst))
            else mem_write_loop K task n (buf + nat retval) (cnt - nat retval) (dst + word_of_int retval)
              (s32 (copied + retval)))
         })
      })"

definition mem_write :: "kenv \<Rightarrow> nat \<Rightarrow> ptr \<Rightarrow> ptr \<Rightarrow> nat \<Rightarrow> int \<Rightarrow> (int \<times> int) option k" where
  "mem_write K n file buf cnt ppos = do {
     inode \<leftarrow> file_inode file;
     task \<leftarrow> get_proc_task K inode;
     (if task = NULL then return (Some (- ESRCH, ppos))
      else do {
        denied \<leftarrow> check_mem_permission K task;
        r \<leftarrow> (if denied \<noteq> 0 then return (Some (- ESRCH, ppos))
          else do {
            page \<leftarrow> get_free_page K;
            (if page = NULL then return (Some (- ENOMEM, ppos))
             else do {
               r \<leftarrow> mem_write_loop K task n buf cnt (word_of_int ppos) 0;
               free_page page;
               return (map_option (\<lambda>(copied, dst). (copied, uint dst)) r)
             })
          });
        put_task_struct task;
        return r
      })
   }"

definition mem_lseek :: "ptr \<Rightarrow> int \<Rightarrow> int \<Rightarrow> int k" where
  "mem_lseek file offset orig = do {
     ok \<leftarrow> (if orig = 0 then do { upd_filp file (\<lambda>f. f\<lparr>f_pos := offset\<rparr>); return True }
       else if orig = 1 then do { upd_filp file (\<lambda>f. f\<lparr>f_pos := s64 (f_pos f + offset)\<rparr>); return True }
       else return False);
     (if \<not> ok then return (- EINVAL)
      else do {
        emit (Fx Force_successful_syscall_return);
        f \<leftarrow> get_filp file;
        return (f_pos f)
      })
   }"

text \<open>\<open>this_len = mm->env_end - (mm->env_start + src)\<close>, an \<open>int\<close>\<close>

definition env_left :: "u32 \<Rightarrow> u32 \<Rightarrow> u32 \<Rightarrow> int" where
  "env_left env_start env_end src = s32 (uint (env_end - (env_start + src)))"

fun environ_read_loop :: "kenv \<Rightarrow> ptr \<Rightarrow> ptr \<Rightarrow> nat \<Rightarrow> nat \<Rightarrow> u32 \<Rightarrow> int \<Rightarrow> (int \<times> u32) option k" where
  "environ_read_loop K task mm 0 cnt src ret = return None"
| "environ_read_loop K task mm (Suc n) cnt src ret =
     (if cnt = 0 then return (Some (ret, src))
      else do {
        env_end \<leftarrow> field_u32 K (MmQ (Q_env_end mm));
        env_start \<leftarrow> field_u32 K (MmQ (Q_env_start mm));
        let this_len = env_left env_start env_end src;
        (if this_len \<le> 0 then return (Some (ret, src))
         else do {
           let max_len = min cnt PAGE_SIZE;
           let this_len = min (nat this_len) max_len;
           env_start \<leftarrow> field_u32 K (MmQ (Q_env_start mm));
           (retval, page) \<leftarrow> access_process_vm K task (env_start + src) this_len;
           (if retval \<le> 0 then return (Some (retval, src))
            else do {
              fault \<leftarrow> copy_to_user K (take (nat retval) page);
              (if fault \<noteq> 0 then return (Some (- EFAULT, src))
               else environ_read_loop K task mm n (cnt - nat retval) (src + word_of_int retval) (s32 (ret + retval)))
            })
         })
      })"

definition environ_read :: "kenv \<Rightarrow> nat \<Rightarrow> ptr \<Rightarrow> nat \<Rightarrow> int \<Rightarrow> (int \<times> int) option k" where
  "environ_read K n file cnt ppos = do {
     inode \<leftarrow> file_inode file;
     task \<leftarrow> get_proc_task K inode;
     (if task = NULL then return (Some (- ESRCH, ppos))
      else do {
        may \<leftarrow> ptrace_may_access K task PTRACE_MODE_READ;
        r \<leftarrow> (if may = 0 then return (Some (- ESRCH, ppos))
          else do {
            page \<leftarrow> get_free_page K;
            (if page = NULL then return (Some (- ENOMEM, ppos))
             else do {
               mm \<leftarrow> get_task_mm K task;
               r \<leftarrow> (if mm = NULL then return (Some (0, ppos))
                 else do {
                   r \<leftarrow> environ_read_loop K task mm n cnt (word_of_int ppos) 0;
                   mmput mm;
                   return (map_option (\<lambda>(ret, src). (ret, uint src)) r)
                 });
               free_page page;
               return r
             })
          });
        put_task_struct task;
        return r
      })
   }"

section \<open>Specifications\<close>

text \<open>What \<open>access_process_vm\<close> promises: it reports how much of what was asked for it copied.\<close>

definition vm_law :: "kenv \<Rightarrow> bool" where
  "vm_law K \<longleftrightarrow>
     (\<forall>task addr len r. may_int K (MmQ (Q_access_process_vm task addr len)) r \<longrightarrow> 0 \<le> r \<and> r \<le> int len) \<and>
     (\<forall>task addr len bs. may_str K (MmQ (Q_vm_bytes task addr len)) bs \<longrightarrow> length bs = len)"

lemma vm_lawD:
  assumes "vm_law K"
  shows "may_int K (MmQ (Q_access_process_vm task addr len)) r \<Longrightarrow> 0 \<le> r \<and> r \<le> int len"
    "may_str K (MmQ (Q_vm_bytes task addr len)) bs \<Longrightarrow> length bs = len"
  using assms unfolding vm_law_def by blast+

text \<open>Who may look at the memory of \<open>task\<close>: itself, or its tracer that could attach to it now.\<close>

definition mem_allowed :: "kenv \<Rightarrow> ptr \<Rightarrow> bool" where
  "mem_allowed K task \<longleftrightarrow>
     may_ptr K (TaskQ Q_current) task \<or>
     (\<exists>st cur x. may_int K (AccessQ (Q_task_is_stopped_or_traced task)) st \<and> st \<noteq> 0 \<and>
        may_ptr K (TaskQ Q_current) cur \<and> may_ptr K (AccessQ (Q_tracehook_tracer_task task)) cur \<and>
        may_int K (AccessQ (Q_ptrace_may_access task PTRACE_MODE_ATTACH)) x \<and> x \<noteq> 0)"

lemma check_mem_permission_spec [owns_intros]:
  assumes yes: "mem_allowed K task \<Longrightarrow> Q 0 d \<sigma>" and no: "Q (- EPERM) d \<sigma>"
  shows "owns d \<sigma> (check_mem_permission K task) Q"
proof -
  have 1: "Q 0 d \<sigma>" if "may_ptr K (TaskQ Q_current) task"
    using that yes by (simp add: mem_allowed_def)
  have 2: "Q 0 d \<sigma>" if "may_int K (AccessQ (Q_task_is_stopped_or_traced task)) st" "st \<noteq> 0"
      "may_ptr K (TaskQ Q_current) cur" "may_ptr K (AccessQ (Q_tracehook_tracer_task task)) cur"
      "may_int K (AccessQ (Q_ptrace_may_access task PTRACE_MODE_ATTACH)) x" "x \<noteq> 0" for st cur x
    using that yes unfolding mem_allowed_def by blast
  show ?thesis
    unfolding check_mem_permission_def
    by (auto intro!: owns_intros no simp: kernel_defs) (blast intro: 1 2)+
qed

text \<open>
  What a read loop has done: \<open>bs\<close> were copied out, and the position moved on by their number; the
  result is their number, or an error. With \<open>eof\<close> the result may also be 0 whatever was copied.
\<close>

definition copied :: "bool \<Rightarrow> string \<Rightarrow> nat \<Rightarrow> u32 \<Rightarrow> int \<Rightarrow> int \<times> u32 \<Rightarrow> bool" where
  "copied eof bs cnt src ret r \<longleftrightarrow>
     length bs \<le> cnt \<and> snd r = src + of_nat (length bs) \<and>
     (fst r = ret + int (length bs) \<or> eof \<and> fst r = 0 \<or> fst r = - EIO \<and> ret + int (length bs) = 0 \<or> fst r = - EFAULT)"

lemma copied_append:
  assumes "copied eof bs (cnt - length as) (src + of_nat (length as)) (ret + int (length as)) r"
    "length as \<le> cnt"
  shows "copied eof (as @ bs) cnt src ret r"
  using assms by (auto simp: copied_def)

lemma mem_read_loop_spec:
  assumes law: "vm_law K"
    and "cnt < n" "0 \<le> ret" "ret + int cnt < 2 ^ 31"
    and "\<And>r bs. copied False bs cnt src ret r \<Longrightarrow> (bs \<noteq> [] \<Longrightarrow> mem_allowed K task) \<Longrightarrow>
      Q (Some r) d (\<sigma>\<lparr>uout := uout \<sigma> @ bs\<rparr>)"
  shows "owns d \<sigma> (mem_read_loop K task n cnt src ret) Q"
  using assms(2-)
proof (induction n arbitrary: cnt src ret \<sigma>)
  case 0
  then show ?case by simp
next
  case (Suc n)
  have stop: "Q (Some r) d \<sigma>" if "copied False [] cnt src ret r" for r
    using Suc.prems(4) [OF that] by simp
  have go: "owns d (\<sigma>\<lparr>uout := uout \<sigma> @ take (nat r) page\<rparr>)
      (mem_read_loop K task n (cnt - nat r) (src + word_of_int r) ret') Q"
    if r: "may_int K (MmQ (Q_access_process_vm task src (min cnt 4096))) r"
      "may_str K (MmQ (Q_vm_bytes task src (min cnt 4096))) page" "r \<noteq> 0" "mem_allowed K task"
      and ret: "ret' = s32 (ret + r)" for r page ret'
  proof (rule Suc.IH)
    have b: "0 < r" "r \<le> int (min cnt 4096)" "length page = min cnt 4096"
      using vm_lawD [OF law] r by force+
    then have l: "length (take (nat r) page) = nat r" by simp
    have s: "ret' = ret + r" using b Suc.prems(2,3) ret by simp
    show "cnt - nat r < n" "0 \<le> ret'" "ret' + int (cnt - nat r) < 2 ^ 31"
      using b Suc.prems(1-3) s by auto
    fix x bs
    assume "copied False bs (cnt - nat r) (src + word_of_int r) ret' x"
    then have "copied False (take (nat r) page @ bs) cnt src ret x"
      using b l s by (intro copied_append) auto
    from Suc.prems(4) [OF this] r(4)
    show "Q (Some x) d (\<sigma>\<lparr>uout := uout \<sigma> @ take (nat r) page\<rparr>
        \<lparr>uout := uout (\<sigma>\<lparr>uout := uout \<sigma> @ take (nat r) page\<rparr>) @ bs\<rparr>)"
      by simp
  qed
  show ?case
    using Suc.prems(1,2)
    by (auto intro!: owns_intros stop go simp: kernel_defs copied_def split: prod.splits)
qed

lemma environ_read_loop_spec:
  assumes law: "vm_law K"
    and "cnt < n" "0 \<le> ret" "ret + int cnt < 2 ^ 31"
    and "\<And>r bs. copied True bs cnt src ret r \<Longrightarrow> Q (Some r) d (\<sigma>\<lparr>uout := uout \<sigma> @ bs\<rparr>)"
  shows "owns d \<sigma> (environ_read_loop K task mm n cnt src ret) Q"
  using assms(2-)
proof (induction n arbitrary: cnt src ret \<sigma>)
  case 0
  then show ?case by simp
next
  case (Suc n)
  have stop: "Q (Some r) d \<sigma>" if "copied True [] cnt src ret r" for r
    using Suc.prems(4) [OF that] by simp
  have go: "owns d (\<sigma>\<lparr>uout := uout \<sigma> @ take (nat r) page\<rparr>)
      (environ_read_loop K task mm n (cnt - nat r) (src + word_of_int r) ret') Q"
    if r: "may_int K (MmQ (Q_access_process_vm task addr len)) r"
      "may_str K (MmQ (Q_vm_bytes task addr len)) page" "\<not> r \<le> 0" and len: "len \<le> cnt"
      and ret: "ret' = s32 (ret + r)" for r page ret' addr len
  proof (rule Suc.IH)
    have b: "0 < r" "r \<le> int len" "length page = len" using vm_lawD [OF law] r by force+
    then have l: "length (take (nat r) page) = nat r" by simp
    have s: "ret' = ret + r" using b Suc.prems(2,3) ret len by simp
    show "cnt - nat r < n" "0 \<le> ret'" "ret' + int (cnt - nat r) < 2 ^ 31"
      using b Suc.prems(1-3) s len by auto
    fix x bs
    assume "copied True bs (cnt - nat r) (src + word_of_int r) ret' x"
    then have "copied True (take (nat r) page @ bs) cnt src ret x"
      using b l len s by (intro copied_append) auto
    from Suc.prems(4) [OF this]
    show "Q (Some x) d (\<sigma>\<lparr>uout := uout \<sigma> @ take (nat r) page\<rparr>
        \<lparr>uout := uout (\<sigma>\<lparr>uout := uout \<sigma> @ take (nat r) page\<rparr>) @ bs\<rparr>)"
      by simp
  qed
  have z: "r = 0" if "may_int K (MmQ (Q_access_process_vm task addr len)) r" "r \<le> 0" for r addr len
    using vm_lawD(1) [OF law that(1)] that(2) by simp
  show ?case
    using Suc.prems(1,2)
    by (auto intro!: owns_intros stop go simp: kernel_defs copied_def split: prod.splits)
      (blast dest: z | simp add: min_le_iff_disj)+
qed

text \<open>The outcome of a read of \<open>mem\<close>.\<close>

definition mem_read_post ::
    "kenv \<Rightarrow> ptr \<Rightarrow> nat \<Rightarrow> int \<Rightarrow> store \<Rightarrow> (int \<times> int) option \<Rightarrow> store \<Rightarrow> bool" where
  "mem_read_post K file cnt ppos \<sigma> r \<sigma>' \<longleftrightarrow>
     (\<exists>ret. r = Some (ret, ppos) \<and> \<sigma>' = \<sigma> \<and> ret \<in> {- ESRCH, - ENOMEM, 0, - EIO}) \<or>
     (\<exists>ret src bs. r = Some (ret, uint src) \<and> \<sigma>' = \<sigma>\<lparr>uout := uout \<sigma> @ bs\<rparr> \<and>
        copied False bs cnt (word_of_int ppos) 0 (ret, src) \<and>
        (bs \<noteq> [] \<longrightarrow>
          (\<exists>task. may_ptr K (TaskQ (Q_get_proc_task (d_inode (dentries \<sigma> (f_dentry (filps \<sigma> file)))))) task \<and>
             mem_allowed K task) \<and>
          (\<exists>cur x. may_ptr K (TaskQ Q_current) cur \<and> may_int K (TaskQ (Q_self_exec_id cur)) x \<and>
             f_private (filps \<sigma> file) = Private_long (s32 x))))"

lemma mem_read_post_nothing:
  "ret \<in> {- 3, - 12, 0, - 5} \<Longrightarrow> mem_read_post K file cnt ppos \<sigma> (Some (ret, ppos)) \<sigma>"
  by (simp add: mem_read_post_def)

lemma mem_read_post_copied:
  assumes "copied False bs cnt (word_of_int ppos) 0 (ret, src)"
    "may_ptr K (TaskQ (Q_get_proc_task (d_inode (dentries \<sigma> (f_dentry (filps \<sigma> file)))))) task"
    "bs \<noteq> [] \<longrightarrow> mem_allowed K task" "may_ptr K (TaskQ Q_current) cur"
    "may_int K (TaskQ (Q_self_exec_id cur)) x" "f_private (filps \<sigma> file) = Private_long (s32 x)"
  shows "mem_read_post K file cnt ppos \<sigma> (Some (ret, uint src)) (\<sigma>\<lparr>uout := uout \<sigma> @ bs\<rparr>)"
  unfolding mem_read_post_def using assms by blast

text \<open>The outcome of a read of \<open>environ\<close>.\<close>

definition environ_read_post ::
    "kenv \<Rightarrow> ptr \<Rightarrow> nat \<Rightarrow> int \<Rightarrow> store \<Rightarrow> (int \<times> int) option \<Rightarrow> store \<Rightarrow> bool" where
  "environ_read_post K file cnt ppos \<sigma> r \<sigma>' \<longleftrightarrow>
     (\<exists>ret. r = Some (ret, ppos) \<and> \<sigma>' = \<sigma> \<and> ret \<in> {- ESRCH, - ENOMEM, 0}) \<or>
     (\<exists>ret src bs. r = Some (ret, uint src) \<and> \<sigma>' = \<sigma>\<lparr>uout := uout \<sigma> @ bs\<rparr> \<and>
        copied True bs cnt (word_of_int ppos) 0 (ret, src) \<and>
        (\<exists>task x. may_ptr K (TaskQ (Q_get_proc_task (d_inode (dentries \<sigma> (f_dentry (filps \<sigma> file)))))) task \<and>
           may_int K (AccessQ (Q_ptrace_may_access task PTRACE_MODE_READ)) x \<and> x \<noteq> 0))"

lemma environ_read_post_nothing:
  "ret \<in> {- 3, - 12, 0} \<Longrightarrow> environ_read_post K file cnt ppos \<sigma> (Some (ret, ppos)) \<sigma>"
  by (simp add: environ_read_post_def)

lemma environ_read_post_copied:
  assumes "copied True bs cnt (word_of_int ppos) 0 (ret, src)"
    "may_ptr K (TaskQ (Q_get_proc_task (d_inode (dentries \<sigma> (f_dentry (filps \<sigma> file)))))) task"
    "may_int K (AccessQ (Q_ptrace_may_access task 1)) x" "x \<noteq> 0"
  shows "environ_read_post K file cnt ppos \<sigma> (Some (ret, uint src)) (\<sigma>\<lparr>uout := uout \<sigma> @ bs\<rparr>)"
  unfolding environ_read_post_def using assms by blast

section \<open>Properties\<close>

lemma mem_read_spec:
  assumes "vm_law K" "cnt < n" "cnt < 2 ^ 31"
  shows "owns {#} \<sigma> (mem_read K n file cnt ppos)
    (\<lambda>r d \<sigma>'. d = {#} \<and> mem_read_post K file cnt ppos \<sigma> r \<sigma>')"
  unfolding mem_read_def using assms(3)
  by (auto intro!: owns_intros mem_read_loop_spec [OF assms(1,2)] mem_read_post_nothing simp: kernel_defs)
    (blast intro: mem_read_post_copied mem_read_post_copied [where bs = "[]", simplified])+


text \<open>A process that reads its own memory.\<close>

definition ex_vm :: kenv where
  "ex_vm = (ex_kernel 7 1)\<lparr>ans_str := \<lambda>_ q.
     (case q of MmQ (Q_vm_bytes task addr len) \<Rightarrow> replicate len CHR ''x'' | _ \<Rightarrow> []),
     ans_int := \<lambda>_ q. (case q of MmQ (Q_access_process_vm task addr len) \<Rightarrow> int len | _ \<Rightarrow> 0)\<rparr>"

lemma ex_vm_law [simp]: "vm_law ex_vm"
  by (auto simp: vm_law_def ex_vm_def may_int_def may_str_def)


lemma environ_read_spec:
  assumes "vm_law K" "cnt < n" "cnt < 2 ^ 31"
  shows "owns {#} \<sigma> (environ_read K n file cnt ppos)
    (\<lambda>r d \<sigma>'. d = {#} \<and> environ_read_post K file cnt ppos \<sigma> r \<sigma>')"
  unfolding environ_read_def using assms(3)
  by (auto intro!: owns_intros environ_read_loop_spec [OF assms(1,2)] environ_read_post_nothing simp: kernel_defs)
    (erule (3) environ_read_post_copied [simplified])



lemma strnlen_no_nul: "CHR 0x00 \<notin> set (take (strnlen s n) s)"
proof -
  have "take (strnlen s n) s = take (strnlen s n) (take n s)"
    by (simp add: min_absorb1)
  also have "\<dots> = takeWhile (\<lambda>c. c \<noteq> CHR 0x00) (take n s)"
    unfolding strnlen_def by (rule takeWhile_eq_take [symmetric])
  finally show ?thesis using set_takeWhileD by force
qed

lemma env_left_inside:
  assumes e: "uint env_start \<le> uint env_end" "uint env_end - uint env_start < 2 ^ 30"
    and s: "uint src \<le> uint env_end - uint env_start"
  shows "env_left env_start env_end src = uint env_end - uint env_start - uint src \<and>
    uint (env_start + src) = uint env_start + uint src"
proof -
  have "uint env_end < 2 ^ 32" using uint_bounded [of env_end] by simp
  then have 1: "uint (env_start + src) = uint env_start + uint src"
    using s by (simp flip: uint_add_lem)
  then have 2: "uint (env_end - (env_start + src)) = uint env_end - uint env_start - uint src"
    using s uint_sub_lem [of "env_start + src" env_end] by simp
  have "uint env_end - uint env_start - uint src \<le> uint env_end - uint env_start" by simp
  also have "\<dots> < 2 ^ 31" using e(2) by simp
  finally have "s32 (uint env_end - uint env_start - uint src) = uint env_end - uint env_start - uint src"
    using s by (intro s32_id) simp_all
  with 1 2 show ?thesis by (simp add: env_left_def)
qed

lemma env_left_wraps:
  assumes e: "uint env_start \<le> uint env_end" "uint env_end - uint env_start < 2 ^ 30" "2 ^ 30 \<le> uint env_start"
    and k: "0 < k" "k < 2 ^ 30"
  shows "0 < env_left env_start env_end (- word_of_int k) \<and>
    uint (env_start - word_of_int k) = uint env_start - k"
proof -
  have "uint (word_of_int k :: u32) = k"
    using k by (simp add: uint_word_of_int_eq take_bit_int_eq_self)
  then have 1: "uint (env_start - word_of_int k) = uint env_start - k"
    using uint_sub_lem [of "word_of_int k" env_start] k e(3) by simp
  then have "uint (env_end - (env_start - word_of_int k)) = uint env_end - (uint env_start - k)"
    using uint_sub_lem [of "env_start - word_of_int k" env_end] k e by simp
  then show ?thesis using 1 e k by (simp add: env_left_def)
qed

text \<open>
  The range check of \<open>environ\<close> is done in wrapping arithmetic. For a position inside
  the environment it is right: what is asked for lies between \<open>env_start\<close> and
  \<open>env_end\<close>. For a position just below \<open>2\<^sup>32\<close> it is not: the check passes although the
  address read lies \<open>k\<close> bytes before \<open>env_start\<close>.
\<close>

theorem environ_range_check:
  assumes "env_start \<le> env_end" "uint env_end - uint env_start < 2 ^ 30" "2 ^ 30 \<le> uint env_start"
  shows "(uint src \<le> uint env_end - uint env_start \<longrightarrow>
      env_left env_start env_end src = uint env_end - uint env_start - uint src \<and>
      uint (env_start + src) = uint env_start + uint src) \<and>
    (0 < k \<and> k < 2 ^ 30 \<longrightarrow>
      0 < env_left env_start env_end (- word_of_int k) \<and>
      uint (env_start - word_of_int k) = uint env_start - k)"
  using assms env_left_inside [of env_start env_end src] env_left_wraps [of env_start env_end k]
  unfolding word_le_def by blast

theorem environ_range_check_witness:
  "(0xBFFFF000 :: u32) \<le> 0xBFFFF100 \<and> 0 < env_left 0xBFFFF000 0xBFFFF100 (- 4096)"
  using environ_range_check [where env_start = "0xBFFFF000" and env_end = "0xBFFFF100" and k = 4096] by simp

text \<open>The outcome of \<open>mm_for_maps\<close>: nothing held, or the descriptor with its semaphore.\<close>

definition maps_post :: "kenv \<Rightarrow> ptr \<Rightarrow> ptr \<Rightarrow> res multiset \<Rightarrow> bool" where
  "maps_post K task mm d \<longleftrightarrow>
     (if mm = NULL then d = {#}
      else d = {# RMm mm, RLock (Mmap_sem mm) #} \<and>
        may_ptr K (MmQ (Q_get_task_mm task)) mm \<and> may_ptr K (MmQ (Q_task_mm task)) mm \<and>
        ((\<exists>cur. may_ptr K (TaskQ Q_current) cur \<and> may_ptr K (MmQ (Q_task_mm cur)) mm) \<or>
         (\<exists>r. may_int K (AccessQ (Q_ptrace_may_access_locked task PTRACE_MODE_READ)) r \<and> 0 \<le> r)))"

lemma maps_postI:
  assumes "may_ptr K (MmQ (Q_get_task_mm task)) mm" "may_ptr K (MmQ (Q_task_mm task)) mm" "0 < mm"
    "d = {# RLock (Mmap_sem mm), RMm mm #}"
    "(may_ptr K (TaskQ Q_current) cur \<and> may_ptr K (MmQ (Q_task_mm cur)) mm) \<or>
     (may_int K (AccessQ (Q_ptrace_may_access_locked task (Suc 0))) r \<and> \<not> r < 0)"
  shows "maps_post K task mm d"
  using assms by (auto simp: maps_post_def add_mset_commute)

text \<open>
  Property C19. \<open>mm_for_maps\<close> either returns \<open>NULL\<close> and holds nothing, or returns the memory
  descriptor of the task with exactly one reference on it and its semaphore held for reading; the
  task lock is dropped on every path. It returns a descriptor only if the task still had it under
  the lock, and only if it is the caller's own or the caller may trace the task.
\<close>

theorem mm_for_maps_correct:
  "owns {#} \<sigma> (mm_for_maps K task) (\<lambda>mm d \<sigma>'. \<sigma>' = \<sigma> \<and> maps_post K task mm d)"
  unfolding mm_for_maps_def
  by (auto intro!: owns_intros simp: kernel_defs)
    (auto intro: maps_postI simp: maps_post_def)

text \<open>
  The outcome of \<open>cmdline\<close>: a count within the page and the bytes that were read, and what is shown
  is free of NULs (a process title) or ends in one, unless the arguments fill the page.
\<close>

definition cmdline_post :: "kenv \<Rightarrow> int \<times> string \<Rightarrow> bool" where
  "cmdline_post K r \<longleftrightarrow>
     0 \<le> fst r \<and> fst r \<le> int PAGE_SIZE \<and> fst r \<le> int (length (snd r)) \<and>
     (CHR 0x00 \<notin> set (take (nat (fst r)) (snd r)) \<or>
      last (take (nat (fst r)) (snd r)) = CHR 0x00 \<or>
      (\<exists>mm e s. may_int K (MmQ (Q_arg_end mm)) e \<and> may_int K (MmQ (Q_arg_start mm)) s \<and>
         PAGE_SIZE \<le> unat (word_of_int e - word_of_int s :: u32)))"

lemma cmdline_post_title:
  assumes "n \<le> PAGE_SIZE" "n \<le> length buffer"
  shows "cmdline_post K (int (strnlen buffer n), buffer)"
  using le_trans [OF strnlen_le assms(1)] le_trans [OF strnlen_le assms(2)] strnlen_no_nul [of buffer n]
  by (auto simp: cmdline_post_def)

lemma cmdline_post_args:
  assumes "0 \<le> res" "nat res \<le> min (unat (word_of_int e - word_of_int s :: u32)) PAGE_SIZE"
    "length buffer = min (unat (word_of_int e - word_of_int s :: u32)) PAGE_SIZE"
    "may_int K (MmQ (Q_arg_end mm)) e" "may_int K (MmQ (Q_arg_start mm)) s"
    "res > 0 \<longrightarrow> buffer ! (nat res - 1) = CHR 0x00 \<or> \<not> unat (word_of_int e - word_of_int s :: u32) < PAGE_SIZE"
  shows "cmdline_post K (res, buffer)"
proof (cases "res = 0")
  case True
  then show ?thesis by (simp add: cmdline_post_def)
next
  case False
  then have "last (take (nat res) buffer) = buffer ! (nat res - 1)"
    using assms(1-3) by (subst last_conv_nth) auto
  then show ?thesis using False assms by (auto simp: cmdline_post_def not_less)
qed

lemma cmdline_spec:
  assumes law: "vm_law K"
  shows "owns {#} \<sigma> (proc_pid_cmdline K task) (\<lambda>r d \<sigma>'. d = {#} \<and> \<sigma>' = \<sigma> \<and> cmdline_post K r)"
proof -
  have vm: "0 \<le> r \<and> nat r \<le> len \<and> length bs = len"
    if "may_int K (MmQ (Q_access_process_vm task addr len)) r" "may_str K (MmQ (Q_vm_bytes task addr len)) bs"
    for addr len r bs
    using vm_lawD(1) [OF law that(1)] vm_lawD(2) [OF law that(2)] by auto
  have none: "cmdline_post K (0, [])" by (simp add: cmdline_post_def)
  have short: "cmdline_post K (int (strnlen buffer (nat res)), buffer)"
    if "may_int K (MmQ (Q_access_process_vm task a len)) res" "may_str K (MmQ (Q_vm_bytes task a len)) buffer"
      "len \<le> PAGE_SIZE" for a len res buffer
    using vm [OF that(1,2)] that(3) by (intro cmdline_post_title) auto
  have env: "cmdline_post K (int (strnlen (take (nat res) buffer @ buffer2) (nat (res + res2))), take (nat res) buffer @ buffer2)"
    if "may_int K (MmQ (Q_access_process_vm task a len)) res" "may_str K (MmQ (Q_vm_bytes task a len)) buffer"
      "may_int K (MmQ (Q_access_process_vm task b (min x (4096 - nat res)))) res2"
      "may_str K (MmQ (Q_vm_bytes task b (min x (4096 - nat res)))) buffer2"
      "len \<le> PAGE_SIZE" for a b len x res res2 buffer buffer2
  proof (rule cmdline_post_title)
    have "nat (res + res2) = nat res + nat res2"
      using vm [OF that(1,2)] vm [OF that(3,4)] by (simp add: nat_add_distrib)
    moreover have "nat res \<le> len" "nat res2 \<le> PAGE_SIZE - nat res" "nat res2 \<le> length buffer2"
      using vm [OF that(1,2)] vm [OF that(3,4)] by simp_all
    moreover have "length (take (nat res) buffer @ buffer2) = nat res + length buffer2"
      using vm [OF that(1,2)] by simp
    ultimately show "nat (res + res2) \<le> PAGE_SIZE" "nat (res + res2) \<le> length (take (nat res) buffer @ buffer2)"
      using that(5) by linarith+
  qed
  have args: "cmdline_post K (res, buffer)"
    if "may_int K (MmQ (Q_access_process_vm task a (min (unat (word_of_int e - word_of_int s :: u32)) 4096))) res"
      "may_str K (MmQ (Q_vm_bytes task a (min (unat (word_of_int e - word_of_int s :: u32)) 4096))) buffer"
      "may_int K (MmQ (Q_arg_end mm)) e" "may_int K (MmQ (Q_arg_start mm)) s"
      "res > 0 \<longrightarrow> buffer ! (nat res - 1) = CHR 0x00 \<or> \<not> unat (word_of_int e - word_of_int s :: u32) < 4096"
    for a e s mm res buffer
    using vm [OF that(1,2)] that by (intro cmdline_post_args [of _ e s _ _ mm]) auto
  have full: "cmdline_post K (res, buffer)"
    if "may_int K (MmQ (Q_access_process_vm task a 4096)) res" "may_str K (MmQ (Q_vm_bytes task a 4096)) buffer"
      "\<not> min (unat (word_of_int e - word_of_int s :: u32)) 4096 < 4096"
      "may_int K (MmQ (Q_arg_end mm)) e" "may_int K (MmQ (Q_arg_start mm)) s" for a e s mm res buffer
    using vm [OF that(1,2)] that by (intro cmdline_post_args [of _ e s _ _ mm]) auto
  show ?thesis
    unfolding proc_pid_cmdline_def
    by (auto intro!: owns_intros simp: kernel_defs split: prod.splits)
      ((rule none) | (erule (1) short, simp) | (erule (3) env, simp) | (erule (3) args, simp) | (rule full, assumption+))+
qed



section \<open>Writing memory\<close>

text \<open>
  What a write promises: at most what was asked for is written, and a page filled from user memory
  has as many bytes as were asked for.
\<close>

definition vm_write_law :: "kenv \<Rightarrow> bool" where
  "vm_write_law K \<longleftrightarrow>
     (\<forall>task addr len r. may_int K (MmQ (Q_vm_write task addr len)) r \<longrightarrow> 0 \<le> r \<and> r \<le> int len) \<and>
     (\<forall>buf len bs. may_str K (MmQ (Q_user_bytes buf len)) bs \<longrightarrow> length bs = len)"

lemma vm_write_lawD:
  assumes "vm_write_law K"
  shows "may_int K (MmQ (Q_vm_write task addr len)) r \<Longrightarrow> 0 \<le> r \<and> r \<le> int len"
    "may_str K (MmQ (Q_user_bytes buf len)) bs \<Longrightarrow> length bs = len"
  using assms unfolding vm_write_law_def by blast+

text \<open>
  The writes \<open>ws\<close> put consecutive parts of the user buffer at consecutive addresses of the task.
\<close>

fun writes_user ::
    "kenv \<Rightarrow> ptr \<Rightarrow> ptr \<Rightarrow> nat \<Rightarrow> u32 \<Rightarrow> (ptr \<times> u32 \<times> string) list \<Rightarrow> bool" where
  "writes_user K task buf cnt dst [] = True"
| "writes_user K task buf cnt dst ((t, a, bs) # ws) =
     (t = task \<and> a = dst \<and> length bs \<le> cnt \<and>
      (\<exists>page. may_str K (MmQ (Q_user_bytes buf (min cnt PAGE_SIZE))) page \<and> bs = take (length bs) page) \<and>
      writes_user K task (buf + length bs) (cnt - length bs) (dst + of_nat (length bs)) ws)"

definition bytes_of :: "(ptr \<times> u32 \<times> string) list \<Rightarrow> nat" where
  "bytes_of ws = sum_list (map (\<lambda>(t, a, bs). length bs) ws)"

lemma bytes_of_simps [simp]:
  "bytes_of [] = 0" "bytes_of ((t, a, bs) # ws) = length bs + bytes_of ws"
  by (simp_all add: bytes_of_def)

definition wrote ::
    "kenv \<Rightarrow> ptr \<Rightarrow> ptr \<Rightarrow> nat \<Rightarrow> u32 \<Rightarrow> int \<Rightarrow> (ptr \<times> u32 \<times> string) list \<Rightarrow> int \<times> u32 \<Rightarrow> bool" where
  "wrote K task buf cnt dst acc ws r \<longleftrightarrow>
     writes_user K task buf cnt dst ws \<and> bytes_of ws \<le> cnt \<and> snd r = dst + of_nat (bytes_of ws) \<and>
     (fst r = acc + int (bytes_of ws) \<or> fst r = - EIO \<and> acc + int (bytes_of ws) = 0 \<or> fst r = - EFAULT)"

lemma wrote_Cons:
  assumes "wrote K task (buf + length bs) (cnt - length bs) (dst + of_nat (length bs)) (acc + int (length bs)) ws r"
    "may_str K (MmQ (Q_user_bytes buf (min cnt PAGE_SIZE))) page" "bs = take (length bs) page" "length bs \<le> cnt"
  shows "wrote K task buf cnt dst acc ((task, dst, bs) # ws) r"
  using assms by (auto simp: wrote_def add.assoc)

lemma mem_write_loop_spec:
  assumes law: "vm_write_law K"
    and "cnt < n" "0 \<le> acc" "acc + int cnt < 2 ^ 31"
    and "\<And>r ws. wrote K task buf cnt dst acc ws r \<Longrightarrow> Q (Some r) d (\<sigma>\<lparr>vm_writes := vm_writes \<sigma> @ ws\<rparr>)"
  shows "owns d \<sigma> (mem_write_loop K task n buf cnt dst acc) Q"
  using assms(2-)
proof (induction n arbitrary: buf cnt dst acc \<sigma>)
  case 0
  then show ?case by simp
next
  case (Suc n)
  have stop: "Q (Some r) d \<sigma>" if "wrote K task buf cnt dst acc [] r" for r
    using Suc.prems(4) [OF that] by simp
  have go: "owns d (\<sigma>\<lparr>vm_writes := vm_writes \<sigma> @ [(task, dst, take (nat r) page)]\<rparr>)
      (mem_write_loop K task n (buf + nat r) (cnt - nat r) (dst + word_of_int r) acc') Q"
    if r: "may_int K (MmQ (Q_vm_write task dst (min cnt 4096))) r"
      "may_str K (MmQ (Q_user_bytes buf (min cnt 4096))) page" "r \<noteq> 0"
      and dn: "acc' = s32 (acc + r)" for r page acc'
  proof (rule Suc.IH)
    have b: "0 < r" "r \<le> int (min cnt 4096)" "length page = min cnt 4096"
      using vm_write_lawD [OF law] r by force+
    then have l: "length (take (nat r) page) = nat r" by simp
    have s: "acc' = acc + r" using b Suc.prems(2,3) dn by simp
    show "cnt - nat r < n" "0 \<le> acc'" "acc' + int (cnt - nat r) < 2 ^ 31"
      using b Suc.prems(1-3) s by auto
    fix x ws
    assume "wrote K task (buf + nat r) (cnt - nat r) (dst + word_of_int r) acc' ws x"
    then have "wrote K task buf cnt dst acc ((task, dst, take (nat r) page) # ws) x"
      using b l s r(2) by (intro wrote_Cons [where page = page]) auto
    from Suc.prems(4) [OF this]
    show "Q (Some x) d (\<sigma>\<lparr>vm_writes := vm_writes \<sigma> @ [(task, dst, take (nat r) page)]\<rparr>
        \<lparr>vm_writes := vm_writes (\<sigma>\<lparr>vm_writes := vm_writes \<sigma> @ [(task, dst, take (nat r) page)]\<rparr>) @ ws\<rparr>)"
      by simp
  qed
  have none: "Q (Some (if acc = 0 then - EIO else acc, dst)) d
      (\<sigma>\<lparr>vm_writes := vm_writes \<sigma> @ [(task, dst, [])]\<rparr>)"
    if "may_str K (MmQ (Q_user_bytes buf (min cnt 4096))) page" for page
    using that by (intro Suc.prems(4)) (auto simp: wrote_def)
  show ?case
    using Suc.prems(1,2)
    by (auto intro!: owns_intros stop go simp: kernel_defs wrote_def split: prod.splits)
      (use none in auto)
qed

text \<open>The outcome of a write to \<open>mem\<close>.\<close>

definition mem_write_post ::
    "kenv \<Rightarrow> ptr \<Rightarrow> ptr \<Rightarrow> nat \<Rightarrow> int \<Rightarrow> store \<Rightarrow> (int \<times> int) option \<Rightarrow> store \<Rightarrow> bool" where
  "mem_write_post K file buf cnt ppos \<sigma> r \<sigma>' \<longleftrightarrow>
     (\<exists>ret. r = Some (ret, ppos) \<and> \<sigma>' = \<sigma> \<and> ret \<in> {- ESRCH, - ENOMEM}) \<or>
     (\<exists>ret dst ws task. r = Some (ret, uint dst) \<and> \<sigma>' = \<sigma>\<lparr>vm_writes := vm_writes \<sigma> @ ws\<rparr> \<and>
        may_ptr K (TaskQ (Q_get_proc_task (d_inode (dentries \<sigma> (f_dentry (filps \<sigma> file)))))) task \<and>
        mem_allowed K task \<and> wrote K task buf cnt (word_of_int ppos) 0 ws (ret, dst))"

lemma mem_write_post_wrote:
  assumes "wrote K task buf cnt (word_of_int ppos) 0 ws (ret, dst)" "mem_allowed K task"
    "may_ptr K (TaskQ (Q_get_proc_task (d_inode (dentries \<sigma> (f_dentry (filps \<sigma> file)))))) task"
  shows "mem_write_post K file buf cnt ppos \<sigma> (Some (ret, uint dst)) (\<sigma>\<lparr>vm_writes := vm_writes \<sigma> @ ws\<rparr>)"
  unfolding mem_write_post_def using assms by blast

text \<open>
  Writing to \<open>mem\<close>, were it compiled in: the call ends and is balanced; the memory of the task of the
  file, and no other, is written, only if the caller is that task or its tracer, with consecutive
  bytes of the caller's buffer at consecutive addresses from the position on; the position moves on
  by their number, which is the result unless it is an error. \<open>-EFAULT\<close> is also possible after
  bytes were written.
\<close>

theorem mem_write_correct:
  assumes "vm_write_law K" "cnt < n" "cnt < 2 ^ 31"
  shows "owns {#} \<sigma> (mem_write K n file buf cnt ppos)
    (\<lambda>r d \<sigma>'. d = {#} \<and> mem_write_post K file buf cnt ppos \<sigma> r \<sigma>')"
  unfolding mem_write_def using assms(3)
  by (auto intro!: owns_intros mem_write_loop_spec [OF assms(1,2)] simp: kernel_defs)
    (auto intro: mem_write_post_wrote simp: mem_write_post_def)

end
