(* ===== verification/Proc_Text.thy ===== *)
theory Proc_Text
  imports Proc_Mem Name_Int
begin

text \<open>
  Files whose contents are formatted text: the \<open>proc_read\<close> functions (\<open>wchan\<close>,
  \<open>schedstat\<close>, \<open>oom_score\<close>, \<open>limits\<close>, \<open>syscall\<close>, \<open>io\<close>) with
  \<open>proc_info_read\<close>, which calls them through the inode, and the \<open>proc_show\<close> functions
  (\<open>stack\<close>, \<open>personality\<close>, \<open>latency\<close>, \<open>sched\<close>) with the
  \<open>seq_file\<close> glue around them. A \<open>proc_read\<close> function returns its result and the bytes in
  the page, a \<open>proc_show\<close> function its result and the text given to \<open>seq_printf\<close>.
  The text of \<open>status\<close>, \<open>stat\<close> and \<open>statm\<close> comes from \<open>array.c\<close>, which
  is not part of the sources; it is an answer of the kernel.
\<close>

section \<open>Calls\<close>

text \<open>A field, or the result of a function without effects, of the rest of the kernel.\<close>

definition call_int :: "kenv \<Rightarrow> string \<Rightarrow> int list \<Rightarrow> int k" where [kernel_defs]:
  "call_int K f xs = ask_int K (TaskQ (Q_call f xs))"

definition call_str :: "kenv \<Rightarrow> string \<Rightarrow> int list \<Rightarrow> string k" where [kernel_defs]:
  "call_str K f xs = ask_str K (TaskQ (Q_call f xs))"

definition field_u64 :: "kenv \<Rightarrow> ptr \<Rightarrow> string \<Rightarrow> u64 k" where [kernel_defs]:
  "field_u64 K p f = do { r \<leftarrow> ask_int K (TaskQ (Q_field p f)); return (word_of_int r) }"

definition elem_u32 :: "kenv \<Rightarrow> ptr \<Rightarrow> string \<Rightarrow> nat \<Rightarrow> u32 k" where [kernel_defs]:
  "elem_u32 K p f i = field_u32 K (TaskQ (Q_elem p f i))"

definition kmalloc :: "kenv \<Rightarrow> nat \<Rightarrow> ptr k" where [kernel_defs]:
  "kmalloc K n = acq_ptr K (MmQ (Q_kmalloc n)) RMem"

definition kfree :: "ptr \<Rightarrow> unit k" where [kernel_defs]:
  "kfree p = (if p = NULL then return () else emit (Rel (RMem p)))"

text \<open>\<open>return sprintf(buffer, ...)\<close>\<close>

definition sprintf :: "string \<Rightarrow> (int \<times> string) k" where
  "sprintf s = return (int (length s), s)"

text \<open>\<open>%lu\<close>, \<open>%llu\<close>, \<open>%lx\<close> and \<open>%p\<close> of a word\<close>

definition fmt_lu :: "'a::len word \<Rightarrow> string" where "fmt_lu w = fmt_u (unat w)"
definition fmt_lx :: "'a::len word \<Rightarrow> string" where "fmt_lx w = fmt_x (unat w)"
definition fmt_p :: "u32 \<Rightarrow> string" where "fmt_p w = fmt_zpad 8 (fmt_lx w)"

text \<open>
  \<open>simple_read_from_buffer(buf, count, ppos, from, available)\<close> of \<open>fs/libfs.c\<close>: its result
  is an answer of the kernel; a positive result is the number of bytes copied out from the position,
  which moves on by as many.
\<close>

definition simple_read_from_buffer :: "kenv \<Rightarrow> nat \<Rightarrow> int \<Rightarrow> string \<Rightarrow> (int \<times> int) k" where
  "simple_read_from_buffer K cnt ppos from = do {
     r \<leftarrow> ask_int K (VfsQ (Q_simple_read cnt ppos from));
     (if 0 < r then do {
        upd_st (\<lambda>\<sigma>. \<sigma>\<lparr>uout := uout \<sigma> @ take (nat r) (drop (nat ppos) from)\<rparr>);
        return (r, ppos + r)
      } else return (r, ppos))
   }"

section \<open>The \<open>proc_read\<close> functions\<close>

definition proc_pid_wchan :: "kenv \<Rightarrow> ptr \<Rightarrow> (int \<times> string) k" where
  "proc_pid_wchan K task = do {
     w \<leftarrow> call_int K ''get_wchan'' [int task];
     let wchan = (word_of_int w :: u32);
     r \<leftarrow> call_int K ''lookup_symbol_name'' [uint wchan];
     symname \<leftarrow> call_str K ''lookup_symbol_name'' [uint wchan];
     (if r < 0 then do {
        may \<leftarrow> ptrace_may_access K task PTRACE_MODE_READ;
        (if may = 0 then return (0, []) else sprintf (fmt_lu wchan))
      } else sprintf symname)
   }"

definition proc_pid_schedstat :: "kenv \<Rightarrow> ptr \<Rightarrow> (int \<times> string) k" where
  "proc_pid_schedstat K task = do {
     a \<leftarrow> field_u64 K task ''se.sum_exec_runtime'';
     b \<leftarrow> field_u64 K task ''sched_info.run_delay'';
     c \<leftarrow> field_u32 K (TaskQ (Q_field task ''sched_info.pcount''));
     sprintf (fmt_lu a @ '' '' @ fmt_lu b @ '' '' @ fmt_lu c @ ''\<newline>'')
   }"

definition proc_oom_score :: "kenv \<Rightarrow> ptr \<Rightarrow> (int \<times> string) k" where
  "proc_oom_score K task = do {
     uptime \<leftarrow> call_int K ''do_posix_clock_monotonic_gettime'' [];
     take_lock Tasklist_lock;
     p \<leftarrow> call_int K ''badness'' [int task, uptime];
     let points = (word_of_int p :: u32);
     drop_lock Tasklist_lock;
     sprintf (fmt_lu points @ ''\<newline>'')
   }"

record limit_names =
  limit_name :: string
  limit_unit :: "string option"

text \<open>\<open>lnames\<close>, in the order of the \<open>RLIMIT\<close> constants of i386.\<close>

definition lnames :: "limit_names list" where
  "lnames =
     [\<lparr>limit_name = ''Max cpu time'', limit_unit = Some ''ms''\<rparr>,
      \<lparr>limit_name = ''Max file size'', limit_unit = Some ''bytes''\<rparr>,
      \<lparr>limit_name = ''Max data size'', limit_unit = Some ''bytes''\<rparr>,
      \<lparr>limit_name = ''Max stack size'', limit_unit = Some ''bytes''\<rparr>,
      \<lparr>limit_name = ''Max core file size'', limit_unit = Some ''bytes''\<rparr>,
      \<lparr>limit_name = ''Max resident set'', limit_unit = Some ''bytes''\<rparr>,
      \<lparr>limit_name = ''Max processes'', limit_unit = Some ''processes''\<rparr>,
      \<lparr>limit_name = ''Max open files'', limit_unit = Some ''files''\<rparr>,
      \<lparr>limit_name = ''Max locked memory'', limit_unit = Some ''bytes''\<rparr>,
      \<lparr>limit_name = ''Max address space'', limit_unit = Some ''bytes''\<rparr>,
      \<lparr>limit_name = ''Max file locks'', limit_unit = Some ''locks''\<rparr>,
      \<lparr>limit_name = ''Max pending signals'', limit_unit = Some ''signals''\<rparr>,
      \<lparr>limit_name = ''Max msgqueue size'', limit_unit = Some ''bytes''\<rparr>,
      \<lparr>limit_name = ''Max nice priority'', limit_unit = None\<rparr>,
      \<lparr>limit_name = ''Max realtime priority'', limit_unit = None\<rparr>,
      \<lparr>limit_name = ''Max realtime timeout'', limit_unit = Some ''us''\<rparr>]"

text \<open>\<open>RLIM_INFINITY\<close> is \<open>~0UL\<close>; \<open>%-20lu\<close> or the word \<open>unlimited\<close>.\<close>

definition limit_text :: "u32 \<Rightarrow> string" where
  "limit_text v = fmt_ljust 20 (if v = - 1 then ''unlimited'' else fmt_lu v)"

definition limit_line :: "limit_names \<Rightarrow> u32 \<Rightarrow> u32 \<Rightarrow> string" where
  "limit_line l rlim_cur rlim_max =
     fmt_ljust 25 (limit_name l) @ '' '' @ limit_text rlim_cur @ '' '' @
     limit_text rlim_max @ '' '' @
     (case limit_unit l of Some unit \<Rightarrow> fmt_ljust 10 unit @ ''\<newline>'' | None \<Rightarrow> ''\<newline>'')"

text \<open>\<open>memcpy(rlim, task->signal->rlim, ...)\<close>, from the limit \<open>i\<close> on\<close>

fun copy_rlim :: "kenv \<Rightarrow> ptr \<Rightarrow> nat \<Rightarrow> nat \<Rightarrow> (u32 \<times> u32) list k" where
  "copy_rlim K task i 0 = return []"
| "copy_rlim K task i (Suc n) = do {
     c \<leftarrow> elem_u32 K task ''signal->rlim.rlim_cur'' i;
     x \<leftarrow> elem_u32 K task ''signal->rlim.rlim_max'' i;
     rest \<leftarrow> copy_rlim K task (Suc i) n;
     return ((c, x) # rest)
   }"

fun limit_lines :: "limit_names list \<Rightarrow> (u32 \<times> u32) list \<Rightarrow> string" where
  "limit_lines (l # ls) ((c, x) # rs) = limit_line l c x @ limit_lines ls rs"
| "limit_lines _ _ = []"

definition limits_header :: string where
  "limits_header = fmt_ljust 25 ''Limit'' @ '' '' @ fmt_ljust 20 ''Soft Limit'' @ '' '' @
     fmt_ljust 20 ''Hard Limit'' @ '' '' @ fmt_ljust 10 ''Units'' @ ''\<newline>''"

definition proc_pid_limits :: "kenv \<Rightarrow> ptr \<Rightarrow> (int \<times> string) k" where
  "proc_pid_limits K task = do {
     ok \<leftarrow> lock_task_sighand K task;
     (if \<not> ok then return (0, [])
      else do {
        rlim \<leftarrow> copy_rlim K task 0 (length lnames);
        unlock_task_sighand task;
        sprintf (limits_header @ limit_lines lnames rlim)
      })
   }"

text \<open>A run of \<open> 0x%lx\<close> conversions.\<close>

definition hex_args :: "u32 list \<Rightarrow> string" where
  "hex_args ws = concat (map (\<lambda>w. '' 0x'' @ fmt_lx w) ws)"

text \<open>\<open>task_current_syscall\<close> fills \<open>nr\<close>, \<open>args\<close>, \<open>sp\<close> and \<open>pc\<close>.\<close>

definition proc_pid_syscall :: "kenv \<Rightarrow> ptr \<Rightarrow> (int \<times> string) k" where
  "proc_pid_syscall K task = do {
     running \<leftarrow> call_int K ''task_current_syscall'' [int task];
     (if running \<noteq> 0 then sprintf ''running\<newline>''
      else do {
        r \<leftarrow> call_int K ''task_current_syscall nr'' [int task];
        let nr = s32 r;
        a0 \<leftarrow> elem_u32 K task ''task_current_syscall args'' 0;
        a1 \<leftarrow> elem_u32 K task ''task_current_syscall args'' 1;
        a2 \<leftarrow> elem_u32 K task ''task_current_syscall args'' 2;
        a3 \<leftarrow> elem_u32 K task ''task_current_syscall args'' 3;
        a4 \<leftarrow> elem_u32 K task ''task_current_syscall args'' 4;
        a5 \<leftarrow> elem_u32 K task ''task_current_syscall args'' 5;
        sp \<leftarrow> field_u32 K (TaskQ (Q_field task ''task_current_syscall sp''));
        pc \<leftarrow> field_u32 K (TaskQ (Q_field task ''task_current_syscall pc''));
        (if nr < 0 then sprintf (fmt_d nr @ hex_args [sp, pc] @ ''\<newline>'')
         else sprintf (fmt_d nr @ hex_args [a0, a1, a2, a3, a4, a5, sp, pc] @ ''\<newline>''))
      })
   }"

record task_io_accounting =
  rchar :: u64
  wchar :: u64
  syscr :: u64
  syscw :: u64
  read_bytes :: u64
  write_bytes :: u64
  cancelled_write_bytes :: u64

text \<open>The counters of a task or, under \<open>signal->\<close>, of its dead threads.\<close>

definition get_ioac :: "kenv \<Rightarrow> ptr \<Rightarrow> string \<Rightarrow> task_io_accounting k" where
  "get_ioac K task f = do {
     a \<leftarrow> field_u64 K task (f @ ''rchar'');
     b \<leftarrow> field_u64 K task (f @ ''wchar'');
     c \<leftarrow> field_u64 K task (f @ ''syscr'');
     d \<leftarrow> field_u64 K task (f @ ''syscw'');
     e \<leftarrow> field_u64 K task (f @ ''read_bytes'');
     g \<leftarrow> field_u64 K task (f @ ''write_bytes'');
     h \<leftarrow> field_u64 K task (f @ ''cancelled_write_bytes'');
     return \<lparr>rchar = a, wchar = b, syscr = c, syscw = d, read_bytes = e, write_bytes = g,
       cancelled_write_bytes = h\<rparr>
   }"

text \<open>
  \<open>while_each_thread(task, t)\<close>; \<open>add\<close> is \<open>task_io_accounting_add\<close>, which is not part
  of the sources.
\<close>

fun io_each_thread ::
    "kenv \<Rightarrow> (task_io_accounting \<Rightarrow> task_io_accounting \<Rightarrow> task_io_accounting) \<Rightarrow> ptr \<Rightarrow> nat \<Rightarrow> ptr \<Rightarrow>
     task_io_accounting \<Rightarrow> task_io_accounting option k" where
  "io_each_thread K add task 0 t acct = return None"
| "io_each_thread K add task (Suc n) t acct = do {
     t \<leftarrow> next_thread K t;
     (if t = task then return (Some acct)
      else do {
        ioac \<leftarrow> get_ioac K t ''ioac.'';
        io_each_thread K add task n t (add acct ioac)
      })
   }"

definition io_text :: "task_io_accounting \<Rightarrow> string" where
  "io_text acct =
     ''rchar: '' @ fmt_lu (rchar acct) @ ''\<newline>'' @
     ''wchar: '' @ fmt_lu (wchar acct) @ ''\<newline>'' @
     ''syscr: '' @ fmt_lu (syscr acct) @ ''\<newline>'' @
     ''syscw: '' @ fmt_lu (syscw acct) @ ''\<newline>'' @
     ''read_bytes: '' @ fmt_lu (read_bytes acct) @ ''\<newline>'' @
     ''write_bytes: '' @ fmt_lu (write_bytes acct) @ ''\<newline>'' @
     ''cancelled_write_bytes: '' @ fmt_lu (cancelled_write_bytes acct) @ ''\<newline>''"

definition do_io_accounting ::
    "kenv \<Rightarrow> (task_io_accounting \<Rightarrow> task_io_accounting \<Rightarrow> task_io_accounting) \<Rightarrow> nat \<Rightarrow> ptr \<Rightarrow> bool \<Rightarrow>
     (int \<times> string) option k" where
  "do_io_accounting K add n task whole = do {
     acct \<leftarrow> get_ioac K task ''ioac.'';
     locked \<leftarrow> (if whole then lock_task_sighand K task else return False);
     r \<leftarrow> (if locked then do {
         dead \<leftarrow> get_ioac K task ''signal->ioac.'';
         r \<leftarrow> io_each_thread K add task n task (add acct dead);
         unlock_task_sighand task;
         return r
       } else return (Some acct));
     return (map_option (\<lambda>acct. (int (length (io_text acct)), io_text acct)) r)
   }"

definition proc_tid_io_accounting ::
    "kenv \<Rightarrow> (task_io_accounting \<Rightarrow> task_io_accounting \<Rightarrow> task_io_accounting) \<Rightarrow> nat \<Rightarrow> ptr \<Rightarrow>
     (int \<times> string) option k" where
  "proc_tid_io_accounting K add n task = do_io_accounting K add n task False"

definition proc_tgid_io_accounting ::
    "kenv \<Rightarrow> (task_io_accounting \<Rightarrow> task_io_accounting \<Rightarrow> task_io_accounting) \<Rightarrow> nat \<Rightarrow> ptr \<Rightarrow>
     (int \<times> string) option k" where
  "proc_tgid_io_accounting K add n task = do_io_accounting K add n task True"


section \<open>\<open>proc_info_read\<close>\<close>

text \<open>\<open>PROC_I(inode)->op.proc_read(task, page)\<close>; an operation without such a member is never reached.\<close>

definition proc_read ::
    "kenv \<Rightarrow> (task_io_accounting \<Rightarrow> task_io_accounting \<Rightarrow> task_io_accounting) \<Rightarrow> nat \<Rightarrow> read_fn \<Rightarrow> ptr \<Rightarrow>
     (int \<times> string) option k" where
  "proc_read K add n f task =
     (case f of
        R_auxv \<Rightarrow> proc_pid_auxv K n task
      | R_limits \<Rightarrow> map_state Some (proc_pid_limits K task)
      | R_syscall \<Rightarrow> map_state Some (proc_pid_syscall K task)
      | R_cmdline \<Rightarrow> map_state Some (proc_pid_cmdline K task)
      | R_wchan \<Rightarrow> map_state Some (proc_pid_wchan K task)
      | R_schedstat \<Rightarrow> map_state Some (proc_pid_schedstat K task)
      | R_oom_score \<Rightarrow> map_state Some (proc_oom_score K task)
      | R_tgid_io \<Rightarrow> proc_tgid_io_accounting K add n task
      | R_tid_io \<Rightarrow> proc_tid_io_accounting K add n task)"

abbreviation (input) PROC_BLOCK_SIZE :: nat where "PROC_BLOCK_SIZE \<equiv> 3 * 1024"

definition proc_info_read ::
    "kenv \<Rightarrow> (task_io_accounting \<Rightarrow> task_io_accounting \<Rightarrow> task_io_accounting) \<Rightarrow> nat \<Rightarrow> ptr \<Rightarrow> nat \<Rightarrow> int \<Rightarrow>
     (int \<times> int) option k" where
  "proc_info_read K add n file cnt ppos = do {
     inode \<leftarrow> file_inode file;
     task \<leftarrow> get_proc_task K inode;
     (if task = NULL then return (Some (- ESRCH, ppos))
      else do {
        let cnt = min cnt PROC_BLOCK_SIZE;
        page \<leftarrow> get_free_page K;
        r \<leftarrow> (if page = NULL then return (Some (- ENOMEM, ppos))
          else do {
            ei \<leftarrow> get_inode inode;
            r \<leftarrow> (case ei_op ei of Proc_read f \<Rightarrow> proc_read K add n f task | _ \<Rightarrow> return None);
            r \<leftarrow> (case r of None \<Rightarrow> return None
              | Some (len, text) \<Rightarrow>
                  (if len \<ge> 0
                   then map_state Some (simple_read_from_buffer K cnt ppos (take (nat len) text))
                   else return (Some (len, ppos))));
            free_page page;
            return r
          });
        put_task_struct task;
        return r
      })
   }"

section \<open>The \<open>proc_show\<close> functions and the \<open>seq_file\<close> glue\<close>

fun stack_lines :: "kenv \<Rightarrow> ptr \<Rightarrow> nat \<Rightarrow> nat \<Rightarrow> string k" where
  "stack_lines K entries 0 i = return []"
| "stack_lines K entries (Suc n) i = do {
     e \<leftarrow> elem_u32 K entries ''trace.entries'' i;
     sym \<leftarrow> call_str K ''sprint_symbol'' [uint e];
     rest \<leftarrow> stack_lines K entries n (Suc i);
     return (''[<'' @ fmt_p e @ ''>] '' @ sym @ ''\<newline>'' @ rest)
   }"

abbreviation (input) MAX_STACK_TRACE_DEPTH :: nat where "MAX_STACK_TRACE_DEPTH \<equiv> 64"

definition proc_pid_stack :: "kenv \<Rightarrow> ptr \<Rightarrow> (int \<times> string) k" where
  "proc_pid_stack K task = do {
     entries \<leftarrow> kmalloc K (MAX_STACK_TRACE_DEPTH * 4);
     (if entries = NULL then return (- ENOMEM, [])
      else do {
        nr_entries \<leftarrow> call_int K ''save_stack_trace_tsk'' [int task, int entries];
        text \<leftarrow> stack_lines K entries (nat nr_entries) 0;
        kfree entries;
        return (0, text)
      })
   }"

definition proc_pid_personality :: "kenv \<Rightarrow> ptr \<Rightarrow> (int \<times> string) k" where
  "proc_pid_personality K task = do {
     p \<leftarrow> field_u32 K (TaskQ (Q_field task ''personality''));
     return (0, fmt_zpad 8 (fmt_lx p) @ ''\<newline>'')
   }"

text \<open>The functions of \<open>array.c\<close> are answers of the kernel.\<close>

definition array_show :: "kenv \<Rightarrow> string \<Rightarrow> ptr \<Rightarrow> ptr \<Rightarrow> ptr \<Rightarrow> (int \<times> string) k" where [kernel_defs]:
  "array_show K f ns pid task = do {
     r \<leftarrow> call_int K f [int ns, int pid, int task];
     text \<leftarrow> call_str K f [int ns, int pid, int task];
     return (r, text)
   }"

definition proc_show :: "kenv \<Rightarrow> show_fn \<Rightarrow> ptr \<Rightarrow> ptr \<Rightarrow> ptr \<Rightarrow> (int \<times> string) k" where
  "proc_show K f ns pid task =
     (case f of
        S_status \<Rightarrow> array_show K ''proc_pid_status'' ns pid task
      | S_personality \<Rightarrow> proc_pid_personality K task
      | S_tgid_stat \<Rightarrow> array_show K ''proc_tgid_stat'' ns pid task
      | S_tid_stat \<Rightarrow> array_show K ''proc_tid_stat'' ns pid task
      | S_statm \<Rightarrow> array_show K ''proc_pid_statm'' ns pid task
      | S_stack \<Rightarrow> proc_pid_stack K task)"

text \<open>The argument is the \<open>seq_file\<close>; \<open>m->private\<close> is the inode.\<close>

definition proc_single_show :: "kenv \<Rightarrow> ptr \<Rightarrow> (int \<times> string) k" where
  "proc_single_show K m = do {
     \<sigma> \<leftarrow> get_st;
     let inode = m_private (seqs \<sigma> m);
     ns \<leftarrow> s_fs_info K (i_sb (inodes \<sigma> inode));
     let pid = ei_pid (inodes \<sigma> inode);
     task \<leftarrow> get_pid_task K pid;
     (if task = NULL then return (- ESRCH, [])
      else do {
        r \<leftarrow> (case ei_op (inodes \<sigma> inode) of Proc_show f \<Rightarrow> proc_show K f ns pid task | _ \<Rightarrow> return (0, []));
        put_task_struct task;
        return r
      })
   }"

text \<open>
  \<open>single_open\<close> of \<open>fs/seq_file.c\<close>: on success a new \<open>seq_file\<close> with this private
  pointer hangs on the file, whose reference is given back by \<open>single_release\<close>.
\<close>

definition upd_seq :: "ptr \<Rightarrow> (proc_mounts \<Rightarrow> proc_mounts) \<Rightarrow> unit k" where [kernel_defs]:
  "upd_seq m f = upd_st (\<lambda>\<sigma>. \<sigma>\<lparr>seqs := (seqs \<sigma>)(m := f (seqs \<sigma> m))\<rparr>)"

definition single_open :: "kenv \<Rightarrow> ptr \<Rightarrow> ptr \<Rightarrow> int k" where [kernel_defs]:
  "single_open K file data = do {
     r \<leftarrow> call_int K ''single_open'' [int file];
     (if r = 0 then do {
        m \<leftarrow> ask_ptr K (TaskQ (Q_call ''single_open'' [int file]));
        upd_seq m (\<lambda>s. s\<lparr>m_private := data\<rparr>);
        upd_filp file (\<lambda>f. f\<lparr>f_private := Private_ptr m\<rparr>)
      } else return ());
     return r
   }"

text \<open>\<open>struct seq_file *m = filp->private_data; m->private = inode;\<close>\<close>

definition set_seq_private :: "ptr \<Rightarrow> ptr \<Rightarrow> unit k" where
  "set_seq_private filp inode = do {
     f \<leftarrow> get_filp filp;
     (case f_private f of Private_ptr m \<Rightarrow> upd_seq m (\<lambda>s. s\<lparr>m_private := inode\<rparr>) | _ \<Rightarrow> return ())
   }"

definition proc_single_open :: "kenv \<Rightarrow> ptr \<Rightarrow> ptr \<Rightarrow> int k" where
  "proc_single_open K inode filp = do {
     ret \<leftarrow> single_open K filp NULL;
     (if ret = 0 then set_seq_private filp inode else return ());
     return ret
   }"

definition sched_open :: "kenv \<Rightarrow> ptr \<Rightarrow> ptr \<Rightarrow> int k" where
  "sched_open K inode filp = do {
     ret \<leftarrow> single_open K filp NULL;
     (if ret = 0 then set_seq_private filp inode else return ());
     return ret
   }"

definition sched_show :: "kenv \<Rightarrow> ptr \<Rightarrow> (int \<times> string) k" where
  "sched_show K m = do {
     \<sigma> \<leftarrow> get_st;
     let inode = m_private (seqs \<sigma> m);
     p \<leftarrow> get_proc_task K inode;
     (if p = NULL then return (- ESRCH, [])
      else do {
        text \<leftarrow> call_str K ''proc_sched_show_task'' [int p];
        put_task_struct p;
        return (0, text)
      })
   }"

text \<open>The effect of \<open>proc_sched_set_task\<close> and \<open>clear_all_latency_tracing\<close> lies outside the sources.\<close>

definition sched_write :: "kenv \<Rightarrow> ptr \<Rightarrow> nat \<Rightarrow> int k" where
  "sched_write K file cnt = do {
     inode \<leftarrow> file_inode file;
     p \<leftarrow> get_proc_task K inode;
     (if p = NULL then return (- ESRCH)
      else do {
        call_int K ''proc_sched_set_task'' [int p];
        put_task_struct p;
        return (int cnt)
      })
   }"

definition lstats_open :: "kenv \<Rightarrow> ptr \<Rightarrow> ptr \<Rightarrow> int k" where
  "lstats_open K inode file = single_open K file inode"

definition lstats_write :: "kenv \<Rightarrow> ptr \<Rightarrow> nat \<Rightarrow> int k" where
  "lstats_write K file cnt = do {
     inode \<leftarrow> file_inode file;
     task \<leftarrow> get_proc_task K inode;
     (if task = NULL then return (- ESRCH)
      else do {
        call_int K ''clear_all_latency_tracing'' [int task];
        put_task_struct task;
        return (int cnt)
      })
   }"

text \<open>The symbols of one latency record, from the frame \<open>q\<close> on, at most \<open>n\<close> of them.\<close>

fun lstats_frames :: "kenv \<Rightarrow> ptr \<Rightarrow> string \<Rightarrow> nat \<Rightarrow> nat \<Rightarrow> string k" where
  "lstats_frames K task rec 0 q = return []"
| "lstats_frames K task rec (Suc n) q = do {
     bt \<leftarrow> elem_u32 K task (rec @ ''backtrace'') q;
     (if bt = 0 then return []
      else if bt = - 1 then return []
      else do {
        sym \<leftarrow> call_str K ''sprint_symbol'' [uint bt];
        rest \<leftarrow> lstats_frames K task rec n (Suc q);
        return (takeWhile (\<lambda>c. c \<noteq> CHR ''+'') sym @ '' '' @ rest)
      })
   }"

text \<open>The records from \<open>i\<close> on; \<open>depth\<close> is \<open>LT_BACKTRACEDEPTH\<close>.\<close>

fun lstats_records :: "kenv \<Rightarrow> nat \<Rightarrow> ptr \<Rightarrow> nat \<Rightarrow> nat \<Rightarrow> string k" where
  "lstats_records K depth task 0 i = return []"
| "lstats_records K depth task (Suc n) i = do {
     let rec = ''latency_record['' @ fmt_u i @ ''].'';
     bt \<leftarrow> elem_u32 K task (rec @ ''backtrace'') 0;
     line \<leftarrow> (if bt \<noteq> 0 then do {
         c \<leftarrow> ask_int K (TaskQ (Q_field task (rec @ ''count'')));
         t \<leftarrow> ask_int K (TaskQ (Q_field task (rec @ ''time'')));
         x \<leftarrow> ask_int K (TaskQ (Q_field task (rec @ ''max'')));
         frames \<leftarrow> lstats_frames K task rec depth 0;
         return (fmt_d (s32 c) @ '' '' @ fmt_d (s32 t) @ '' '' @ fmt_d (s32 x) @ '' '' @ frames @ ''\<newline>'')
       } else return []);
     rest \<leftarrow> lstats_records K depth task n (Suc i);
     return (line @ rest)
   }"

definition lstats_show_proc :: "kenv \<Rightarrow> nat \<Rightarrow> ptr \<Rightarrow> (int \<times> string) k" where
  "lstats_show_proc K depth m = do {
     \<sigma> \<leftarrow> get_st;
     let inode = m_private (seqs \<sigma> m);
     task \<leftarrow> get_proc_task K inode;
     (if task = NULL then return (- ESRCH, [])
      else do {
        records \<leftarrow> lstats_records K depth task 32 0;
        put_task_struct task;
        return (0, ''Latency Top version : v0.1\<newline>'' @ records)
      })
   }"

section \<open>Specifications\<close>

lemma owns_map_state [owns_intros]:
  "owns d \<sigma> m (\<lambda>x. Q (f x)) \<Longrightarrow> owns d \<sigma> (map_state f m) Q"
  by (simp add: owns_def state.map_sel case_prod_beta)

lemma length_fmt_lu32: "length (fmt_lu (w :: u32)) \<le> 10"
proof -
  have "unat w < 2 ^ LENGTH(32)" by (rule unsigned_less)
  then show ?thesis unfolding fmt_lu_def by (intro length_fmt_u) simp_all
qed

lemma length_fmt_lu64: "length (fmt_lu (w :: u64)) \<le> 20"
proof -
  have "unat w < 2 ^ LENGTH(64)" by (rule unsigned_less)
  then show ?thesis unfolding fmt_lu_def by (intro length_fmt_u) simp_all
qed

lemma length_fmt_lx32: "length (fmt_lx (w :: u32)) \<le> 8"
proof -
  have "unat w < 2 ^ LENGTH(32)" by (rule unsigned_less)
  then show ?thesis unfolding fmt_lx_def by (intro length_radix_str) simp_all
qed

lemma length_fmt_ljust: "length s \<le> w \<Longrightarrow> length (fmt_ljust w s) = w"
  by (simp add: fmt_ljust_def)

text \<open>
  The contract of a \<open>proc_read\<close> function: a count that is not negative, fits the page, and covers
  only bytes that were written to it.
\<close>

definition page_ok :: "int \<times> string \<Rightarrow> bool" where
  "page_ok r \<longleftrightarrow> 0 \<le> fst r \<and> fst r \<le> int PAGE_SIZE \<and> fst r \<le> int (length (snd r))"

lemma page_ok_sprintf: "length s \<le> 4096 \<Longrightarrow> page_ok (int (length s), s)"
  by (simp add: page_ok_def)

lemma sprintf_spec [owns_intros]:
  "length s \<le> 4096 \<Longrightarrow> (\<And>r. page_ok r \<Longrightarrow> Q r d \<sigma>) \<Longrightarrow> owns d \<sigma> (sprintf s) Q"
  unfolding sprintf_def by (intro owns_return) (simp add: page_ok_sprintf)

lemma length_hex_args: "length (hex_args ws) \<le> 11 * length ws"
proof (induction ws)
  case (Cons w ws)
  then show ?case using length_fmt_lx32 [of w] by (simp add: hex_args_def)
qed (simp add: hex_args_def)

lemma page_ok_cmdline: "cmdline_post K r \<Longrightarrow> page_ok r"
  by (simp add: page_ok_def cmdline_post_def)

text \<open>
  What the text files rely on: \<open>access_process_vm\<close> keeps within its buffer; the auxiliary vector
  has a terminator, which lies within its array; a symbol name fits \<open>KSYM_NAME_LEN\<close>; the threads of
  a group form a ring of at most \<open>N\<close>.
\<close>

definition auxv_law :: "kenv \<Rightarrow> nat \<Rightarrow> bool" where
  "auxv_law K N \<longleftrightarrow> (\<forall>mm. \<exists>j < N.
     (\<forall>w. may_int K (MmQ (Q_saved_auxv mm (2 * j))) w \<longrightarrow> w = 0) \<and>
     (\<forall>bs. may_str K (TaskQ (Q_field mm ''saved_auxv'')) bs \<longrightarrow> 8 * Suc j \<le> length bs))"

definition ring_law :: "kenv \<Rightarrow> nat \<Rightarrow> bool" where
  "ring_law K N \<longleftrightarrow> (\<exists>next. (\<forall>t x. may_ptr K (TaskQ (Q_next_thread t)) x \<longrightarrow> x = next t) \<and>
     (\<forall>t. \<exists>j < N. (next ^^ Suc j) t = t))"

definition page_law :: "kenv \<Rightarrow> nat \<Rightarrow> bool" where
  "page_law K N \<longleftrightarrow> vm_law K \<and> auxv_law K N \<and>
     (\<forall>xs s. may_str K (TaskQ (Q_call ''lookup_symbol_name'' xs)) s \<longrightarrow> length s < 128)"

definition text_law :: "kenv \<Rightarrow> nat \<Rightarrow> bool" where
  "text_law K N \<longleftrightarrow> page_law K N \<and> ring_law K N"

lemma auxv_words_spec:
  assumes "j < n" "\<forall>w. may_int K (MmQ (Q_saved_auxv mm (k + 2 * j))) w \<longrightarrow> w = 0"
    "\<And>m. m \<le> k + 2 * Suc j \<Longrightarrow> Q (Some m) d \<sigma>"
  shows "owns d \<sigma> (auxv_words K mm n k) Q"
  using assms
proof (induction n arbitrary: j k)
  case (Suc n)
  have go: "owns d \<sigma> (auxv_words K mm n (Suc (Suc k))) Q"
    if "may_int K (MmQ (Q_saved_auxv mm k)) w" "w \<noteq> 0" for w
  proof -
    have "j \<noteq> 0" using Suc.prems(2) that by (intro notI) simp
    then obtain i where "j = Suc i" by (cases j) auto
    with Suc.prems show ?thesis by (intro Suc.IH [of i]) simp_all
  qed
  show ?case using Suc.prems(3) by (auto intro!: owns_intros go)
qed simp

lemma proc_pid_auxv_spec:
  assumes law: "auxv_law K N" "N \<le> n" and Q: "\<And>r. page_ok r \<Longrightarrow> Q (Some r) d \<sigma>"
  shows "owns d \<sigma> (proc_pid_auxv K n task) Q"
proof -
  have go: "owns e \<sigma> (auxv_words K mm n 0) P"
    if "\<And>m. (\<And>bs. may_str K (TaskQ (Q_field mm ''saved_auxv'')) bs \<Longrightarrow> m * 4 \<le> length bs) \<Longrightarrow> P (Some m) e \<sigma>"
    for e mm P
  proof -
    from law obtain j where "j < n" "\<forall>w. may_int K (MmQ (Q_saved_auxv mm (2 * j))) w \<longrightarrow> w = 0"
        "\<forall>bs. may_str K (TaskQ (Q_field mm ''saved_auxv'')) bs \<longrightarrow> 8 * Suc j \<le> length bs"
      unfolding auxv_law_def by (meson less_le_trans)
    then show ?thesis by (intro auxv_words_spec [of j]) (force intro!: that)+
  qed
  show ?thesis
    unfolding proc_pid_auxv_def
    by (auto intro!: owns_intros go Q simp: kernel_defs page_ok_def min_le_iff_disj)
qed

lemma io_each_thread_spec:
  assumes nx: "\<And>t x. may_ptr K (TaskQ (Q_next_thread t)) x \<Longrightarrow> x = next t"
    and "j < n" "(next ^^ Suc j) t = task" and Q: "\<And>acct. Q (Some acct) d \<sigma>"
  shows "owns d \<sigma> (io_each_thread K add task n t acct) Q"
  using assms(2,3)
proof (induction n arbitrary: j t acct)
  case (Suc n)
  have "owns d \<sigma> (io_each_thread K add task n (next t) acct') Q" if "next t \<noteq> task" for acct'
  proof -
    have "j \<noteq> 0" using Suc.prems(2) that by (intro notI) simp
    then obtain i where "j = Suc i" by (cases j) auto
    with Suc.prems show ?thesis by (intro Suc.IH [of i]) (simp_all add: funpow_swap1)
  qed
  then show ?case by (auto intro!: owns_intros Q simp: kernel_defs get_ioac_def dest!: nx)
qed simp

lemma io_each_thread_any: "(\<And>r. Q r d \<sigma>) \<Longrightarrow> owns d \<sigma> (io_each_thread K add task n t acct) Q"
  by (induction n arbitrary: t acct) (auto intro!: owns_intros simp: kernel_defs get_ioac_def)

text \<open>With a ring of threads the sum ends; without one, the outcome \<open>None\<close> is to be expected too.\<close>

lemma length_io_text: "length (io_text acct) \<le> 4096"
  using length_fmt_lu64 [of "rchar acct"] length_fmt_lu64 [of "wchar acct"] length_fmt_lu64 [of "syscr acct"]
    length_fmt_lu64 [of "syscw acct"] length_fmt_lu64 [of "read_bytes acct"]
    length_fmt_lu64 [of "write_bytes acct"] length_fmt_lu64 [of "cancelled_write_bytes acct"]
  by (simp add: io_text_def)

lemma do_io_accounting_spec:
  assumes law: "ring_law K N \<or> Q None d \<sigma>" "N \<le> n" and Q: "\<And>r. page_ok r \<Longrightarrow> Q (Some r) d \<sigma>"
  shows "owns d \<sigma> (do_io_accounting K add n task whole) Q"
proof (cases "Q None d \<sigma>")
  case True
  have "Q (map_option (\<lambda>acct. (int (length (io_text acct)), io_text acct)) r) d \<sigma>" for r
    using True Q [OF page_ok_sprintf [OF length_io_text]] by (cases r) auto
  then show ?thesis
    unfolding do_io_accounting_def
    by (auto intro!: owns_intros io_each_thread_any Q page_ok_sprintf length_io_text simp: kernel_defs get_ioac_def)
next
  case False
  with law(1) obtain nxt where nx: "\<And>t x. may_ptr K (TaskQ (Q_next_thread t)) x \<Longrightarrow> x = nxt t"
      and "\<And>t. \<exists>j<N. (nxt ^^ Suc j) t = t"
    unfolding ring_law_def by blast
  then obtain j where j: "j < n" "(nxt ^^ Suc j) task = task" using law(2) less_le_trans by blast
  show ?thesis
    unfolding do_io_accounting_def
    by (auto intro!: owns_intros io_each_thread_spec [OF nx j] Q page_ok_sprintf length_io_text
        simp: kernel_defs get_ioac_def)
qed

lemma length_limit_text: "length (limit_text v) = 20"
proof (cases "v = - 1")
  case False
  have "length (fmt_lu v) \<le> 20" using length_fmt_lu32 [of v] by simp
  with False show ?thesis by (simp add: limit_text_def length_fmt_ljust)
qed (simp add: limit_text_def fmt_ljust_def)

text \<open>Every name fits its column of 25 characters and every unit its column of 10.\<close>

lemma lnames_fit:
  "length lnames = 16"
  "\<forall>l \<in> set lnames. length (limit_name l) \<le> 25 \<and> (\<forall>u. limit_unit l = Some u \<longrightarrow> length u \<le> 10)"
  by (simp_all add: lnames_def)

lemma length_limit_line:
  "l \<in> set lnames \<Longrightarrow> length (limit_line l c x) \<le> 79"
  using lnames_fit(2)
  by (auto simp: limit_line_def length_limit_text length_fmt_ljust split: option.splits)

lemma length_limit_lines:
  "set ls \<subseteq> set lnames \<Longrightarrow> length (limit_lines ls rs) \<le> 79 * length ls"
proof (induction ls rs rule: limit_lines.induct)
  case (1 l ls c x rs)
  then show ?case using length_limit_line [of l c x] by simp
qed simp_all

lemma length_limits: "length (limits_header @ limit_lines lnames rs) \<le> 4096"
  using length_limit_lines [of lnames rs] by (simp add: limits_header_def fmt_ljust_def lnames_fit(1))

lemma copy_rlim_spec [owns_intros]:
  "(\<And>rs. Q rs d \<sigma>) \<Longrightarrow> owns d \<sigma> (copy_rlim K task i n) Q"
proof (induction n arbitrary: i Q)
  case (Suc n)
  show ?case by (auto intro!: owns_intros Suc simp: kernel_defs)
qed (auto intro: owns_intros)

lemma proc_read_spec:
  assumes law: "page_law K N" "N \<le> n" and ring: "ring_law K N \<or> Q None d \<sigma>"
    and Q: "\<And>r. page_ok r \<Longrightarrow> Q (Some r) d \<sigma>"
  shows "owns d \<sigma> (proc_read K add n f task) Q"
proof -
  have vm: "vm_law K" and aux: "auxv_law K N"
    and sym: "\<And>xs s. may_str K (TaskQ (Q_call ''lookup_symbol_name'' xs)) s \<Longrightarrow> length s \<le> 4096"
    using law(1) unfolding page_law_def by fastforce+
  have z: "page_ok (0, [])" by (simp add: page_ok_def)
  show ?thesis
  proof (cases f)
    case R_cmdline
    then show ?thesis
      unfolding proc_read_def
      by (auto intro!: owns_intros intro: owns_neutral [OF cmdline_spec [OF vm]] Q page_ok_cmdline)
  next
    case R_syscall
    have "length (fmt_d (s32 x) @ hex_args ws @ ''\<newline>'') \<le> 4096" if "length ws \<le> 8" for x ws
      using length_fmt_d [OF s32_range, of x] length_hex_args [of ws] that by simp
    from this [of "[_, _]"] this [of "[_, _, _, _, _, _, _, _]"] R_syscall show ?thesis
      unfolding proc_read_def proc_pid_syscall_def by (auto intro!: owns_intros Q simp: kernel_defs)
  next
    case R_limits
    then show ?thesis
      unfolding proc_read_def proc_pid_limits_def
      by (auto intro!: owns_intros Q z length_limits [simplified] simp: kernel_defs)
  next
    case R_wchan
    have "length (fmt_lu (w :: u32)) \<le> 4096" for w using length_fmt_lu32 [of w] by simp
    with R_wchan show ?thesis
      unfolding proc_read_def proc_pid_wchan_def by (auto intro!: owns_intros Q z dest: sym simp: kernel_defs)
  next
    case R_schedstat
    have "length (fmt_lu (a :: u64) @ '' '' @ fmt_lu (b :: u64) @ '' '' @ fmt_lu (c :: u32) @ ''\<newline>'') \<le> 4096" for a b c
      using length_fmt_lu64 [of a] length_fmt_lu64 [of b] length_fmt_lu32 [of c] by simp
    with R_schedstat show ?thesis
      unfolding proc_read_def proc_pid_schedstat_def by (auto intro!: owns_intros Q simp: kernel_defs)
  next
    case R_oom_score
    have "length (fmt_lu (w :: u32) @ ''\<newline>'') \<le> 4096" for w using length_fmt_lu32 [of w] by simp
    with R_oom_score show ?thesis
      unfolding proc_read_def proc_oom_score_def by (auto intro!: owns_intros Q simp: kernel_defs)
  qed (auto simp: proc_read_def proc_tgid_io_accounting_def proc_tid_io_accounting_def
      intro!: proc_pid_auxv_spec [OF aux law(2)] do_io_accounting_spec [where Q = Q and d = d and \<sigma> = \<sigma>, OF ring law(2)] Q)
qed

text \<open>
  What \<open>simple_read_from_buffer\<close> promises: an error, or a number of bytes within both the request
  and what is left of the buffer, by which the position moves on.
\<close>

definition simple_read_law :: "kenv \<Rightarrow> bool" where
  "simple_read_law K \<longleftrightarrow>
     (\<forall>cnt ppos from r. may_int K (VfsQ (Q_simple_read cnt ppos from)) r \<longrightarrow>
        0 < r \<longrightarrow> 0 \<le> ppos \<and> ppos + r \<le> int (length from) \<and> r \<le> int cnt)"

text \<open>The outcome of a read served from a buffer that holds \<open>from\<close>.\<close>

definition served :: "kenv \<Rightarrow> nat \<Rightarrow> int \<Rightarrow> string \<Rightarrow> int \<times> int \<Rightarrow> store \<Rightarrow> store \<Rightarrow> bool" where
  "served K cnt ppos from r \<sigma> \<sigma>' \<longleftrightarrow>
     may_int K (VfsQ (Q_simple_read cnt ppos from)) (fst r) \<and>
     (if 0 < fst r
      then snd r = ppos + fst r \<and> 0 \<le> ppos \<and> ppos + fst r \<le> int (length from) \<and> fst r \<le> int cnt \<and>
        \<sigma>' = \<sigma>\<lparr>uout := uout \<sigma> @ take (nat (fst r)) (drop (nat ppos) from)\<rparr>
      else snd r = ppos \<and> \<sigma>' = \<sigma>)"

lemma served_dentries: "served K cnt ppos from r \<sigma> \<sigma>' \<Longrightarrow> dentries \<sigma>' = dentries \<sigma>"
  by (auto simp: served_def split: if_splits)

lemma simple_read_spec [owns_intros]:
  assumes "simple_read_law K" "\<And>r \<sigma>'. served K cnt ppos from r \<sigma> \<sigma>' \<Longrightarrow> Q r d \<sigma>'"
  shows "owns d \<sigma> (simple_read_from_buffer K cnt ppos from) Q"
  unfolding simple_read_from_buffer_def
  using assms(1) by (auto intro!: owns_intros assms(2) simp: served_def simple_read_law_def)

definition info_read_post :: "kenv \<Rightarrow> nat \<Rightarrow> int \<Rightarrow> store \<Rightarrow> (int \<times> int) option \<Rightarrow> store \<Rightarrow> bool" where
  "info_read_post K cnt ppos \<sigma> r \<sigma>' \<longleftrightarrow>
     (r = Some (- ESRCH, ppos) \<or> r = Some (- ENOMEM, ppos)) \<and> \<sigma>' = \<sigma> \<or>
     (\<exists>x text. r = Some x \<and> length text \<le> PAGE_SIZE \<and> served K (min cnt PROC_BLOCK_SIZE) ppos text x \<sigma> \<sigma>')"

lemma info_read_post_served:
  assumes "served K (min cnt 3072) ppos (take (nat len) text) x \<sigma> \<sigma>'" "page_ok (len, text)"
  shows "info_read_post K cnt ppos \<sigma> (Some x) \<sigma>'"
proof -
  have "length (take (nat len) text) \<le> PAGE_SIZE" using assms(2) by (auto simp: page_ok_def)
  with assms(1) show ?thesis unfolding info_read_post_def by auto
qed

section \<open>Properties\<close>

text \<open>Whether the call ends is a matter of the ring of threads; that it gives everything back is not.\<close>

lemma proc_info_read_spec:
  assumes "page_law K N" "N \<le> n" "simple_read_law K"
    "ei_op (inodes \<sigma> (d_inode (dentries \<sigma> (f_dentry (filps \<sigma> file))))) = Proc_read f"
  shows "owns {#} \<sigma> (proc_info_read K add n file cnt ppos)
    (\<lambda>r d \<sigma>'. d = {#} \<and> (if r = None then \<not> ring_law K N \<and> \<sigma>' = \<sigma> else info_read_post K cnt ppos \<sigma> r \<sigma>'))"
  unfolding proc_info_read_def using assms(4)
  by (auto intro!: owns_intros proc_read_spec [OF assms(1,2)] assms(3) simp: kernel_defs info_read_post_def
      page_ok_def split: prod.splits)


text \<open>A kernel whose answers keep these laws.\<close>

definition ex_text :: kenv where
  "ex_text = (ex_kernel 7 0)\<lparr>ans_str := \<lambda>_ q.
     (case q of MmQ (Q_vm_bytes task addr len) \<Rightarrow> replicate len CHR ''x''
      | TaskQ (Q_field p f) \<Rightarrow> replicate 8 CHR ''a'' | _ \<Rightarrow> []),
     ans_ptr := \<lambda>_ q. (case q of TaskQ (Q_next_thread t) \<Rightarrow> t | _ \<Rightarrow> 7)\<rparr>"

lemma ex_text_laws [simp]: "text_law ex_text (Suc 0)" "simple_read_law ex_text"
  by (auto simp: text_law_def page_law_def vm_law_def auxv_law_def ring_law_def simple_read_law_def ex_text_def
      ex_kernel_def may_int_def may_str_def may_ptr_def intro!: exI [of _ "\<lambda>t. t"])

definition ex_info_store :: store where
  "ex_info_store = ex_store\<lparr>inodes := \<lambda>p. (inodes ex_store p)\<lparr>ei_op := Proc_read R_limits\<rparr>\<rparr>"


section \<open>The \<open>proc_show\<close> functions are balanced\<close>

lemma stack_lines_spec [owns_intros]: "(\<And>s. Q s d \<sigma>) \<Longrightarrow> owns d \<sigma> (stack_lines K entries n i) Q"
proof (induction n arbitrary: i Q)
  case (Suc n)
  show ?case by (auto intro!: owns_intros Suc simp: kernel_defs)
qed (auto intro: owns_intros)

lemma lstats_frames_spec [owns_intros]: "(\<And>s. Q s d \<sigma>) \<Longrightarrow> owns d \<sigma> (lstats_frames K task r n q) Q"
proof (induction n arbitrary: q Q)
  case (Suc n)
  show ?case by (auto intro!: owns_intros Suc simp: kernel_defs)
qed (auto intro: owns_intros)

lemma lstats_records_spec [owns_intros]: "(\<And>s. Q s d \<sigma>) \<Longrightarrow> owns d \<sigma> (lstats_records K depth task n i) Q"
proof (induction n arbitrary: i Q)
  case (Suc n)
  show ?case by (auto intro!: owns_intros Suc simp: kernel_defs)
qed (auto intro: owns_intros)

lemma proc_show_spec [owns_intros]: "(\<And>r. Q r d \<sigma>) \<Longrightarrow> owns d \<sigma> (proc_show K f ns pid task) Q"
  unfolding proc_show_def proc_pid_stack_def proc_pid_personality_def
  by (cases f) (auto intro!: owns_intros simp: kernel_defs)

text \<open>
  The contract of a \<open>show\<close> callback: it changes nothing, holds nothing afterwards, and reports
  \<open>-ESRCH\<close> with no text when the process is gone.
\<close>

locale seq_show =
  fixes show_fn :: "ptr \<Rightarrow> (int \<times> string) k"
  assumes show_spec: "owns {#} \<sigma> (show_fn m) (\<lambda>r d \<sigma>'. d = {#} \<and> \<sigma>' = \<sigma>)"
begin

text \<open>So it can be called by a caller that holds any references.\<close>

lemma show_frame: "(\<And>r. Q r d \<sigma>) \<Longrightarrow> owns d \<sigma> (show_fn m) Q"
  by (rule owns_neutral [OF show_spec [where \<sigma> = \<sigma>, THEN owns_mono]]) auto

text \<open>\<open>seq_read\<close> may call it again with a larger buffer: a second call is as good as the first.\<close>

lemma show_twice: "owns d \<sigma> (do { show_fn m; show_fn m }) (\<lambda>r d' \<sigma>'. d' = d \<and> \<sigma>' = \<sigma>)"
  by (intro owns_bind show_frame) simp

end

interpretation single: seq_show "proc_single_show K"
  by unfold_locales (auto simp: proc_single_show_def kernel_defs split: proc_op.splits intro!: owns_intros)

interpretation sched: seq_show "sched_show K"
  by unfold_locales (auto simp: sched_show_def kernel_defs intro!: owns_intros)

interpretation lstats: seq_show "lstats_show_proc K depth"
  by unfold_locales (auto simp: lstats_show_proc_def kernel_defs intro!: owns_intros)

end
