(* ===== verification/Proc_Settings.thy ===== *)
theory Proc_Settings
  imports Proc_Text
begin

text \<open>
  Files that can be written: \<open>oom_adj\<close>, \<open>make-it-fail\<close>, \<open>coredump_filter\<close>,
  \<open>loginuid\<close> (with the read-only \<open>sessionid\<close>) and the files of the \<open>attr\<close>
  directory. A write copies at most \<open>PROC_NUMBUF - 1\<close> bytes into a zeroed buffer and parses them
  with \<open>simple_strtol\<close> or \<open>simple_strtoul\<close>, which belong to \<open>lib/vsprintf.c\<close> and are
  parameters (value and number of characters consumed).
\<close>

section \<open>Operations\<close>

text \<open>\<open>memset(buffer, 0, sizeof(buffer))\<close> followed by a copy of fewer bytes\<close>

definition numbuf :: "string \<Rightarrow> string" where
  "numbuf bs = take PROC_NUMBUF (bs @ replicate PROC_NUMBUF CHR 0x00)"

text \<open>\<open>if (*end == '\n') end++;\<close>\<close>

definition skip_newline :: "string \<Rightarrow> nat \<Rightarrow> nat" where
  "skip_newline buffer e = (if buffer ! e = CHR 0x0A then e + 1 else e)"

text \<open>\<open>if (end - buffer == 0) return -EIO; return end - buffer;\<close>\<close>

definition parsed_len :: "nat \<Rightarrow> int" where
  "parsed_len e = (if e = 0 then - EIO else int e)"

abbreviation (input) OOM_DISABLE :: int where "OOM_DISABLE \<equiv> - 17"
abbreviation (input) OOM_ADJUST_MIN :: int where "OOM_ADJUST_MIN \<equiv> - 16"
abbreviation (input) OOM_ADJUST_MAX :: int where "OOM_ADJUST_MAX \<equiv> 15"
abbreviation (input) CAP_SYS_RESOURCE :: nat where "CAP_SYS_RESOURCE \<equiv> 24"
abbreviation (input) CAP_AUDIT_CONTROL :: nat where "CAP_AUDIT_CONTROL \<equiv> 30"

definition oom_adjust_read :: "kenv \<Rightarrow> ptr \<Rightarrow> nat \<Rightarrow> int \<Rightarrow> (int \<times> int) k" where
  "oom_adjust_read K file cnt ppos = do {
     inode \<leftarrow> file_inode file;
     task \<leftarrow> get_proc_task K inode;
     (if task = NULL then return (- ESRCH, ppos)
      else do {
        \<sigma> \<leftarrow> get_st;
        let oom_adjust = oomkilladj \<sigma> task;
        put_task_struct task;
        let buffer = snprintf_buf PROC_NUMBUF (fmt_d oom_adjust @ ''\<newline>'');
        simple_read_from_buffer K cnt ppos buffer
      })
   }"

definition oom_adjust_write :: "kenv \<Rightarrow> ptr \<Rightarrow> ptr \<Rightarrow> nat \<Rightarrow> int k" where
  "oom_adjust_write K file buf cnt = do {
     let cnt = min cnt (PROC_NUMBUF - 1);
     (fault, bs) \<leftarrow> copy_from_user K buf cnt;
     (if fault \<noteq> 0 then return (- EFAULT)
      else do {
        let buffer = numbuf bs;
        let oom_adjust = s32 (fst (simple_strtol K buffer 0));
        let e = snd (simple_strtol K buffer 0);
        (if (oom_adjust < OOM_ADJUST_MIN \<or> oom_adjust > OOM_ADJUST_MAX) \<and> oom_adjust \<noteq> OOM_DISABLE
         then return (- EINVAL)
         else do {
           let e = skip_newline buffer e;
           inode \<leftarrow> file_inode file;
           task \<leftarrow> get_proc_task K inode;
           (if task = NULL then return (- ESRCH)
            else do {
              \<sigma> \<leftarrow> get_st;
              may \<leftarrow> (if oom_adjust < oomkilladj \<sigma> task then capable K CAP_SYS_RESOURCE else return 1);
              (if may = 0 then do {
                 put_task_struct task;
                 return (- EACCES)
               } else do {
                 upd_st (\<lambda>\<sigma>. \<sigma>\<lparr>oomkilladj := (oomkilladj \<sigma>)(task := oom_adjust)\<rparr>);
                 put_task_struct task;
                 return (parsed_len e)
               })
            })
         })
      })
   }"

definition proc_fault_inject_read :: "kenv \<Rightarrow> ptr \<Rightarrow> nat \<Rightarrow> int \<Rightarrow> (int \<times> int) k" where
  "proc_fault_inject_read K file cnt ppos = do {
     inode \<leftarrow> file_inode file;
     task \<leftarrow> get_proc_task K inode;
     (if task = NULL then return (- ESRCH, ppos)
      else do {
        \<sigma> \<leftarrow> get_st;
        let fail = make_it_fail \<sigma> task;
        put_task_struct task;
        let buffer = snprintf_buf PROC_NUMBUF (fmt_d fail @ ''\<newline>'');
        simple_read_from_buffer K cnt ppos buffer
      })
   }"

definition proc_fault_inject_write :: "kenv \<Rightarrow> ptr \<Rightarrow> ptr \<Rightarrow> nat \<Rightarrow> int k" where
  "proc_fault_inject_write K file buf cnt = do {
     may \<leftarrow> capable K CAP_SYS_RESOURCE;
     (if may = 0 then return (- EPERM)
      else do {
        let cnt = min cnt (PROC_NUMBUF - 1);
        (fault, bs) \<leftarrow> copy_from_user K buf cnt;
        (if fault \<noteq> 0 then return (- EFAULT)
         else do {
           let buffer = numbuf bs;
           let fail = s32 (fst (simple_strtol K buffer 0));
           let e = skip_newline buffer (snd (simple_strtol K buffer 0));
           inode \<leftarrow> file_inode file;
           task \<leftarrow> get_proc_task K inode;
           (if task = NULL then return (- ESRCH)
            else do {
              upd_st (\<lambda>\<sigma>. \<sigma>\<lparr>make_it_fail := (make_it_fail \<sigma>)(task := fail)\<rparr>);
              put_task_struct task;
              return (parsed_len e)
            })
         })
      })
   }"

text \<open>
  \<open>MMF_DUMP_FILTER_SHIFT\<close> and \<open>MMF_DUMP_FILTER_BITS\<close> of \<open>linux/sched.h\<close> are the
  parameters \<open>sh\<close> and \<open>bits\<close>; the mask is made of them.
\<close>

definition dump_filter_mask :: "nat \<Rightarrow> nat \<Rightarrow> u32" where
  "dump_filter_mask sh bits = push_bit sh (mask bits)"

definition dump_filter :: "nat \<Rightarrow> nat \<Rightarrow> u32 \<Rightarrow> u32" where
  "dump_filter sh bits flags = drop_bit sh (flags AND dump_filter_mask sh bits)"

definition proc_coredump_filter_read :: "kenv \<Rightarrow> nat \<Rightarrow> nat \<Rightarrow> ptr \<Rightarrow> nat \<Rightarrow> int \<Rightarrow> (int \<times> int) k" where
  "proc_coredump_filter_read K sh bits file cnt ppos = do {
     inode \<leftarrow> file_inode file;
     task \<leftarrow> get_proc_task K inode;
     (if task = NULL then return (- ESRCH, ppos)
      else do {
        mm \<leftarrow> get_task_mm K task;
        ret \<leftarrow> (if mm \<noteq> NULL then do {
            \<sigma> \<leftarrow> get_st;
            let buffer = snprintf_buf PROC_NUMBUF
              (fmt_zpad 8 (fmt_lx (dump_filter sh bits (mm_flags \<sigma> mm))) @ ''\<newline>'');
            mmput mm;
            simple_read_from_buffer K cnt ppos buffer
          } else return (0, ppos));
        put_task_struct task;
        return ret
      })
   }"

text \<open>The loop over \<open>i\<close> with \<open>mask = 1 << i\<close>; \<open>n\<close> iterations are left.\<close>

fun set_dump_bits :: "nat \<Rightarrow> u32 \<Rightarrow> ptr \<Rightarrow> nat \<Rightarrow> nat \<Rightarrow> u32 \<Rightarrow> unit k" where
  "set_dump_bits sh val mm 0 i msk = return ()"
| "set_dump_bits sh val mm (Suc n) i msk = do {
     upd_st (\<lambda>\<sigma>. \<sigma>\<lparr>mm_flags := (mm_flags \<sigma>)(mm :=
       (if val AND msk \<noteq> 0 then set_bit (i + sh) (mm_flags \<sigma> mm) else unset_bit (i + sh) (mm_flags \<sigma> mm)))\<rparr>);
     set_dump_bits sh val mm n (Suc i) (push_bit 1 msk)
   }"

definition proc_coredump_filter_write :: "kenv \<Rightarrow> nat \<Rightarrow> nat \<Rightarrow> ptr \<Rightarrow> ptr \<Rightarrow> nat \<Rightarrow> int k" where
  "proc_coredump_filter_write K sh bits file buf cnt = do {
     let cnt = min cnt (PROC_NUMBUF - 1);
     (fault, bs) \<leftarrow> copy_from_user K buf cnt;
     (if fault \<noteq> 0 then return (- EFAULT)
      else do {
        let buffer = numbuf bs;
        let val = (of_nat (fst (simple_strtoul K buffer 0)) :: u32);
        let e = skip_newline buffer (snd (simple_strtoul K buffer 0));
        (if e = 0 then return (- EINVAL)
         else do {
           inode \<leftarrow> file_inode file;
           task \<leftarrow> get_proc_task K inode;
           (if task = NULL then return (- ESRCH)
            else do {
              mm \<leftarrow> get_task_mm K task;
              (if mm = NULL then return ()
               else do {
                 set_dump_bits sh val mm bits 0 1;
                 mmput mm
               });
              put_task_struct task;
              return (int e)
            })
         })
      })
   }"

abbreviation (input) TMPBUFLEN :: nat where "TMPBUFLEN \<equiv> 21"

definition proc_loginuid_read :: "kenv \<Rightarrow> ptr \<Rightarrow> nat \<Rightarrow> int \<Rightarrow> (int \<times> int) k" where
  "proc_loginuid_read K file cnt ppos = do {
     inode \<leftarrow> file_inode file;
     task \<leftarrow> get_proc_task K inode;
     (if task = NULL then return (- ESRCH, ppos)
      else do {
        uid \<leftarrow> call_int K ''audit_get_loginuid'' [int task];
        let tmpbuf = snprintf_buf TMPBUFLEN (fmt_lu (word_of_int uid :: u32));
        put_task_struct task;
        simple_read_from_buffer K cnt ppos tmpbuf
      })
   }"

definition proc_loginuid_write :: "kenv \<Rightarrow> ptr \<Rightarrow> ptr \<Rightarrow> nat \<Rightarrow> int \<Rightarrow> int k" where
  "proc_loginuid_write K file buf cnt ppos = do {
     inode \<leftarrow> file_inode file;
     may \<leftarrow> capable K CAP_AUDIT_CONTROL;
     (if may = 0 then return (- EPERM)
      else do {
        cur \<leftarrow> current K;
        ei \<leftarrow> get_inode inode;
        task \<leftarrow> pid_task K (ei_pid ei);
        (if cur \<noteq> task then return (- EPERM)
         else do {
           let cnt = (if PAGE_SIZE \<le> cnt then PAGE_SIZE - 1 else cnt);
           (if ppos \<noteq> 0 then return (- EINVAL)
            else do {
              page \<leftarrow> get_free_page K;
              (if page = NULL then return (- ENOMEM)
               else do {
                 (fault, bs) \<leftarrow> copy_from_user K buf cnt;
                 len \<leftarrow> (if fault \<noteq> 0 then return (- EFAULT)
                   else do {
                     let text = bs @ [CHR 0x00];
                     let loginuid = (of_nat (fst (simple_strtoul K text 10)) :: u32);
                     let tmp = snd (simple_strtoul K text 10);
                     (if tmp = 0 then return (- EINVAL)
                      else do {
                        r \<leftarrow> call_int K ''audit_set_loginuid'' [int cur, uint loginuid];
                        return (if r = 0 then int cnt else r)
                      })
                   });
                 free_page page;
                 return len
               })
            })
         })
      })
   }"

definition proc_sessionid_read :: "kenv \<Rightarrow> ptr \<Rightarrow> nat \<Rightarrow> int \<Rightarrow> (int \<times> int) k" where
  "proc_sessionid_read K file cnt ppos = do {
     inode \<leftarrow> file_inode file;
     task \<leftarrow> get_proc_task K inode;
     (if task = NULL then return (- ESRCH, ppos)
      else do {
        sid \<leftarrow> call_int K ''audit_get_sessionid'' [int task];
        let tmpbuf = snprintf_buf TMPBUFLEN (fmt_lu (word_of_int sid :: u32));
        put_task_struct task;
        simple_read_from_buffer K cnt ppos tmpbuf
      })
   }"

text \<open>\<open>security_getprocattr\<close> allocates the text it returns; the caller frees it.\<close>

definition proc_pid_attr_read :: "kenv \<Rightarrow> ptr \<Rightarrow> nat \<Rightarrow> int \<Rightarrow> (int \<times> int) k" where
  "proc_pid_attr_read K file cnt ppos = do {
     inode \<leftarrow> file_inode file;
     task \<leftarrow> get_proc_task K inode;
     (if task = NULL then return (- ESRCH, ppos)
      else do {
        \<sigma> \<leftarrow> get_st;
        let name = d_name (dentries \<sigma> (f_dentry (filps \<sigma> file)));
        len \<leftarrow> ask_int K (VfsQ (Q_security task name));
        p \<leftarrow> acq_ptr K (VfsQ (Q_security task name)) RMem;
        text \<leftarrow> ask_str K (VfsQ (Q_security task name));
        put_task_struct task;
        r \<leftarrow> (if len > 0 then simple_read_from_buffer K cnt ppos (take (nat len) text)
              else return (len, ppos));
        kfree p;
        return r
      })
   }"

definition proc_pid_attr_write :: "kenv \<Rightarrow> ptr \<Rightarrow> ptr \<Rightarrow> nat \<Rightarrow> int \<Rightarrow> int k" where
  "proc_pid_attr_write K file buf cnt ppos = do {
     inode \<leftarrow> file_inode file;
     task \<leftarrow> get_proc_task K inode;
     (if task = NULL then return (- ESRCH)
      else do {
        let cnt = min cnt PAGE_SIZE;
        len \<leftarrow> (if ppos \<noteq> 0 then return (- EINVAL)
          else do {
            page \<leftarrow> get_free_page K;
            (if page = NULL then return (- ENOMEM)
             else do {
               (fault, bs) \<leftarrow> copy_from_user K buf cnt;
               len \<leftarrow> (if fault \<noteq> 0 then return (- EFAULT)
                 else do {
                   \<sigma> \<leftarrow> get_st;
                   let name = d_name (dentries \<sigma> (f_dentry (filps \<sigma> file)));
                   call_int K (''security_setprocattr '' @ name @ '' '' @ take cnt bs) [int task]
                 });
               free_page page;
               return len
             })
          });
        put_task_struct task;
        return len
      })
   }"

section \<open>The contract of an integer setting\<close>

abbreviation file_ino :: "store \<Rightarrow> ptr \<Rightarrow> ptr" where
  "file_ino \<sigma> file \<equiv> d_inode (dentries \<sigma> (f_dentry (filps \<sigma> file)))"

text \<open>The tasks a file of procfs can stand for.\<close>

abbreviation task_of :: "kenv \<Rightarrow> store \<Rightarrow> ptr \<Rightarrow> ptr \<Rightarrow> bool" where
  "task_of K \<sigma> file t \<equiv> may_ptr K (TaskQ (Q_get_proc_task (file_ino \<sigma> file))) t"

text \<open>
  What \<open>simple_strtol\<close> promises of the decimal text of an \<open>int\<close> followed by a newline: the
  value, and that it stops at the newline.
\<close>

definition strtol_law :: "kenv \<Rightarrow> bool" where
  "strtol_law K \<longleftrightarrow> (\<forall>i rest. - (2 ^ 31) \<le> i \<longrightarrow> i < 2 ^ 31 \<longrightarrow>
     simple_strtol K (fmt_d i @ CHR 0x0A # rest) 0 = (i, length (fmt_d i)))"

text \<open>The outcome of a write: an error and no change, or the parsed value is stored.\<close>

definition stored ::
    "kenv \<Rightarrow> (ptr \<Rightarrow> int \<Rightarrow> store \<Rightarrow> store) \<Rightarrow> (int \<Rightarrow> bool) \<Rightarrow> ptr \<Rightarrow> ptr \<Rightarrow> nat \<Rightarrow> store \<Rightarrow> int \<Rightarrow> store \<Rightarrow> bool" where
  "stored K put valid file buf cnt \<sigma> r \<sigma>' \<longleftrightarrow>
     r < 0 \<and> \<sigma>' = \<sigma> \<or>
     (\<exists>t bs v e. t \<noteq> NULL \<and> task_of K \<sigma> file t \<and>
        may_str K (MmQ (Q_user_bytes buf (min cnt (PROC_NUMBUF - 1)))) bs \<and>
        simple_strtol K (numbuf bs) 0 = (v, e) \<and> valid (s32 v) \<and> \<sigma>' = put t (s32 v) \<sigma> \<and>
        r = parsed_len (skip_newline (numbuf bs) e))"

text \<open>The outcome of a read: the process is gone, or its value is served as text.\<close>

definition shown :: "kenv \<Rightarrow> (store \<Rightarrow> ptr \<Rightarrow> int) \<Rightarrow> ptr \<Rightarrow> nat \<Rightarrow> int \<Rightarrow> store \<Rightarrow> int \<times> int \<Rightarrow> store \<Rightarrow> bool" where
  "shown K get file cnt ppos \<sigma> r \<sigma>' \<longleftrightarrow>
     task_of K \<sigma> file NULL \<and> r = (- ESRCH, ppos) \<and> \<sigma>' = \<sigma> \<or>
     (\<exists>t. t \<noteq> NULL \<and> task_of K \<sigma> file t \<and>
        served K cnt ppos (snprintf_buf PROC_NUMBUF (fmt_d (get \<sigma> t) @ [CHR 0x0A])) r \<sigma> \<sigma>')"

locale int_setting =
  fixes K :: kenv
    and get :: "store \<Rightarrow> ptr \<Rightarrow> int" and put :: "ptr \<Rightarrow> int \<Rightarrow> store \<Rightarrow> store" and valid :: "int \<Rightarrow> bool"
    and rd :: "ptr \<Rightarrow> nat \<Rightarrow> int \<Rightarrow> (int \<times> int) k" and wr :: "ptr \<Rightarrow> ptr \<Rightarrow> nat \<Rightarrow> int k"
  assumes rd_spec: "simple_read_law K \<Longrightarrow>
        owns {#} \<sigma> (rd file cnt ppos) (\<lambda>r d \<sigma>'. d = {#} \<and> shown K get file cnt ppos \<sigma> r \<sigma>')"
    and wr_spec: "owns {#} \<sigma> (wr file buf cnt) (\<lambda>r d \<sigma>'. d = {#} \<and> stored K put valid file buf cnt \<sigma> r \<sigma>')"
    and get_put: "get (put t v \<sigma>) t = v"
    and put_frame: "file_ino (put t v \<sigma>) file = file_ino \<sigma> file"
begin

text \<open>Writing the text of a value, then reading the file from its start, gives the text back.\<close>

lemma roundtrip:
  assumes laws: "simple_read_law K" "strtol_law K"
    and task: "\<And>t. task_of K \<sigma> file t \<Longrightarrow> t = task" "task \<noteq> NULL"
    and v: "- (2 ^ 31) \<le> v" "v < 2 ^ 31"
    and bytes: "\<And>bs. may_str K (MmQ (Q_user_bytes buf (length (fmt_d v) + 1))) bs \<Longrightarrow> bs = fmt_d v @ [CHR 0x0A]"
  shows "owns {#} \<sigma> (do { r \<leftarrow> wr file buf (length (fmt_d v) + 1);
      x \<leftarrow> (if 0 < r then rd file cnt 0 else return (0, 0));
      return (r, x) })
    (\<lambda>r d \<sigma>'. d = {#} \<and> (fst r < 0 \<and> \<sigma>' = \<sigma> \<or> fst r = int (length (fmt_d v) + 1) \<and> valid v \<and>
       served K cnt 0 (fmt_d v @ [CHR 0x0A]) (snd r) (put task v \<sigma>) \<sigma>'))"
proof (rule owns_bind, rule owns_mono [OF wr_spec], elim conjE)
  fix r and d :: "res multiset" and \<sigma>'
  assume d: "d = {#}" and st: "stored K put valid file buf (length (fmt_d v) + 1) \<sigma> r \<sigma>'"
  have l: "length (fmt_d v) \<le> 11" using v by (rule length_fmt_d)
  obtain rest where nb: "numbuf (fmt_d v @ [CHR 0x0A]) = fmt_d v @ CHR 0x0A # rest"
    using l by (auto simp: numbuf_def take_Cons')
  have e: "simple_strtol K (numbuf (fmt_d v @ [CHR 0x0A])) 0 = (v, length (fmt_d v))"
    "skip_newline (numbuf (fmt_d v @ [CHR 0x0A])) (length (fmt_d v)) = length (fmt_d v) + 1"
    using laws(2) v nb by (simp_all add: strtol_law_def skip_newline_def nth_append)
  have "r < 0 \<and> \<sigma>' = \<sigma> \<or>
      r = int (length (fmt_d v) + 1) \<and> valid v \<and> \<sigma>' = put task v \<sigma>"
    using st l e v by (auto simp: stored_def parsed_len_def dest!: task(1) bytes [simplified])
  then show "owns d \<sigma>' (do { x \<leftarrow> (if 0 < r then rd file cnt 0 else return (0, 0)); return (r, x) })
      (\<lambda>r d \<sigma>'. d = {#} \<and> (fst r < 0 \<and> \<sigma>' = \<sigma> \<or> fst r = int (length (fmt_d v) + 1) \<and> valid v \<and>
         served K cnt 0 (fmt_d v @ [CHR 0x0A]) (snd r) (put task v \<sigma>) \<sigma>'))"
  proof (elim disjE conjE)
    assume r: "r = int (length (fmt_d v) + 1)" "valid v" "\<sigma>' = put task v \<sigma>"
    have "snprintf_buf PROC_NUMBUF (fmt_d v @ [CHR 0x0A]) = fmt_d v @ [CHR 0x0A]"
      using l by (simp add: snprintf_buf_def)
    then show ?thesis
      using task r d
      by (auto intro!: owns_bind owns_return owns_mono [OF rd_spec [OF laws(1)]] simp: shown_def put_frame get_put
          dest!: task(1))
  qed (use d in \<open>auto intro!: owns_intros\<close>)
qed

end

lemma oom_adjust_rd_spec:
  "simple_read_law K \<Longrightarrow> owns {#} \<sigma> (oom_adjust_read K file cnt ppos)
    (\<lambda>r d \<sigma>'. d = {#} \<and> shown K oomkilladj file cnt ppos \<sigma> r \<sigma>')"
  unfolding oom_adjust_read_def
  by (auto intro!: owns_intros simp: kernel_defs shown_def)

text \<open>Which adjustments may be written.\<close>

definition oom_valid :: "int \<Rightarrow> bool" where
  "oom_valid v \<longleftrightarrow> v = OOM_DISABLE \<or> OOM_ADJUST_MIN \<le> v \<and> v \<le> OOM_ADJUST_MAX"

definition put_oom :: "ptr \<Rightarrow> int \<Rightarrow> store \<Rightarrow> store" where
  "put_oom t v \<sigma> = \<sigma>\<lparr>oomkilladj := (oomkilladj \<sigma>)(t := v)\<rparr>"

definition put_fail :: "ptr \<Rightarrow> int \<Rightarrow> store \<Rightarrow> store" where
  "put_fail t v \<sigma> = \<sigma>\<lparr>make_it_fail := (make_it_fail \<sigma>)(t := v)\<rparr>"

lemma stored_error: "r < 0 \<Longrightarrow> stored K put valid file buf cnt \<sigma> r \<sigma>"
  by (simp add: stored_def)

lemma storedI:
  assumes "task_of K \<sigma> file t" "0 < t" "may_str K (MmQ (Q_user_bytes buf (min cnt 12))) bs"
    "valid (s32 (fst (simple_strtol K (numbuf bs) 0)))"
    "\<sigma>' = put t (s32 (fst (simple_strtol K (numbuf bs) 0))) \<sigma>"
    "r = parsed_len (skip_newline (numbuf bs) (snd (simple_strtol K (numbuf bs) 0)))"
  shows "stored K put valid file buf cnt \<sigma> r \<sigma>'"
  unfolding stored_def using assms by (intro disjI2 exI [of _ t] exI [of _ bs] exI) auto

lemma oom_adjust_wr_spec:
  "owns {#} \<sigma> (oom_adjust_write K file buf cnt)
    (\<lambda>r d \<sigma>'. d = {#} \<and> stored K put_oom oom_valid file buf cnt \<sigma> r \<sigma>')"
  unfolding oom_adjust_write_def
  by (auto intro!: owns_intros stored_error simp: kernel_defs split: prod.splits)
    (erule storedI, simp, assumption, auto simp: put_oom_def oom_valid_def)+

interpretation oom: int_setting K oomkilladj put_oom oom_valid "oom_adjust_read K" "oom_adjust_write K"
  by unfold_locales (use oom_adjust_rd_spec oom_adjust_wr_spec in \<open>simp_all add: put_oom_def\<close>)

lemma fault_inject_rd_spec:
  "simple_read_law K \<Longrightarrow> owns {#} \<sigma> (proc_fault_inject_read K file cnt ppos)
    (\<lambda>r d \<sigma>'. d = {#} \<and> shown K make_it_fail file cnt ppos \<sigma> r \<sigma>')"
  unfolding proc_fault_inject_read_def
  by (auto intro!: owns_intros simp: kernel_defs shown_def)

lemma fault_inject_wr_spec:
  "owns {#} \<sigma> (proc_fault_inject_write K file buf cnt)
    (\<lambda>r d \<sigma>'. d = {#} \<and> stored K put_fail (\<lambda>_. True) file buf cnt \<sigma> r \<sigma>')"
  unfolding proc_fault_inject_write_def
  by (auto intro!: owns_intros stored_error simp: kernel_defs split: prod.splits)
    (erule storedI, simp, assumption, auto simp: put_fail_def)+

interpretation fail: int_setting K make_it_fail put_fail "\<lambda>_. True" "proc_fault_inject_read K" "proc_fault_inject_write K"
  by unfold_locales (use fault_inject_rd_spec fault_inject_wr_spec in \<open>simp_all add: put_fail_def\<close>)

section \<open>Properties\<close>


text \<open>
  Property C23. \<open>oom_adj\<close> is a register: after the decimal text of an \<open>int\<close> and a newline were
  written with success, a read from the start of the file serves exactly that text, and the value was
  an admissible one. It rests on what \<open>simple_strtol\<close> and \<open>simple_read_from_buffer\<close>
  promise, and on the process staying the same between the two calls.
\<close>

theorem oom_adjust_roundtrip:
  assumes "simple_read_law K" "strtol_law K"
    and "\<And>t. task_of K \<sigma> file t \<Longrightarrow> t = task" "task \<noteq> NULL"
    and "- (2 ^ 31) \<le> v" "v < 2 ^ 31"
    and "\<And>bs. may_str K (MmQ (Q_user_bytes buf (length (fmt_d v) + 1))) bs \<Longrightarrow> bs = fmt_d v @ [CHR 0x0A]"
  shows "owns {#} \<sigma> (do { r \<leftarrow> oom_adjust_write K file buf (length (fmt_d v) + 1);
      x \<leftarrow> (if 0 < r then oom_adjust_read K file cnt 0 else return (0, 0));
      return (r, x) })
    (\<lambda>r d \<sigma>'. d = {#} \<and> (fst r < 0 \<and> \<sigma>' = \<sigma> \<or> fst r = int (length (fmt_d v) + 1) \<and> oom_valid v \<and>
       served K cnt 0 (fmt_d v @ [CHR 0x0A]) (snd r) (put_oom task v \<sigma>) \<sigma>'))"
  using assms by (rule oom.roundtrip)

text \<open>A kernel that parses decimal texts, in which the caller writes \<open>-17\<close> and a newline.\<close>

definition ex_strtol :: "string \<Rightarrow> nat \<Rightarrow> int \<times> nat" where
  "ex_strtol s base =
     (case s of [] \<Rightarrow> (0, 0)
      | c # s' \<Rightarrow>
        (let ds = takeWhile is_digit (if c = CHR ''-'' then s' else s) in
         if c = CHR ''-'' then (- int (dec_value ds), length ds + 1) else (int (dec_value ds), length ds)))"

definition ex_settings :: kenv where
  "ex_settings = (ex_kernel 7 0)\<lparr>simple_strtol := ex_strtol,
     ans_str := \<lambda>_ q. (case q of MmQ (Q_user_bytes buf n) \<Rightarrow> take n (''-17'' @ [CHR 0x0A]) | _ \<Rightarrow> [])\<rparr>"

lemma takeWhile_fmt_u: "takeWhile is_digit (fmt_u n @ CHR 0x0A # rest) = fmt_u n"
  using fmt_u_digits [of n] by (simp add: takeWhile_append is_digit_def)

lemma ex_settings_laws [simp]: "strtol_law ex_settings" "simple_read_law ex_settings"
proof -
  have d: "fmt_u n = c # s \<Longrightarrow> c \<noteq> CHR ''-''" for n c s
    using fmt_u_digits [of n] by (auto simp: is_digit_def)
  have "ex_strtol (fmt_d i @ CHR 0x0A # rest) 0 = (i, length (fmt_d i))" for i rest
    using takeWhile_fmt_u [of "nat i" rest] takeWhile_fmt_u [of "nat (- i)" rest]
      dec_value_fmt_u [of "nat i"] dec_value_fmt_u [of "nat (- i)"]
    by (cases "fmt_u (nat i)") (auto simp: ex_strtol_def fmt_d_def Let_def dest: d)
  then show "strtol_law ex_settings" by (simp add: strtol_law_def ex_settings_def)
  show "simple_read_law ex_settings"
    by (simp add: simple_read_law_def ex_settings_def ex_kernel_def may_int_def)
qed

lemma ex_settings_answers [simp]:
  "may_ptr ex_settings q t \<longleftrightarrow> t = 7"
  "may_str ex_settings (MmQ (Q_user_bytes buf n)) bs \<longleftrightarrow> bs = take n (''-17'' @ [CHR 0x0A])"
  by (auto simp: ex_settings_def ex_kernel_def may_ptr_def may_str_def)

lemma fmt_d_minus_17: "fmt_d (- 17) = ''-17''"
  by code_simp

theorem oom_adjust_roundtrip_witness:
  "simple_read_law ex_settings \<and> strtol_law ex_settings \<and>
   owns {#} ex_store (do { r \<leftarrow> oom_adjust_write ex_settings 1 2 (length ''-17'' + 1);
      x \<leftarrow> (if 0 < r then oom_adjust_read ex_settings 1 10 0 else return (0, 0));
      return (r, x) })
    (\<lambda>r d \<sigma>'. d = {#} \<and> (fst r < 0 \<and> \<sigma>' = ex_store \<or> fst r = 4 \<and> oom_valid (- 17) \<and>
       served ex_settings 10 0 ''-17\<newline>'' (snd r) (put_oom 7 (- 17) ex_store) \<sigma>'))"
  using oom_adjust_roundtrip [of ex_settings ex_store 1 7 "- 17" 2 10]
  by (simp add: fmt_d_minus_17)

section \<open>The core dump filter\<close>

lemma set_dump_bits_spec:
  assumes "sh + i + n \<le> 32" "msk = push_bit i 1"
    and "\<And>f. (\<forall>j < 32. bit f j \<longleftrightarrow>
        (if sh + i \<le> j \<and> j < sh + i + n then bit val (j - sh) else bit (mm_flags \<sigma> mm) j)) \<Longrightarrow>
      Q () d (\<sigma>\<lparr>mm_flags := (mm_flags \<sigma>)(mm := f)\<rparr>)"
  shows "owns d \<sigma> (set_dump_bits sh val mm n i msk) Q"
  using assms
proof (induction n arbitrary: i msk \<sigma>)
  case 0
  have "\<forall>j < 32. bit (mm_flags \<sigma> mm) j \<longleftrightarrow>
      (if sh + i \<le> j \<and> j < sh + i + 0 then bit val (j - sh) else bit (mm_flags \<sigma> mm) j)"
    by auto
  from "0.prems"(3) [OF this] show ?case by (auto intro!: owns_intros)
next
  case (Suc n)
  have t: "val AND msk = 0 \<longleftrightarrow> \<not> bit val i"
    using Suc.prems(1,2) by (simp add: push_bit_eq_mult and_exp_eq_0_iff_not_bit)
  have "owns d (\<sigma>\<lparr>mm_flags := (mm_flags \<sigma>)(mm := g)\<rparr>) (set_dump_bits sh val mm n (Suc i) (push_bit (Suc 0) msk)) Q"
    if g: "\<forall>j < 32. bit g j \<longleftrightarrow> (if j = i + sh then bit val i else bit (mm_flags \<sigma> mm) j)" for g
  proof (rule Suc.IH)
    fix f :: u32
    assume "\<forall>j < 32. bit f j \<longleftrightarrow> (if sh + Suc i \<le> j \<and> j < sh + Suc i + n then bit val (j - sh)
      else bit (mm_flags (\<sigma>\<lparr>mm_flags := (mm_flags \<sigma>)(mm := g)\<rparr>) mm) j)"
    then have "\<forall>j < 32. bit f j \<longleftrightarrow> (if sh + i \<le> j \<and> j < sh + i + Suc n then bit val (j - sh)
      else bit (mm_flags \<sigma> mm) j)"
      using g by (auto simp: not_less Suc_le_eq le_less)
    then have "Q () d (\<sigma>\<lparr>mm_flags := (mm_flags \<sigma>)(mm := f)\<rparr>)" by (rule Suc.prems(3))
    moreover have "\<sigma>\<lparr>mm_flags := (mm_flags \<sigma>)(mm := g)\<rparr>\<lparr>mm_flags :=
        (mm_flags (\<sigma>\<lparr>mm_flags := (mm_flags \<sigma>)(mm := g)\<rparr>))(mm := f)\<rparr> = \<sigma>\<lparr>mm_flags := (mm_flags \<sigma>)(mm := f)\<rparr>"
      by simp
    ultimately show "Q () d (\<sigma>\<lparr>mm_flags := (mm_flags \<sigma>)(mm := g)\<rparr>\<lparr>mm_flags :=
        (mm_flags (\<sigma>\<lparr>mm_flags := (mm_flags \<sigma>)(mm := g)\<rparr>))(mm := f)\<rparr>)" by (simp only:)
  qed (use Suc.prems in simp_all)
  then show ?case
    by (auto intro!: owns_intros simp: t bit_set_bit_iff bit_unset_bit_iff)
qed

text \<open>The bits of the filter, and those next to it.\<close>

definition dump_bits_set :: "nat \<Rightarrow> nat \<Rightarrow> u32 \<Rightarrow> u32 \<Rightarrow> u32 \<Rightarrow> bool" where
  "dump_bits_set sh bits val flags f \<longleftrightarrow>
     dump_filter sh bits f = val AND mask bits \<and>
     f AND NOT (dump_filter_mask sh bits) = flags AND NOT (dump_filter_mask sh bits)"

lemma dump_bits_setI:
  assumes "sh + bits \<le> 32"
    "\<forall>j < 32. bit f j \<longleftrightarrow> (if sh \<le> j \<and> j < sh + bits then bit val (j - sh) else bit flags j)"
  shows "dump_bits_set sh bits val flags f"
proof -
  have "bit (dump_filter sh bits f) j \<longleftrightarrow> bit (val AND mask bits) j" if "j < 32" for j
    using assms that
    by (auto simp: dump_filter_def dump_filter_mask_def bit_drop_bit_eq bit_and_iff bit_push_bit_iff bit_mask_iff)
  moreover have "bit (f AND NOT (dump_filter_mask sh bits)) j \<longleftrightarrow> bit (flags AND NOT (dump_filter_mask sh bits)) j"
    if "j < 32" for j
    using assms that
    by (auto simp: dump_filter_mask_def bit_and_iff bit_not_iff bit_push_bit_iff bit_mask_iff)
  ultimately show ?thesis unfolding dump_bits_set_def by (auto intro!: bit_word_eqI)
qed

text \<open>The outcome of a write to \<open>coredump_filter\<close>.\<close>

definition coredump_post ::
    "kenv \<Rightarrow> nat \<Rightarrow> nat \<Rightarrow> ptr \<Rightarrow> ptr \<Rightarrow> nat \<Rightarrow> store \<Rightarrow> int \<Rightarrow> store \<Rightarrow> bool" where
  "coredump_post K sh bits file buf cnt \<sigma> r \<sigma>' \<longleftrightarrow>
     r \<in> {- EFAULT, - EINVAL, - ESRCH} \<and> \<sigma>' = \<sigma> \<or>
     0 < r \<and> (\<exists>t. task_of K \<sigma> file t \<and> t \<noteq> NULL \<and>
       (may_ptr K (MmQ (Q_get_task_mm t)) NULL \<and> \<sigma>' = \<sigma> \<or>
        (\<exists>mm bs f. mm \<noteq> NULL \<and> may_ptr K (MmQ (Q_get_task_mm t)) mm \<and>
           may_str K (MmQ (Q_user_bytes buf (min cnt (PROC_NUMBUF - 1)))) bs \<and>
           \<sigma>' = \<sigma>\<lparr>mm_flags := (mm_flags \<sigma>)(mm := f)\<rparr> \<and>
           dump_bits_set sh bits (of_nat (fst (simple_strtoul K (numbuf bs) 0))) (mm_flags \<sigma> mm) f)))"

lemma coredump_post_errors:
  "coredump_post K sh bits file buf cnt \<sigma> (- 14) \<sigma>" "coredump_post K sh bits file buf cnt \<sigma> (- 22) \<sigma>"
  "coredump_post K sh bits file buf cnt \<sigma> (- 3) \<sigma>"
  by (simp_all add: coredump_post_def)

lemma coredump_post_no_mm:
  "task_of K \<sigma> file t \<Longrightarrow> 0 < t \<Longrightarrow> 0 < r \<Longrightarrow> may_ptr K (MmQ (Q_get_task_mm t)) 0 \<Longrightarrow>
   coredump_post K sh bits file buf cnt \<sigma> r \<sigma>"
  unfolding coredump_post_def by (intro disjI2) (auto)

lemma coredump_post_set:
  assumes "task_of K \<sigma> file t" "0 < t" "0 < r" "may_ptr K (MmQ (Q_get_task_mm t)) mm" "0 < mm"
    "may_str K (MmQ (Q_user_bytes buf (min cnt 12))) bs" "sh + bits \<le> 32"
    "\<forall>j < 32. bit f j \<longleftrightarrow> (if sh \<le> j \<and> j < sh + bits then bit (of_nat (fst (simple_strtoul K (numbuf bs) 0)) :: u32) (j - sh)
      else bit (mm_flags \<sigma> mm) j)"
  shows "coredump_post K sh bits file buf cnt \<sigma> r (\<sigma>\<lparr>mm_flags := (mm_flags \<sigma>)(mm := f)\<rparr>)"
  unfolding coredump_post_def using assms(1-6) dump_bits_setI [OF assms(7,8)] by (intro disjI2) auto

lemma coredump_filter_write_spec:
  assumes "sh + bits \<le> 32"
  shows "owns {#} \<sigma> (proc_coredump_filter_write K sh bits file buf cnt)
    (\<lambda>r d \<sigma>'. d = {#} \<and> coredump_post K sh bits file buf cnt \<sigma> r \<sigma>')"
  unfolding proc_coredump_filter_write_def
  by (auto intro!: owns_intros set_dump_bits_spec coredump_post_errors simp: kernel_defs assms split: prod.splits
     )
    ((erule (1) coredump_post_no_mm, simp, assumption)
      | (erule (1) coredump_post_set, simp, assumption, assumption, assumption, rule assms, assumption))+

text \<open>
  Property C24. Writing \<open>coredump_filter\<close>: the call is balanced; an error changes nothing; otherwise
  the flags of the process's memory descriptor are changed exactly in the filter field, which then holds
  the low bits of the value that was parsed (so that the next read shows them), and the other flags,
  which lie in the same word, are kept. A process without a memory descriptor is left alone.
\<close>

theorem coredump_filter_write_correct:
  assumes "sh + bits \<le> 32"
  shows "owns {#} \<sigma> (proc_coredump_filter_write K sh bits file buf cnt)
    (\<lambda>r d \<sigma>'. d = {#} \<and> coredump_post K sh bits file buf cnt \<sigma> r \<sigma>')"
  using assms by (rule coredump_filter_write_spec)

theorem coredump_filter_write_correct_witness:
  "(2 :: nat) + 7 \<le> 32 \<and> owns {#} ex_store (proc_coredump_filter_write ex_settings 2 7 1 2 4)
    (\<lambda>r d \<sigma>'. d = {#} \<and> coredump_post ex_settings 2 7 1 2 4 ex_store r \<sigma>')"
  using coredump_filter_write_correct [of 2 7 ex_store ex_settings 1 2 4] by simp

section \<open>The other files are balanced\<close>

lemma coredump_filter_read_spec:
  "simple_read_law K \<Longrightarrow> owns {#} \<sigma> (proc_coredump_filter_read K sh bits file cnt ppos)
    (\<lambda>r d \<sigma>'. d = {#} \<and> (\<sigma>' = \<sigma> \<and> (r = (- ESRCH, ppos) \<or> r = (0, ppos)) \<or>
      (\<exists>mm. served K cnt ppos
        (snprintf_buf PROC_NUMBUF (fmt_zpad 8 (fmt_lx (dump_filter sh bits (mm_flags \<sigma> mm))) @ [CHR 0x0A])) r \<sigma> \<sigma>')))"
  unfolding proc_coredump_filter_read_def
  by (auto intro!: owns_intros simp: kernel_defs)

text \<open>The login uid is changed only by the process itself, with the capability, from the start of the file.\<close>

lemma loginuid_write_spec:
  "owns {#} \<sigma> (proc_loginuid_write K file buf cnt ppos) (\<lambda>r d \<sigma>'. d = {#} \<and> \<sigma>' = \<sigma> \<and>
     (r < 0 \<or> ppos = 0 \<and> (\<exists>x cur. may_int K (AccessQ (Q_capable CAP_AUDIT_CONTROL)) x \<and> x \<noteq> 0 \<and>
        may_ptr K (TaskQ Q_current) cur \<and> may_ptr K (TaskQ (Q_pid_task (ei_pid (inodes \<sigma> (file_ino \<sigma> file))))) cur)))"
  unfolding proc_loginuid_write_def
  by (auto intro!: owns_intros simp: kernel_defs split: prod.splits) blast+

lemma loginuid_read_spec:
  "simple_read_law K \<Longrightarrow> owns {#} \<sigma> (proc_loginuid_read K file cnt ppos) (\<lambda>r d \<sigma>'. d = {#} \<and> dentries \<sigma>' = dentries \<sigma>)"
  "simple_read_law K \<Longrightarrow> owns {#} \<sigma> (proc_sessionid_read K file cnt ppos) (\<lambda>r d \<sigma>'. d = {#} \<and> dentries \<sigma>' = dentries \<sigma>)"
  unfolding proc_loginuid_read_def proc_sessionid_read_def
  by (auto intro!: owns_intros simp: kernel_defs dest: served_dentries)

lemma attr_spec:
  "simple_read_law K \<Longrightarrow> owns {#} \<sigma> (proc_pid_attr_read K file cnt ppos) (\<lambda>r d \<sigma>'. d = {#} \<and> dentries \<sigma>' = dentries \<sigma>)"
  "owns {#} \<sigma> (proc_pid_attr_write K file buf cnt ppos) (\<lambda>r d \<sigma>'. d = {#} \<and> \<sigma>' = \<sigma>)"
  unfolding proc_pid_attr_read_def proc_pid_attr_write_def
  by (auto intro!: owns_intros simp: kernel_defs dest: served_dentries split: prod.splits)

end
