(* ===== verification/Links.thy ===== *)
theory Links
  imports Proc_Settings
begin

text \<open>
  Links to objects of a process: the \<open>proc_get_link\<close> functions (\<open>cwd\<close>, \<open>root\<close>,
  \<open>exe\<close>, \<open>fd/N\<close>), \<open>readlink\<close> and \<open>follow_link\<close> on them, \<open>/proc/self\<close>,
  \<open>fdinfo\<close>, the permission checks in front of them, and the reference a memory descriptor holds on
  the executable it runs (\<open>added_exe_file_vma\<close> and its companions).
  A \<open>proc_get_link\<close> function returns its result and the path, on which it took a reference when the
  result is 0.
\<close>

section \<open>Permissions\<close>

definition path_get :: "ptr \<Rightarrow> unit k" where [kernel_defs]:
  "path_get p = emit (Acq (RPath p))"

definition path_put :: "ptr \<Rightarrow> unit k" where [kernel_defs]:
  "path_put p = emit (Rel (RPath p))"

definition get_file :: "ptr \<Rightarrow> unit k" where [kernel_defs]:
  "get_file f = emit (Acq (RFile f))"

definition fput :: "ptr \<Rightarrow> unit k" where [kernel_defs]:
  "fput f = emit (Rel (RFile f))"

definition proc_fd_access_allowed :: "kenv \<Rightarrow> ptr \<Rightarrow> int k" where
  "proc_fd_access_allowed K inode = do {
     task \<leftarrow> get_proc_task K inode;
     (if task \<noteq> NULL then do {
        allowed \<leftarrow> ptrace_may_access K task PTRACE_MODE_READ;
        put_task_struct task;
        return allowed
      } else return 0)
   }"

abbreviation (input) ATTR_MODE :: u32 where "ATTR_MODE \<equiv> 1"

definition proc_setattr :: "kenv \<Rightarrow> ptr \<Rightarrow> ptr \<Rightarrow> int k" where
  "proc_setattr K dentry attr = do {
     e \<leftarrow> get_dentry dentry;
     let inode = d_inode e;
     valid \<leftarrow> field_u32 K (AccessQ (Q_ia_valid attr));
     (if valid AND ATTR_MODE \<noteq> 0 then return (- EPERM)
      else do {
        error \<leftarrow> ask_int K (AccessQ (Q_inode_change_ok inode));
        (if error = 0 then ask_int K (AccessQ (Q_inode_setattr inode)) else return error)
      })
   }"

definition proc_fd_permission :: "kenv \<Rightarrow> ptr \<Rightarrow> int \<Rightarrow> int k" where
  "proc_fd_permission K inode msk = do {
     rv \<leftarrow> ask_int K (AccessQ (Q_generic_permission inode msk));
     (if rv = 0 then return 0
      else do {
        cur \<leftarrow> current K;
        pid \<leftarrow> task_pid K cur;
        ei \<leftarrow> get_inode inode;
        return (if pid = ei_pid ei then 0 else rv)
      })
   }"

section \<open>The targets of links\<close>

definition get_fs_path :: "kenv \<Rightarrow> ptr \<Rightarrow> bool \<Rightarrow> (int \<times> ptr) k" where
  "get_fs_path K task root = do {
     task_lock task;
     fs \<leftarrow> ask_ptr K (VfsQ (Q_task_fs task));
     r \<leftarrow> (if fs \<noteq> NULL then do {
         read_lock_fs fs;
         path \<leftarrow> ask_ptr K (VfsQ (if root then Q_fs_root fs else Q_fs_pwd fs));
         path_get path;
         read_unlock_fs fs;
         return (0, path)
       } else return (- ENOENT, NULL));
     task_unlock task;
     return r
   }"

definition proc_cwd_link :: "kenv \<Rightarrow> ptr \<Rightarrow> (int \<times> ptr) k" where
  "proc_cwd_link K inode = do {
     task \<leftarrow> get_proc_task K inode;
     (if task \<noteq> NULL then do {
        r \<leftarrow> get_fs_path K task False;
        put_task_struct task;
        return r
      } else return (- ENOENT, NULL))
   }"

definition proc_root_link :: "kenv \<Rightarrow> ptr \<Rightarrow> (int \<times> ptr) k" where
  "proc_root_link K inode = do {
     task \<leftarrow> get_proc_task K inode;
     (if task \<noteq> NULL then do {
        r \<leftarrow> get_fs_path K task True;
        put_task_struct task;
        return r
      } else return (- ENOENT, NULL))
   }"

section \<open>The executable of a memory descriptor\<close>

definition get_exe_file :: "ptr \<Rightarrow> ptr k" where [kernel_defs]:
  "get_exe_file mm = do { \<sigma> \<leftarrow> get_st; return (exe_file \<sigma> mm) }"

definition put_exe_file :: "ptr \<Rightarrow> ptr \<Rightarrow> unit k" where [kernel_defs]:
  "put_exe_file mm f = upd_st (\<lambda>\<sigma>. \<sigma>\<lparr>exe_file := (exe_file \<sigma>)(mm := f)\<rparr>)"

definition upd_exe_vmas :: "ptr \<Rightarrow> (u32 \<Rightarrow> u32) \<Rightarrow> unit k" where [kernel_defs]:
  "upd_exe_vmas mm f = upd_st (\<lambda>\<sigma>. \<sigma>\<lparr>num_exe_file_vmas := (num_exe_file_vmas \<sigma>)(mm := f (num_exe_file_vmas \<sigma> mm))\<rparr>)"

definition added_exe_file_vma :: "ptr \<Rightarrow> unit k" where
  "added_exe_file_vma mm = upd_exe_vmas mm (\<lambda>n. n + 1)"

definition removed_exe_file_vma :: "ptr \<Rightarrow> unit k" where
  "removed_exe_file_vma mm = do {
     upd_exe_vmas mm (\<lambda>n. n - 1);
     \<sigma> \<leftarrow> get_st;
     (if num_exe_file_vmas \<sigma> mm = 0 \<and> exe_file \<sigma> mm \<noteq> NULL then do {
        fput (exe_file \<sigma> mm);
        put_exe_file mm NULL
      } else return ())
   }"

definition set_mm_exe_file :: "ptr \<Rightarrow> ptr \<Rightarrow> unit k" where
  "set_mm_exe_file mm new_exe_file = do {
     (if new_exe_file \<noteq> NULL then get_file new_exe_file else return ());
     old \<leftarrow> get_exe_file mm;
     (if old \<noteq> NULL then fput old else return ());
     put_exe_file mm new_exe_file;
     upd_exe_vmas mm (\<lambda>_. 0)
   }"

definition get_mm_exe_file :: "ptr \<Rightarrow> ptr k" where
  "get_mm_exe_file mm = do {
     down_read_mmap mm;
     f \<leftarrow> get_exe_file mm;
     (if f \<noteq> NULL then get_file f else return ());
     up_read_mmap mm;
     return f
   }"

definition dup_mm_exe_file :: "ptr \<Rightarrow> ptr \<Rightarrow> unit k" where
  "dup_mm_exe_file oldmm newmm = do {
     f \<leftarrow> get_mm_exe_file oldmm;
     put_exe_file newmm f
   }"

definition proc_exe_link :: "kenv \<Rightarrow> ptr \<Rightarrow> (int \<times> ptr) k" where
  "proc_exe_link K inode = do {
     task \<leftarrow> get_proc_task K inode;
     (if task = NULL then return (- ENOENT, NULL)
      else do {
        mm \<leftarrow> get_task_mm K task;
        put_task_struct task;
        (if mm = NULL then return (- ENOENT, NULL)
         else do {
           f \<leftarrow> get_mm_exe_file mm;
           mmput mm;
           (if f \<noteq> NULL then do {
              path \<leftarrow> ask_ptr K (VfsQ (Q_file_path f));
              path_get path;
              fput f;
              return (0, path)
            } else return (- ENOENT, NULL))
         })
      })
   }"

section \<open>Descriptors\<close>

text \<open>
  \<open>proc_fd_info(inode, path, info)\<close>: \<open>want_path\<close> and \<open>want_info\<close> say which of the two
  pointers is not \<open>NULL\<close>; the result has the path and the text.
\<close>

abbreviation (input) PROC_FDINFO_MAX :: nat where "PROC_FDINFO_MAX \<equiv> 64"

definition fdinfo_text :: "int \<Rightarrow> u32 \<Rightarrow> string" where
  "fdinfo_text pos flags =
     ''pos:'' @ [CHR 0x09] @ fmt_d pos @ ''\<newline>flags:'' @ [CHR 0x09] @ ''0'' @ fmt_o (unat flags) @ ''\<newline>''"

definition proc_fd_info :: "kenv \<Rightarrow> ptr \<Rightarrow> bool \<Rightarrow> bool \<Rightarrow> (int \<times> ptr \<times> string) k" where
  "proc_fd_info K inode want_path want_info = do {
     task \<leftarrow> get_proc_task K inode;
     ei \<leftarrow> get_inode inode;
     let fd = (word_of_int (ei_fd ei) :: u32);
     files \<leftarrow> (if task \<noteq> NULL then do {
         files \<leftarrow> get_files_struct K task;
         put_task_struct task;
         return files
       } else return NULL);
     (if files \<noteq> NULL then do {
        spin_lock_files files;
        file \<leftarrow> fcheck_files K files fd;
        (if file \<noteq> NULL then do {
           path \<leftarrow> (if want_path then do {
               path \<leftarrow> ask_ptr K (VfsQ (Q_file_path file));
               path_get path;
               return path
             } else return NULL);
           info \<leftarrow> (if want_info then do {
               pos \<leftarrow> ask_int K (VfsQ (Q_file_pos file));
               flags \<leftarrow> field_u32 K (VfsQ (Q_file_flags file));
               return (snprintf_buf PROC_FDINFO_MAX (fdinfo_text (s64 pos) flags))
             } else return []);
           spin_unlock_files files;
           put_files_struct files;
           return (0, path, info)
         } else do {
           spin_unlock_files files;
           put_files_struct files;
           return (- ENOENT, NULL, [])
         })
      } else return (- ENOENT, NULL, []))
   }"

definition proc_fd_link :: "kenv \<Rightarrow> ptr \<Rightarrow> (int \<times> ptr) k" where
  "proc_fd_link K inode = do {
     (r, path, info) \<leftarrow> proc_fd_info K inode True False;
     return (r, path)
   }"

definition proc_fdinfo_read :: "kenv \<Rightarrow> ptr \<Rightarrow> nat \<Rightarrow> int \<Rightarrow> (int \<times> int) k" where
  "proc_fdinfo_read K file len ppos = do {
     inode \<leftarrow> file_inode file;
     (err, path, tmp) \<leftarrow> proc_fd_info K inode False True;
     (if err = 0 then simple_read_from_buffer K len ppos tmp else return (err, ppos))
   }"

section \<open>Following and reading links\<close>

text \<open>\<open>PROC_I(inode)->op.proc_get_link(inode, &path)\<close>\<close>

definition proc_get_link :: "kenv \<Rightarrow> link_fn \<Rightarrow> ptr \<Rightarrow> (int \<times> ptr) k" where
  "proc_get_link K f inode =
     (case f of L_cwd \<Rightarrow> proc_cwd_link K inode | L_root \<Rightarrow> proc_root_link K inode
      | L_exe \<Rightarrow> proc_exe_link K inode | L_fd \<Rightarrow> proc_fd_link K inode)"

definition call_get_link :: "kenv \<Rightarrow> ptr \<Rightarrow> (int \<times> ptr) k" where
  "call_get_link K inode = do {
     ei \<leftarrow> get_inode inode;
     (case ei_op ei of Proc_get_link f \<Rightarrow> proc_get_link K f inode | _ \<Rightarrow> return (- EINVAL, NULL))
   }"

definition proc_pid_follow_link :: "kenv \<Rightarrow> ptr \<Rightarrow> ptr \<Rightarrow> int k" where
  "proc_pid_follow_link K dentry nd = do {
     e \<leftarrow> get_dentry dentry;
     let inode = d_inode e;
     \<sigma> \<leftarrow> get_st;
     path_put (nd_path (nds \<sigma> nd));
     allowed \<leftarrow> proc_fd_access_allowed K inode;
     (if allowed = 0 then return (- EACCES)
      else do {
        (error, path) \<leftarrow> call_get_link K inode;
        upd_st (\<lambda>\<sigma>. \<sigma>\<lparr>nds := (nds \<sigma>)(nd :=
          (nds \<sigma> nd)\<lparr>nd_path := (if error = 0 then path else nd_path (nds \<sigma> nd)), nd_last_type := LAST_BIND\<rparr>)\<rparr>);
        return error
      })
   }"

definition do_proc_readlink :: "kenv \<Rightarrow> ptr \<Rightarrow> int \<Rightarrow> int k" where
  "do_proc_readlink K path buflen = do {
     tmp \<leftarrow> get_free_page K;
     (if tmp = NULL then return (- ENOMEM)
      else do {
        err \<leftarrow> ask_int K (VfsQ (Q_d_path path));
        len \<leftarrow> (if err < 0 then return err
          else do {
            pathname \<leftarrow> ask_str K (VfsQ (Q_d_path path));
            let len = min (int (length pathname)) buflen;
            fault \<leftarrow> copy_to_user K (take (nat len) pathname);
            return (if fault \<noteq> 0 then - EFAULT else len)
          });
        free_page tmp;
        return len
      })
   }"

definition proc_pid_readlink :: "kenv \<Rightarrow> ptr \<Rightarrow> int \<Rightarrow> int k" where
  "proc_pid_readlink K dentry buflen = do {
     e \<leftarrow> get_dentry dentry;
     let inode = d_inode e;
     allowed \<leftarrow> proc_fd_access_allowed K inode;
     (if allowed = 0 then return (- EACCES)
      else do {
        (error, path) \<leftarrow> call_get_link K inode;
        (if error \<noteq> 0 then return error
         else do {
           error \<leftarrow> do_proc_readlink K path buflen;
           path_put path;
           return error
         })
      })
   }"

text \<open>\<open>vfs_readlink\<close> and \<open>vfs_follow_link\<close> of the VFS are given the text.\<close>

definition proc_self_readlink :: "kenv \<Rightarrow> ptr \<Rightarrow> int \<Rightarrow> int k" where
  "proc_self_readlink K dentry buflen = do {
     e \<leftarrow> get_dentry dentry;
     ns \<leftarrow> s_fs_info K (d_sb e);
     cur \<leftarrow> current K;
     r \<leftarrow> ask_int K (TaskQ (Q_task_tgid_nr_ns cur ns));
     let tgid = s32 r;
     (if tgid = 0 then return (- ENOENT)
      else do {
        let tmp = fmt_d tgid;
        call_int K (''vfs_readlink '' @ tmp) [int dentry, buflen]
      })
   }"

definition proc_self_follow_link :: "kenv \<Rightarrow> ptr \<Rightarrow> ptr \<Rightarrow> int k" where
  "proc_self_follow_link K dentry nd = do {
     e \<leftarrow> get_dentry dentry;
     ns \<leftarrow> s_fs_info K (d_sb e);
     cur \<leftarrow> current K;
     r \<leftarrow> ask_int K (TaskQ (Q_task_tgid_nr_ns cur ns));
     (if s32 r = 0 then return (- ENOENT)
      else do {
        cur \<leftarrow> current K;
        r \<leftarrow> ask_int K (TaskQ (Q_task_tgid_nr_ns cur ns));
        call_int K (''vfs_follow_link '' @ fmt_d (s32 r)) [int nd]
      })
   }"

section \<open>The contract of a \<open>proc_get_link\<close> function\<close>

text \<open>
  A result of 0 comes with a reference on the path, which is a possible \<open>target\<close> of the link; any
  other result is a negative error and comes with none.
\<close>

definition link_refs :: "int \<times> ptr \<Rightarrow> res multiset" where
  "link_refs r = (if fst r = 0 then {# RPath (snd r) #} else {#})"

lemma link_refs_simps [simp]:
  "link_refs (0, p) = {# RPath p #}" "e \<noteq> 0 \<Longrightarrow> link_refs (e, p) = {#}"
  by (simp_all add: link_refs_def)

locale link_getter =
  fixes get_link :: "ptr \<Rightarrow> (int \<times> ptr) k" and target :: "store \<Rightarrow> ptr \<Rightarrow> ptr \<Rightarrow> bool"
  assumes link_spec: "owns {#} \<sigma> (get_link inode) (\<lambda>r d \<sigma>'. d = link_refs r \<and> \<sigma>' = \<sigma> \<and>
    (if fst r = 0 then target \<sigma> inode (snd r) else fst r < 0))"
begin

lemma link_frame:
  assumes "\<And>p. target \<sigma> inode p \<Longrightarrow> Q (0, p) (add_mset (RPath p) d) \<sigma>" "\<And>e p. e < 0 \<Longrightarrow> Q (e, p) d \<sigma>"
  shows "owns d \<sigma> (get_link inode) Q"
proof -
  have "owns ({#} + d) \<sigma> (get_link inode) Q"
    by (rule owns_mono [OF owns_frame [OF link_spec]])
      (use assms in \<open>auto simp: link_refs_def split: if_splits\<close>)
  then show ?thesis by simp
qed

text \<open>A caller that puts the path of a successful result keeps its own references.\<close>

lemma link_balanced:
  "owns d \<sigma> (do { (e, p) \<leftarrow> get_link inode; (if e = 0 then path_put p else return ()) }) (\<lambda>r d' \<sigma>'. d' = d \<and> \<sigma>' = \<sigma>)"
  by (auto intro!: owns_bind link_frame owns_intros simp: path_put_def link_refs_def split: prod.splits)

end

text \<open>
  The targets: the directory of the file system information of the task, the file that its memory
  descriptor records as its executable, the file behind its descriptor.
\<close>

definition task_target :: "kenv \<Rightarrow> store \<Rightarrow> link_fn \<Rightarrow> u32 \<Rightarrow> ptr \<Rightarrow> ptr \<Rightarrow> bool" where
  "task_target K \<sigma> f fd task path \<longleftrightarrow>
     (case f of
        L_cwd \<Rightarrow> \<exists>fs. may_ptr K (VfsQ (Q_task_fs task)) fs \<and> fs \<noteq> NULL \<and> may_ptr K (VfsQ (Q_fs_pwd fs)) path
      | L_root \<Rightarrow> \<exists>fs. may_ptr K (VfsQ (Q_task_fs task)) fs \<and> fs \<noteq> NULL \<and> may_ptr K (VfsQ (Q_fs_root fs)) path
      | L_exe \<Rightarrow> \<exists>mm. may_ptr K (MmQ (Q_get_task_mm task)) mm \<and> mm \<noteq> NULL \<and> exe_file \<sigma> mm \<noteq> NULL \<and>
          may_ptr K (VfsQ (Q_file_path (exe_file \<sigma> mm))) path
      | L_fd \<Rightarrow> \<exists>files file. may_ptr K (VfsQ (Q_get_files_struct task)) files \<and> files \<noteq> NULL \<and>
          may_ptr K (VfsQ (Q_fcheck_files files fd)) file \<and> file \<noteq> NULL \<and>
          may_ptr K (VfsQ (Q_file_path file)) path)"

definition link_target :: "kenv \<Rightarrow> link_fn \<Rightarrow> store \<Rightarrow> ptr \<Rightarrow> ptr \<Rightarrow> bool" where
  "link_target K f \<sigma> inode path \<longleftrightarrow>
     (\<exists>task. may_ptr K (TaskQ (Q_get_proc_task inode)) task \<and> task \<noteq> NULL \<and>
        task_target K \<sigma> f (word_of_int (ei_fd (inodes \<sigma> inode))) task path)"

lemma link_targetI:
  "may_ptr K (TaskQ (Q_get_proc_task inode)) task \<Longrightarrow> 0 < task \<Longrightarrow>
   task_target K \<sigma> f (word_of_int (ei_fd (inodes \<sigma> inode))) task path \<Longrightarrow> link_target K f \<sigma> inode path"
  by (auto simp: link_target_def)

lemma task_targetI:
  "may_ptr K (VfsQ (Q_task_fs task)) fs \<Longrightarrow> 0 < fs \<Longrightarrow> may_ptr K (VfsQ (Q_fs_pwd fs)) path \<Longrightarrow>
   task_target K \<sigma> L_cwd fd task path"
  "may_ptr K (VfsQ (Q_task_fs task)) fs \<Longrightarrow> 0 < fs \<Longrightarrow> may_ptr K (VfsQ (Q_fs_root fs)) path \<Longrightarrow>
   task_target K \<sigma> L_root fd task path"
  "may_ptr K (MmQ (Q_get_task_mm task)) mm \<Longrightarrow> 0 < mm \<Longrightarrow> 0 < exe_file \<sigma> mm \<Longrightarrow>
   may_ptr K (VfsQ (Q_file_path (exe_file \<sigma> mm))) path \<Longrightarrow> task_target K \<sigma> L_exe fd task path"
  "may_ptr K (VfsQ (Q_get_files_struct task)) files \<Longrightarrow> 0 < files \<Longrightarrow>
   may_ptr K (VfsQ (Q_fcheck_files files fd)) file \<Longrightarrow> 0 < file \<Longrightarrow>
   may_ptr K (VfsQ (Q_file_path file)) path \<Longrightarrow> task_target K \<sigma> L_fd fd task path"
  by (auto simp: task_target_def)

lemma get_fs_path_spec [owns_intros]:
  assumes "\<And>p. (\<And>fd. task_target K \<sigma> (if root then L_root else L_cwd) fd task p) \<Longrightarrow>
      Q (0, p) (add_mset (RPath p) d) \<sigma>"
    and "\<And>p. Q (- 2, p) d \<sigma>"
  shows "owns d \<sigma> (get_fs_path K task root) Q"
  unfolding get_fs_path_def using assms(2)
  by (cases root; auto intro!: owns_intros assms(1) simp: kernel_defs) (blast intro: task_targetI)+

lemma get_mm_exe_file_spec [owns_intros]:
  assumes "Q (exe_file \<sigma> mm) (if exe_file \<sigma> mm = NULL then d else add_mset (RFile (exe_file \<sigma> mm)) d) \<sigma>"
  shows "owns d \<sigma> (get_mm_exe_file mm) Q"
  unfolding get_mm_exe_file_def using assms by (auto intro!: owns_intros simp: kernel_defs)

interpretation cwd: link_getter "proc_cwd_link K" "link_target K L_cwd" for K
  by unfold_locales
    (auto simp: proc_cwd_link_def kernel_defs intro!: owns_intros, blast intro: link_targetI)

interpretation root: link_getter "proc_root_link K" "link_target K L_root" for K
  by unfold_locales
    (auto simp: proc_root_link_def kernel_defs intro!: owns_intros, blast intro: link_targetI)

interpretation exe: link_getter "proc_exe_link K" "link_target K L_exe" for K
  by unfold_locales
    (auto simp: proc_exe_link_def kernel_defs intro!: owns_intros, blast intro: link_targetI task_targetI)

interpretation fd: link_getter "proc_fd_link K" "link_target K L_fd" for K
  by unfold_locales
    (auto simp: proc_fd_link_def proc_fd_info_def kernel_defs split: prod.splits intro!: owns_intros,
      blast intro: link_targetI task_targetI)

text \<open>The link an inode stands for.\<close>

definition inode_target :: "kenv \<Rightarrow> store \<Rightarrow> ptr \<Rightarrow> ptr \<Rightarrow> bool" where
  "inode_target K \<sigma> inode path \<longleftrightarrow>
     (\<exists>f. ei_op (inodes \<sigma> inode) = Proc_get_link f \<and> link_target K f \<sigma> inode path)"

interpretation any_link: link_getter "call_get_link K" "inode_target K" for K
proof unfold_locales
  fix \<sigma> inode
  have get: "owns {#} \<sigma> (proc_get_link K f inode) (\<lambda>r d \<sigma>'. d = link_refs r \<and> \<sigma>' = \<sigma> \<and>
      (if fst r = 0 then link_target K f \<sigma> inode (snd r) else fst r < 0))" for f
    by (cases f) (simp_all only: proc_get_link_def link_fn.case cwd.link_spec root.link_spec exe.link_spec fd.link_spec)
  have "owns {#} \<sigma> (proc_get_link K f inode) (\<lambda>r d \<sigma>'. d = link_refs r \<and> \<sigma>' = \<sigma> \<and>
      (if fst r = 0 then inode_target K \<sigma> inode (snd r) else fst r < 0))"
    if "ei_op (inodes \<sigma> inode) = Proc_get_link f" for f
    by (rule owns_mono [OF get]) (use that in \<open>auto simp: inode_target_def split: if_splits\<close>)
  then show "owns {#} \<sigma> (call_get_link K inode) (\<lambda>r d \<sigma>'. d = link_refs r \<and> \<sigma>' = \<sigma> \<and>
      (if fst r = 0 then inode_target K \<sigma> inode (snd r) else fst r < 0))"
    unfolding call_get_link_def by (auto intro!: owns_intros simp: kernel_defs split: proc_op.splits)
qed

text \<open>Who may see where a link of the inode leads.\<close>

definition link_allowed :: "kenv \<Rightarrow> ptr \<Rightarrow> bool" where
  "link_allowed K inode \<longleftrightarrow> (\<exists>task x. may_ptr K (TaskQ (Q_get_proc_task inode)) task \<and>
     may_int K (AccessQ (Q_ptrace_may_access task PTRACE_MODE_READ)) x \<and> x \<noteq> 0)"

lemma proc_fd_access_allowed_spec [owns_intros]:
  assumes "\<And>r. (r \<noteq> 0 \<Longrightarrow> link_allowed K inode) \<Longrightarrow> Q r d \<sigma>"
  shows "owns d \<sigma> (proc_fd_access_allowed K inode) Q"
proof -
  have "Q x d \<sigma>" if "may_ptr K (TaskQ (Q_get_proc_task inode)) p" 
      "may_int K (AccessQ (Q_ptrace_may_access p 1)) x" for p x
    using that by (intro assms) (auto simp: link_allowed_def)
  moreover have "Q 0 d \<sigma>" by (rule assms) simp
  ultimately show ?thesis
    unfolding proc_fd_access_allowed_def by (auto intro!: owns_intros simp: kernel_defs)
qed

lemma do_proc_readlink_spec:
  assumes "\<And>e. e < 0 \<Longrightarrow> Q e d \<sigma>"
    and "\<And>s. may_str K (VfsQ (Q_d_path path)) s \<Longrightarrow>
      Q (min (int (length s)) buflen) d (\<sigma>\<lparr>uout := uout \<sigma> @ take (nat buflen) s\<rparr>)"
  shows "owns d \<sigma> (do_proc_readlink K path buflen) Q"
proof -
  have "take (nat (min (int (length s)) buflen)) s = take (nat buflen) s" for s :: string
    by (simp add: min_def nat_le_iff)
  then show ?thesis
    unfolding do_proc_readlink_def
    using assms by (auto intro!: owns_intros simp: kernel_defs)
qed

section \<open>Properties\<close>

lemma proc_pid_readlink_spec:
  "owns {#} \<sigma> (proc_pid_readlink K dentry buflen) (\<lambda>r d \<sigma>'. d = {#} \<and>
     (r < 0 \<and> \<sigma>' = \<sigma> \<or>
      link_allowed K (d_inode (dentries \<sigma> dentry)) \<and>
      (\<exists>path s. inode_target K \<sigma> (d_inode (dentries \<sigma> dentry)) path \<and> may_str K (VfsQ (Q_d_path path)) s \<and> r = min (int (length s)) buflen \<and>
         \<sigma>' = \<sigma>\<lparr>uout := uout \<sigma> @ take (nat buflen) s\<rparr>)))"
  unfolding proc_pid_readlink_def
  by (auto intro!: owns_intros any_link.link_frame do_proc_readlink_spec simp: kernel_defs link_refs_def
      split: prod.splits)
    blast+

text \<open>
  Property C25. \<open>readlink\<close> on a link of a process (\<open>cwd\<close>, \<open>root\<close>, \<open>exe\<close> or
  a descriptor): every reference taken on the way, to the task, its files, the path, and the page, is
  given back. Bytes reach the caller only if it may trace the process; they are the first
  \<open>buflen\<close> bytes of the path of the target that the task has for this link (its directory, its
  executable, the file behind the descriptor), and the result is their number; any other result is a
  negative error, with nothing changed.
\<close>

theorem proc_pid_readlink_correct:
  "owns {#} \<sigma> (proc_pid_readlink K dentry buflen) (\<lambda>r d \<sigma>'. d = {#} \<and>
     (r < 0 \<and> \<sigma>' = \<sigma> \<or>
      link_allowed K (d_inode (dentries \<sigma> dentry)) \<and>
      (\<exists>path s. inode_target K \<sigma> (d_inode (dentries \<sigma> dentry)) path \<and> may_str K (VfsQ (Q_d_path path)) s \<and> r = min (int (length s)) buflen \<and>
         \<sigma>' = \<sigma>\<lparr>uout := uout \<sigma> @ take (nat buflen) s\<rparr>)))"
  by (rule proc_pid_readlink_spec)

lemma proc_pid_follow_link_spec:
  "owns {# RPath (nd_path (nds \<sigma> nd)) #} \<sigma> (proc_pid_follow_link K dentry nd) (\<lambda>r d \<sigma>'.
     dentries \<sigma>' = dentries \<sigma> \<and>
     (if r = 0 then link_allowed K (d_inode (dentries \<sigma> dentry)) \<and>
       inode_target K \<sigma> (d_inode (dentries \<sigma> dentry)) (nd_path (nds \<sigma>' nd)) \<and>
       d = {# RPath (nd_path (nds \<sigma>' nd)) #} \<and> nd_last_type (nds \<sigma>' nd) = LAST_BIND
      else r < 0 \<and> d = {#} \<and> nd_path (nds \<sigma>' nd) = nd_path (nds \<sigma> nd)))"
  unfolding proc_pid_follow_link_def
  by (auto intro!: owns_intros any_link.link_frame simp: kernel_defs link_refs_def split: prod.splits)

text \<open>
  Property C26. \<open>follow_link\<close> on such a link gives up the reference on the path it is given in
  \<open>nd\<close>, always; if it succeeds, the caller was allowed to trace the process, \<open>nd\<close> holds the
  target that the task has for this link, with exactly one reference, and the walk is marked
  \<open>LAST_BIND\<close>; if it fails, the result is negative and no reference is left.
\<close>

theorem proc_pid_follow_link_correct:
  "owns {# RPath (nd_path (nds \<sigma> nd)) #} \<sigma> (proc_pid_follow_link K dentry nd) (\<lambda>r d \<sigma>'.
     dentries \<sigma>' = dentries \<sigma> \<and>
     (if r = 0 then link_allowed K (d_inode (dentries \<sigma> dentry)) \<and>
       inode_target K \<sigma> (d_inode (dentries \<sigma> dentry)) (nd_path (nds \<sigma>' nd)) \<and>
       d = {# RPath (nd_path (nds \<sigma>' nd)) #} \<and> nd_last_type (nds \<sigma>' nd) = LAST_BIND
      else r < 0 \<and> d = {#} \<and> nd_path (nds \<sigma>' nd) = nd_path (nds \<sigma> nd)))"
  by (rule proc_pid_follow_link_spec)

text \<open>The text of \<open>fdinfo\<close> fits its buffer, so that nothing is cut off.\<close>

lemma fdinfo_text_fits:
  assumes "- (2 ^ 63) \<le> pos" "pos < 2 ^ 63"
  shows "snprintf_buf PROC_FDINFO_MAX (fdinfo_text pos flags) = fdinfo_text pos flags"
proof -
  have "length (fmt_u (nat (- pos))) \<le> 19" "length (fmt_u (nat pos)) \<le> 19"
    using assms by (intro length_fmt_u; simp add: nat_less_iff)+
  then have "length (fmt_d pos) \<le> 20" by (simp add: fmt_d_def)
  moreover have "length (fmt_o (unat flags)) \<le> 11"
  proof (rule length_radix_str)
    have "unat flags < 2 ^ LENGTH(32)" by (rule unsigned_less)
    then show "unat flags < 8 ^ 11" by simp
  qed simp_all
  ultimately show ?thesis by (simp add: snprintf_buf_def fdinfo_text_def)
qed

lemma fdinfo_read_spec:
  "simple_read_law K \<Longrightarrow> owns {#} \<sigma> (proc_fdinfo_read K file len ppos) (\<lambda>r d \<sigma>'. d = {#} \<and> dentries \<sigma>' = dentries \<sigma>)"
  unfolding proc_fdinfo_read_def proc_fd_info_def
  by (auto intro!: owns_intros simp: kernel_defs split: prod.splits) (erule served_dentries)

text \<open>
  \<open>proc_fd_permission\<close> refuses only what the generic check refuses, and never the process that the
  directory belongs to.
\<close>

lemma proc_fd_permission_spec:
  "owns {#} \<sigma> (proc_fd_permission K inode msk) (\<lambda>r d \<sigma>'. d = {#} \<and> \<sigma>' = \<sigma> \<and>
     (r \<noteq> 0 \<longrightarrow> may_int K (AccessQ (Q_generic_permission inode msk)) r \<and>
        (\<exists>cur pid. may_ptr K (TaskQ Q_current) cur \<and> may_ptr K (TaskQ (Q_task_pid cur)) pid \<and>
           pid \<noteq> ei_pid (inodes \<sigma> inode))))"
  unfolding proc_fd_permission_def by (auto intro!: owns_intros simp: kernel_defs split: if_splits) blast

text \<open>The mode of a file in procfs cannot be changed.\<close>

lemma proc_setattr_spec:
  "owns {#} \<sigma> (proc_setattr K dentry attr) (\<lambda>r d \<sigma>'. d = {#} \<and> \<sigma>' = \<sigma> \<and>
     (r \<noteq> - EPERM \<longrightarrow> (\<exists>v. may_int K (AccessQ (Q_ia_valid attr)) v \<and> (word_of_int v :: u32) AND ATTR_MODE = 0)))"
  unfolding proc_setattr_def by (auto intro!: owns_intros simp: kernel_defs)

lemma proc_self_spec:
  "owns {#} \<sigma> (proc_self_readlink K dentry buflen) (\<lambda>r d \<sigma>'. d = {#} \<and> \<sigma>' = \<sigma>)"
  "owns {#} \<sigma> (proc_self_follow_link K dentry nd) (\<lambda>r d \<sigma>'. d = {#} \<and> \<sigma>' = \<sigma>)"
  unfolding proc_self_readlink_def proc_self_follow_link_def by (auto intro!: owns_intros simp: kernel_defs)

end
