(* ===== verification/Mounts_Flush.thy ===== *)
theory Mounts_Flush
  imports Links
begin

text \<open>
  Opening, polling and closing \<open>mounts\<close>, \<open>mountinfo\<close> and \<open>mountstats\<close> (the unwinding
  of \<open>mounts_open_common\<close>), and \<open>proc_flush_task\<close>, which drops the dcache entries of an exiting
  task. The text of the mount files comes from \<open>fs/namespace.c\<close>, which is not part of the sources.
\<close>

section \<open>Mount files\<close>

datatype mount_op = Mounts_op | Mountinfo_op | Mountstats_op

text \<open>\<open>seq_open\<close> of \<open>fs/seq_file.c\<close>, with the name of the table of operations it is given.\<close>

fun mount_op_name :: "mount_op \<Rightarrow> string" where
  "mount_op_name Mounts_op = ''mounts_op''"
| "mount_op_name Mountinfo_op = ''mountinfo_op''"
| "mount_op_name Mountstats_op = ''mountstats_op''"

definition seq_open :: "kenv \<Rightarrow> ptr \<Rightarrow> mount_op \<Rightarrow> int k" where [kernel_defs]:
  "seq_open K file op = call_int K (''seq_open '' @ mount_op_name op) [int file]"

definition get_mnt_ns :: "ptr \<Rightarrow> unit k" where [kernel_defs]:
  "get_mnt_ns ns = emit (Acq (RMntNs ns))"

definition put_mnt_ns :: "ptr \<Rightarrow> unit k" where [kernel_defs]:
  "put_mnt_ns ns = emit (Rel (RMntNs ns))"

definition ask_call :: "kenv \<Rightarrow> string \<Rightarrow> ptr \<Rightarrow> ptr k" where [kernel_defs]:
  "ask_call K f p = ask_ptr K (TaskQ (Q_field p f))"

text \<open>
  The argument of \<open>kmalloc\<close> counts structures here: how large \<open>struct proc_mounts\<close> is depends on
  headers that are not part of the sources.
\<close>

definition mounts_open_common :: "kenv \<Rightarrow> ptr \<Rightarrow> ptr \<Rightarrow> mount_op \<Rightarrow> int k" where
  "mounts_open_common K inode file op = do {
     task \<leftarrow> get_proc_task K inode;
     (ns, ret, root) \<leftarrow> (if task \<noteq> NULL then do {
         rcu_read_lock;
         nsp \<leftarrow> ask_call K ''task_nsproxy'' task;
         ns \<leftarrow> (if nsp \<noteq> NULL then do {
             ns \<leftarrow> ask_call K ''mnt_ns'' nsp;
             (if ns \<noteq> NULL then get_mnt_ns ns else return ());
             return ns
           } else return NULL);
         rcu_read_unlock;
         (r, root) \<leftarrow> (if ns \<noteq> NULL then get_fs_path K task True else return (- EINVAL, NULL));
         put_task_struct task;
         return (ns, if r = 0 then 0 else - EINVAL, root)
       } else return (NULL, - EINVAL, NULL));
     (if ns = NULL then return ret
      else if ret \<noteq> 0 then do {
        put_mnt_ns ns;
        return ret
      } else do {
        p \<leftarrow> kmalloc K 1;
        (if p = NULL then do {
           path_put root;
           put_mnt_ns ns;
           return (- ENOMEM)
         } else do {
           upd_filp file (\<lambda>f. f\<lparr>f_private := Private_ptr p\<rparr>);
           ret \<leftarrow> seq_open K file op;
           (if ret \<noteq> 0 then do {
              kfree p;
              path_put root;
              put_mnt_ns ns;
              return ret
            } else do {
              event \<leftarrow> ask_int K (TaskQ (Q_field ns ''event''));
              upd_seq p (\<lambda>_. \<lparr>m_private = p, pm_ns = ns, pm_root = root, pm_event = event\<rparr>);
              return 0
            })
         })
      })
   }"

definition mounts_open :: "kenv \<Rightarrow> ptr \<Rightarrow> ptr \<Rightarrow> int k" where
  "mounts_open K inode file = mounts_open_common K inode file Mounts_op"

definition mountinfo_open :: "kenv \<Rightarrow> ptr \<Rightarrow> ptr \<Rightarrow> int k" where
  "mountinfo_open K inode file = mounts_open_common K inode file Mountinfo_op"

definition mountstats_open :: "kenv \<Rightarrow> ptr \<Rightarrow> ptr \<Rightarrow> int k" where
  "mountstats_open K inode file = mounts_open_common K inode file Mountstats_op"


text \<open>The \<open>seq_file\<close> is the first member of \<open>struct proc_mounts\<close>; \<open>seq_release\<close> frees it.\<close>

definition seq_release :: "ptr \<Rightarrow> int k" where [kernel_defs]:
  "seq_release file = do {
     f \<leftarrow> get_filp file;
     (case f_private f of Private_ptr m \<Rightarrow> kfree m | _ \<Rightarrow> return ());
     return 0
   }"

definition private_seq :: "ptr \<Rightarrow> proc_mounts k" where [kernel_defs]:
  "private_seq file = do {
     \<sigma> \<leftarrow> get_st;
     return (seqs \<sigma> (case f_private (filps \<sigma> file) of Private_ptr m \<Rightarrow> m | _ \<Rightarrow> NULL))
   }"

definition mounts_release :: "ptr \<Rightarrow> int k" where
  "mounts_release file = do {
     p \<leftarrow> private_seq file;
     path_put (pm_root p);
     put_mnt_ns (pm_ns p);
     seq_release file
   }"

abbreviation (input) POLLIN :: u32 where "POLLIN \<equiv> 0x1"
abbreviation (input) POLLPRI :: u32 where "POLLPRI \<equiv> 0x2"
abbreviation (input) POLLERR :: u32 where "POLLERR \<equiv> 0x8"
abbreviation (input) POLLRDNORM :: u32 where "POLLRDNORM \<equiv> 0x40"

definition mounts_poll :: "kenv \<Rightarrow> ptr \<Rightarrow> u32 k" where
  "mounts_poll K file = do {
     f \<leftarrow> get_filp file;
     p \<leftarrow> private_seq file;
     let ns = pm_ns p;
     let res = POLLIN OR POLLRDNORM;
     call_int K ''poll_wait'' [int file, int ns];
     take_lock Vfsmount_lock;
     event \<leftarrow> ask_int K (TaskQ (Q_field ns ''event''));
     res \<leftarrow> (if pm_event p \<noteq> event then do {
         event \<leftarrow> ask_int K (TaskQ (Q_field ns ''event''));
         (case f_private f of Private_ptr m \<Rightarrow> upd_seq m (\<lambda>s. s\<lparr>pm_event := event\<rparr>) | _ \<Rightarrow> return ());
         return (res OR (POLLERR OR POLLPRI))
       } else return res);
     drop_lock Vfsmount_lock;
     return res
   }"

section \<open>Flushing the dcache\<close>

abbreviation (input) PF_EXITING :: u32 where "PF_EXITING \<equiv> 4"

definition d_hash_and_lookup :: "kenv \<Rightarrow> ptr \<Rightarrow> string \<Rightarrow> ptr k" where [kernel_defs]:
  "d_hash_and_lookup K dir name = acq_ptr K (VfsQ (Q_d_hash_and_lookup dir name)) RDentry"

definition shrink_dcache_parent :: "ptr \<Rightarrow> unit k" where [kernel_defs]:
  "shrink_dcache_parent dentry = emit (Fx (Shrink_dcache_parent dentry))"

definition numbuf_d :: "int \<Rightarrow> string" where
  "numbuf_d n = snprintf_buf PROC_NUMBUF (fmt_d n)"

text \<open>The first half of \<open>proc_flush_task_mnt\<close>: the entry of the pid in the root.\<close>

definition flush_pid :: "kenv \<Rightarrow> ptr \<Rightarrow> int \<Rightarrow> unit k" where
  "flush_pid K mnt pid = do {
     root \<leftarrow> ask_ptr K (TaskQ (Q_mnt_root mnt));
     dentry \<leftarrow> d_hash_and_lookup K root (numbuf_d pid);
     (if dentry \<noteq> NULL then do {
        cur \<leftarrow> current K;
        flags \<leftarrow> field_u32 K (TaskQ (Q_task_flags cur));
        (if flags AND PF_EXITING = 0 then shrink_dcache_parent dentry else return ());
        d_drop dentry;
        dput dentry
      } else return ())
   }"

text \<open>The second half: the entry of the pid in the \<open>task\<close> directory of its group.\<close>

definition flush_tid :: "kenv \<Rightarrow> ptr \<Rightarrow> int \<Rightarrow> int \<Rightarrow> unit k" where
  "flush_tid K mnt pid tgid = do {
     root \<leftarrow> ask_ptr K (TaskQ (Q_mnt_root mnt));
     leader \<leftarrow> d_hash_and_lookup K root (numbuf_d tgid);
     (if leader = NULL then return ()
      else do {
        dir \<leftarrow> d_hash_and_lookup K leader ''task'';
        (if dir = NULL then return ()
         else do {
           dentry \<leftarrow> d_hash_and_lookup K dir (numbuf_d pid);
           (if dentry \<noteq> NULL then do {
              shrink_dcache_parent dentry;
              d_drop dentry;
              dput dentry
            } else return ());
           dput dir
         });
        dput leader
      })
   }"

definition proc_flush_task_mnt :: "kenv \<Rightarrow> ptr \<Rightarrow> int \<Rightarrow> int \<Rightarrow> unit k" where
  "proc_flush_task_mnt K mnt pid tgid = do {
     flush_pid K mnt pid;
     (if tgid = 0 then return () else flush_tid K mnt pid tgid)
   }"

definition upid_nr :: "kenv \<Rightarrow> ptr \<Rightarrow> nat \<Rightarrow> int k" where [kernel_defs]:
  "upid_nr K pid i = ask_int K (TaskQ (Q_upid_nr pid i))"

definition upid_ns :: "kenv \<Rightarrow> ptr \<Rightarrow> nat \<Rightarrow> ptr k" where [kernel_defs]:
  "upid_ns K pid i = ask_ptr K (TaskQ (Q_upid_ns pid i))"

text \<open>The loop over the namespaces from level \<open>i\<close> on; \<open>n\<close> levels are left.\<close>

fun flush_levels :: "kenv \<Rightarrow> ptr \<Rightarrow> ptr \<Rightarrow> nat \<Rightarrow> nat \<Rightarrow> unit k" where
  "flush_levels K pid tgid 0 i = return ()"
| "flush_levels K pid tgid (Suc n) i = do {
     ns \<leftarrow> upid_ns K pid i;
     mnt \<leftarrow> ask_ptr K (TaskQ (Q_proc_mnt ns));
     nr \<leftarrow> upid_nr K pid i;
     tnr \<leftarrow> (if tgid \<noteq> NULL then upid_nr K tgid i else return 0);
     proc_flush_task_mnt K mnt nr tnr;
     flush_levels K pid tgid n (Suc i)
   }"

definition proc_flush_task :: "kenv \<Rightarrow> ptr \<Rightarrow> unit k" where
  "proc_flush_task K task = do {
     pid \<leftarrow> task_pid K task;
     leader \<leftarrow> thread_group_leader K task;
     tgid \<leftarrow> (if leader \<noteq> 0 then task_tgid K task else return NULL);
     level \<leftarrow> ask_int K (TaskQ (Q_pid_level pid));
     flush_levels K pid tgid (Suc (nat level)) 0;
     nr \<leftarrow> upid_nr K pid (nat level);
     (if nr = 1 then do {
        ns \<leftarrow> upid_ns K pid (nat level);
        emit (Fx (Pid_ns_release_proc ns))
      } else return ())
   }"

section \<open>Properties\<close>

text \<open>What an open file of mounts holds.\<close>

definition mounts_held :: "store \<Rightarrow> ptr \<Rightarrow> res multiset" where
  "mounts_held \<sigma> file = (case f_private (filps \<sigma> file) of
     Private_ptr p \<Rightarrow> {# RMem p, RPath (pm_root (seqs \<sigma> p)), RMntNs (pm_ns (seqs \<sigma> p)) #} | _ \<Rightarrow> {#})"

lemma mounts_open_spec:
  "owns {#} \<sigma> (mounts_open_common K inode file op)
    (\<lambda>r d \<sigma>'. if r = 0 then d = mounts_held \<sigma>' file \<and>
       (\<exists>p. f_private (filps \<sigma>' file) = Private_ptr p \<and> p \<noteq> NULL \<and> pm_ns (seqs \<sigma>' p) \<noteq> NULL) else d = {#})"
  unfolding mounts_open_common_def
  by (auto intro!: owns_intros simp: kernel_defs mounts_held_def link_refs_def split: prod.splits)

lemma mounts_release_spec:
  assumes "f_private (filps \<sigma> file) = Private_ptr p" "p \<noteq> NULL"
  shows "owns (mounts_held \<sigma> file) \<sigma> (mounts_release file) (\<lambda>r d \<sigma>'. d = {#})"
  unfolding mounts_release_def mounts_held_def using assms
  by (auto intro!: owns_intros simp: kernel_defs)

text \<open>
  Property C28. \<open>mounts_open_common\<close> unwinds: when it fails, at whichever of its points of failure, it
  holds nothing; when it succeeds, it holds exactly the memory, the path and the namespace that are
  recorded in the open file, and \<open>mounts_release\<close> on that file gives them all back.
\<close>

theorem mounts_open_release:
  "owns {#} \<sigma> (mounts_open_common K inode file op)
     (\<lambda>r d \<sigma>'. if r = 0 then d = mounts_held \<sigma>' file else d = {#}) \<and>
   owns {#} \<sigma> (do { r \<leftarrow> mounts_open_common K inode file op;
       (if r = 0 then mounts_release file else return r) }) (\<lambda>r d \<sigma>'. d = {#})"
proof
  show "owns {#} \<sigma> (mounts_open_common K inode file op)
      (\<lambda>r d \<sigma>'. if r = 0 then d = mounts_held \<sigma>' file else d = {#})"
    by (rule owns_mono [OF mounts_open_spec]) (auto split: if_splits)
  show "owns {#} \<sigma> (do { r \<leftarrow> mounts_open_common K inode file op;
      (if r = 0 then mounts_release file else return r) }) (\<lambda>r d \<sigma>'. d = {#})"
    by (rule owns_bind, rule owns_mono [OF mounts_open_spec])
      (auto intro!: owns_intros mounts_release_spec split: if_splits)
qed

text \<open>A poll reports a change of the mount table once: the event number is taken over.\<close>

lemma mounts_poll_spec:
  assumes "f_private (filps \<sigma> file) = Private_ptr p"
    "\<And>x. may_int K (TaskQ (Q_field (pm_ns (seqs \<sigma> p)) ''event'')) x \<Longrightarrow> x = event"
  shows "owns {#} \<sigma> (mounts_poll K file) (\<lambda>r d \<sigma>'. d = {#} \<and> pm_event (seqs \<sigma>' p) = event \<and>
    r = (if pm_event (seqs \<sigma> p) = event then 0x41 else 0x4B))"
  unfolding mounts_poll_def using assms(1)
  by (auto intro!: owns_intros simp: kernel_defs dest!: assms(2))

section \<open>Flushing\<close>

lemma proc_flush_task_mnt_spec [owns_intros]:
  "Q () d \<sigma> \<Longrightarrow> owns d \<sigma> (proc_flush_task_mnt K mnt pid tgid) Q"
  unfolding proc_flush_task_mnt_def flush_pid_def flush_tid_def
  by (auto intro!: owns_intros simp: kernel_defs)

lemma flush_levels_spec [owns_intros]: "Q () d \<sigma> \<Longrightarrow> owns d \<sigma> (flush_levels K pid tgid n i) Q"
proof (induction n arbitrary: i)
  case (Suc n)
  then show ?case by (auto intro!: owns_intros simp: kernel_defs)
qed (auto intro: owns_intros)

text \<open>\<open>events_in P m\<close>: every event of every run of \<open>m\<close> satisfies \<open>P\<close>.\<close>

definition events_in :: "(event \<Rightarrow> bool) \<Rightarrow> 'a k \<Rightarrow> bool" where
  "events_in P m \<longleftrightarrow> (\<forall>s. \<exists>new. trace (snd (run_state m s)) = trace s @ new \<and> (\<forall>e \<in> set new. P e))"

named_theorems events_intros \<open>what events a computation makes\<close>

lemma events_return [events_intros]: "events_in P (return x)"
  by (simp add: events_in_def)

lemma events_bind [events_intros]:
  assumes "events_in P m" "\<And>x. events_in P (f x)"
  shows "events_in P (m \<bind> f)"
  unfolding events_in_def
proof
  fix s
  obtain x s1 where m: "run_state m s = (x, s1)" by fastforce
  obtain y s2 where f: "run_state (f x) s1 = (y, s2)" by fastforce
  from m assms(1) obtain n1 where 1: "trace s1 = trace s @ n1" "\<forall>e \<in> set n1. P e"
    unfolding events_in_def by (metis snd_conv)
  from f assms(2) obtain n2 where 2: "trace s2 = trace s1 @ n2" "\<forall>e \<in> set n2. P e"
    unfolding events_in_def by (metis snd_conv)
  show "\<exists>new. trace (snd (run_state (m \<bind> f) s)) = trace s @ new \<and> (\<forall>e \<in> set new. P e)"
    using m f 1 2 by (intro exI [of _ "n1 @ n2"]) auto
qed

lemma events_if [events_intros]: "(b \<Longrightarrow> events_in P m) \<Longrightarrow> (\<not> b \<Longrightarrow> events_in P n) \<Longrightarrow> events_in P (if b then m else n)"
  by simp

lemma events_primitive [events_intros]:
  "P e \<Longrightarrow> events_in P (emit e)" "P (Ask q) \<Longrightarrow> events_in P (ask_ptr K q)" "P (Ask q) \<Longrightarrow> events_in P (ask_int K q)"
  by (simp_all add: events_in_def emit_def ask_ptr_def ask_int_def)

lemma events_acq [events_intros]: "P (Ask q) \<Longrightarrow> (\<And>p. P (Acq (R p))) \<Longrightarrow> events_in P (acq_ptr K q R)"
  unfolding acq_ptr_def by (intro events_intros)

text \<open>The event of looking up a \<open>task\<close> directory in the dcache.\<close>

definition looks_up_task :: "event \<Rightarrow> bool" where
  "looks_up_task e \<longleftrightarrow> (\<exists>dir. e = Ask (VfsQ (Q_d_hash_and_lookup dir ''task'')))"

lemma looks_up_task_simps [simp]:
  "\<not> looks_up_task (Acq r)" "\<not> looks_up_task (Rel r)" "\<not> looks_up_task (Fx f)" "\<not> looks_up_task (Ask (TaskQ q))"
  "looks_up_task (Ask (VfsQ (Q_d_hash_and_lookup dir name))) \<longleftrightarrow> name = ''task''"
  by (simp_all add: looks_up_task_def)

lemma numbuf_d_not_task: "numbuf_d n \<noteq> ''task''"
proof
  assume "numbuf_d n = ''task''"
  then have "hd (fmt_d n) = CHR ''t''" by (cases "fmt_d n") (auto simp: numbuf_d_def snprintf_buf_def)
  moreover have "hd (fmt_d n) = CHR ''-'' \<or> is_digit (hd (fmt_d n))"
    using fmt_u_digits [of "nat n"] radix_str_ne [of 10 "nat n"] by (auto simp: fmt_d_def)
  ultimately show False by (simp add: is_digit_def)
qed

lemma flush_levels_no_task:
  "events_in (\<lambda>e. \<not> looks_up_task e) (flush_levels K pid 0 n i)"
proof (induction n arbitrary: i)
  case (Suc n)
  then show ?case
    by (auto intro!: events_intros simp: kernel_defs proc_flush_task_mnt_def flush_pid_def numbuf_d_not_task)
qed (simp add: events_return)

text \<open>
  Property C29. \<open>proc_flush_task\<close> gives back every dentry and changes nothing procfs keeps. For a
  thread that is not the leader of its group it never looks for \<open>/proc/TGID/task/PID\<close>, although
  the comment above it says that it looks for both \<open>/proc/PID\<close> and that directory.
\<close>

theorem proc_flush_task_correct:
  "owns {#} \<sigma> (proc_flush_task K task) (\<lambda>_ d \<sigma>'. d = {#} \<and> \<sigma>' = \<sigma>) \<and>
   ((\<forall>tr. ans_int K tr (TaskQ (Q_thread_group_leader task)) = 0) \<longrightarrow>
     events_in (\<lambda>e. \<not> looks_up_task e) (proc_flush_task K task))"
proof (intro conjI impI)
  show "owns {#} \<sigma> (proc_flush_task K task) (\<lambda>_ d \<sigma>'. d = {#} \<and> \<sigma>' = \<sigma>)"
    unfolding proc_flush_task_def by (auto intro!: owns_intros simp: kernel_defs)
  assume "\<forall>tr. ans_int K tr (TaskQ (Q_thread_group_leader task)) = 0"
  then have "ask_int K (TaskQ (Q_thread_group_leader task)) \<bind> f = emit (Ask (TaskQ (Q_thread_group_leader task))) \<bind> (\<lambda>_. f 0)"
    for f :: "int \<Rightarrow> unit k"
    by (intro state.expand) (auto simp: ask_int_def emit_def fun_eq_iff)
  then show "events_in (\<lambda>e. \<not> looks_up_task e) (proc_flush_task K task)"
    unfolding proc_flush_task_def
    by (auto intro!: events_intros flush_levels_no_task simp: kernel_defs simp del: flush_levels.simps)
qed

theorem proc_flush_task_correct_witness:
  "(\<forall>tr. ans_int (ex_kernel 7 0) tr (TaskQ (Q_thread_group_leader 7)) = 0) \<and>
   events_in (\<lambda>e. \<not> looks_up_task e) (proc_flush_task (ex_kernel 7 0) 7)"
  using proc_flush_task_correct [of ex_store "ex_kernel 7 0" 7] by (simp add: ex_kernel_def)

end
