(* ===== verification/Operations.thy ===== *)
theory Operations
  imports Task_Readdir Fd_Readdir Lookup Mounts_Flush
begin

text \<open>
  The tables of operations of \<open>base.c\<close>: which function each \<open>file_operations\<close>,
  \<open>inode_operations\<close> and \<open>dentry_operations\<close> names, and the dispatch of the VFS through
  them to the operations modelled in the other theories. A table that is defined in another file of the
  kernel (\<open>maps\<close>, \<open>net\<close> and others) is \<open>None\<close>.
\<close>

section \<open>Functions in the tables\<close>

datatype read_op =
    Generic_read_dir | Seq_read | Proc_info_read | Mem_read | Environ_read | Oom_adjust_read
  | Proc_loginuid_read | Proc_sessionid_read | Proc_fault_inject_read | Proc_fdinfo_read
  | Proc_pid_attr_read | Proc_coredump_filter_read

datatype write_op =
    Lstats_write | Oom_adjust_write | Proc_loginuid_write | Proc_fault_inject_write | Sched_write
  | Proc_pid_attr_write | Proc_coredump_filter_write

datatype readdir_op =
    Proc_readfd | Proc_readfdinfo | Proc_attr_dir_readdir | Proc_tgid_base_readdir
  | Proc_tid_base_readdir | Proc_task_readdir

datatype lookup_op =
    Proc_lookupfd | Proc_lookupfdinfo | Proc_attr_dir_lookup | Proc_tgid_base_lookup
  | Proc_tid_base_lookup | Proc_task_lookup

datatype open_op =
    Lstats_open | Mounts_open | Mountinfo_open | Mountstats_open | Proc_single_open | Mem_open
  | Sched_open | Nonseekable_open

datatype release_op = Single_release | Mounts_release

datatype llseek_op = Seq_lseek | Mem_lseek

record fops =
  fo_open :: "open_op option"
  fo_read :: "read_op option"
  fo_write :: "write_op option"
  fo_readdir :: "readdir_op option"
  fo_llseek :: "llseek_op option"
  fo_release :: "release_op option"
  fo_poll :: bool \<comment> \<open>\<open>mounts_poll\<close>\<close>

datatype getattr_op = Pid_getattr | Proc_task_getattr

record iops =
  io_lookup :: "lookup_op option"
  io_getattr :: "getattr_op option"
  io_setattr :: bool \<comment> \<open>\<open>proc_setattr\<close>\<close>
  io_fd_permission :: bool \<comment> \<open>\<open>proc_fd_permission\<close>\<close>
  io_readlink :: bool
  io_follow_link :: bool

definition no_fops :: fops where
  "no_fops = \<lparr>fo_open = None, fo_read = None, fo_write = None, fo_readdir = None, fo_llseek = None,
     fo_release = None, fo_poll = False\<rparr>"

definition no_iops :: iops where
  "no_iops = \<lparr>io_lookup = None, io_getattr = None, io_setattr = False, io_fd_permission = False,
     io_readlink = False, io_follow_link = False\<rparr>"

section \<open>\<open>file_operations\<close>\<close>

definition lstats_fops :: fops where
  "lstats_fops = no_fops\<lparr>fo_open := Some Lstats_open, fo_read := Some Seq_read, fo_write := Some Lstats_write,
     fo_llseek := Some Seq_lseek, fo_release := Some Single_release\<rparr>"

definition mounts_fops :: fops where
  "mounts_fops = no_fops\<lparr>fo_open := Some Mounts_open, fo_read := Some Seq_read, fo_llseek := Some Seq_lseek,
     fo_release := Some Mounts_release, fo_poll := True\<rparr>"

definition mountinfo_fops :: fops where
  "mountinfo_fops = no_fops\<lparr>fo_open := Some Mountinfo_open, fo_read := Some Seq_read, fo_llseek := Some Seq_lseek,
     fo_release := Some Mounts_release, fo_poll := True\<rparr>"

definition mountstats_fops :: fops where
  "mountstats_fops = no_fops\<lparr>fo_open := Some Mountstats_open, fo_read := Some Seq_read, fo_llseek := Some Seq_lseek,
     fo_release := Some Mounts_release\<rparr>"

definition info_file_fops :: fops where
  "info_file_fops = no_fops\<lparr>fo_read := Some Proc_info_read\<rparr>"

definition single_file_fops :: fops where
  "single_file_fops = no_fops\<lparr>fo_open := Some Proc_single_open, fo_read := Some Seq_read, fo_llseek := Some Seq_lseek,
     fo_release := Some Single_release\<rparr>"

text \<open>\<open>.write = mem_write\<close>, and \<open>#define mem_write NULL\<close>\<close>

definition mem_fops :: fops where
  "mem_fops = no_fops\<lparr>fo_open := Some Mem_open, fo_read := Some Mem_read, fo_llseek := Some Mem_lseek\<rparr>"

definition environ_fops :: fops where
  "environ_fops = no_fops\<lparr>fo_read := Some Environ_read\<rparr>"

definition oom_adjust_fops :: fops where
  "oom_adjust_fops = no_fops\<lparr>fo_read := Some Oom_adjust_read, fo_write := Some Oom_adjust_write\<rparr>"

definition loginuid_fops :: fops where
  "loginuid_fops = no_fops\<lparr>fo_read := Some Proc_loginuid_read, fo_write := Some Proc_loginuid_write\<rparr>"

definition sessionid_fops :: fops where
  "sessionid_fops = no_fops\<lparr>fo_read := Some Proc_sessionid_read\<rparr>"

definition fault_inject_fops :: fops where
  "fault_inject_fops = no_fops\<lparr>fo_read := Some Proc_fault_inject_read, fo_write := Some Proc_fault_inject_write\<rparr>"

definition pid_sched_fops :: fops where
  "pid_sched_fops = no_fops\<lparr>fo_open := Some Sched_open, fo_read := Some Seq_read, fo_write := Some Sched_write,
     fo_llseek := Some Seq_lseek, fo_release := Some Single_release\<rparr>"

definition fdinfo_file_fops :: fops where
  "fdinfo_file_fops = no_fops\<lparr>fo_open := Some Nonseekable_open, fo_read := Some Proc_fdinfo_read\<rparr>"

definition fd_fops :: fops where
  "fd_fops = no_fops\<lparr>fo_read := Some Generic_read_dir, fo_readdir := Some Proc_readfd\<rparr>"

definition fdinfo_fops :: fops where
  "fdinfo_fops = no_fops\<lparr>fo_read := Some Generic_read_dir, fo_readdir := Some Proc_readfdinfo\<rparr>"

definition pid_attr_fops :: fops where
  "pid_attr_fops = no_fops\<lparr>fo_read := Some Proc_pid_attr_read, fo_write := Some Proc_pid_attr_write\<rparr>"

definition attr_dir_fops :: fops where
  "attr_dir_fops = no_fops\<lparr>fo_read := Some Generic_read_dir, fo_readdir := Some Proc_attr_dir_readdir\<rparr>"

definition coredump_filter_fops :: fops where
  "coredump_filter_fops = no_fops\<lparr>fo_read := Some Proc_coredump_filter_read, fo_write := Some Proc_coredump_filter_write\<rparr>"

definition tgid_base_fops :: fops where
  "tgid_base_fops = no_fops\<lparr>fo_read := Some Generic_read_dir, fo_readdir := Some Proc_tgid_base_readdir\<rparr>"

definition tid_base_fops :: fops where
  "tid_base_fops = no_fops\<lparr>fo_read := Some Generic_read_dir, fo_readdir := Some Proc_tid_base_readdir\<rparr>"

definition task_fops :: fops where
  "task_fops = no_fops\<lparr>fo_read := Some Generic_read_dir, fo_readdir := Some Proc_task_readdir\<rparr>"

fun fops_of :: "file_operations \<Rightarrow> fops option" where
  "fops_of proc_lstats_operations = Some lstats_fops"
| "fops_of proc_mounts_operations = Some mounts_fops"
| "fops_of proc_mountinfo_operations = Some mountinfo_fops"
| "fops_of proc_mountstats_operations = Some mountstats_fops"
| "fops_of proc_info_file_operations = Some info_file_fops"
| "fops_of proc_single_file_operations = Some single_file_fops"
| "fops_of proc_mem_operations = Some mem_fops"
| "fops_of proc_environ_operations = Some environ_fops"
| "fops_of proc_oom_adjust_operations = Some oom_adjust_fops"
| "fops_of proc_loginuid_operations = Some loginuid_fops"
| "fops_of proc_sessionid_operations = Some sessionid_fops"
| "fops_of proc_fault_inject_operations = Some fault_inject_fops"
| "fops_of proc_pid_sched_operations = Some pid_sched_fops"
| "fops_of proc_fdinfo_file_operations = Some fdinfo_file_fops"
| "fops_of proc_fd_operations = Some fd_fops"
| "fops_of proc_fdinfo_operations = Some fdinfo_fops"
| "fops_of proc_pid_attr_operations = Some pid_attr_fops"
| "fops_of proc_attr_dir_operations = Some attr_dir_fops"
| "fops_of proc_coredump_filter_operations = Some coredump_filter_fops"
| "fops_of proc_tgid_base_operations = Some tgid_base_fops"
| "fops_of proc_tid_base_operations = Some tid_base_fops"
| "fops_of proc_task_operations = Some task_fops"
| "fops_of _ = None"

section \<open>\<open>inode_operations\<close>\<close>

definition def_iops :: iops where
  "def_iops = no_iops\<lparr>io_setattr := True\<rparr>"

definition pid_link_iops :: iops where
  "pid_link_iops = no_iops\<lparr>io_readlink := True, io_follow_link := True, io_setattr := True\<rparr>"

definition fd_iops :: iops where
  "fd_iops = no_iops\<lparr>io_lookup := Some Proc_lookupfd, io_fd_permission := True, io_setattr := True\<rparr>"

definition fdinfo_iops :: iops where
  "fdinfo_iops = no_iops\<lparr>io_lookup := Some Proc_lookupfdinfo, io_setattr := True\<rparr>"

definition attr_dir_iops :: iops where
  "attr_dir_iops = no_iops\<lparr>io_lookup := Some Proc_attr_dir_lookup, io_getattr := Some Pid_getattr, io_setattr := True\<rparr>"

definition self_iops :: iops where
  "self_iops = no_iops\<lparr>io_readlink := True, io_follow_link := True\<rparr>"

definition tgid_base_iops :: iops where
  "tgid_base_iops = no_iops\<lparr>io_lookup := Some Proc_tgid_base_lookup, io_getattr := Some Pid_getattr, io_setattr := True\<rparr>"

definition tid_base_iops :: iops where
  "tid_base_iops = no_iops\<lparr>io_lookup := Some Proc_tid_base_lookup, io_getattr := Some Pid_getattr, io_setattr := True\<rparr>"

definition task_iops :: iops where
  "task_iops = no_iops\<lparr>io_lookup := Some Proc_task_lookup, io_getattr := Some Proc_task_getattr, io_setattr := True\<rparr>"

fun iops_of :: "inode_operations \<Rightarrow> iops option" where
  "iops_of proc_def_inode_operations = Some def_iops"
| "iops_of proc_pid_link_inode_operations = Some pid_link_iops"
| "iops_of proc_fd_inode_operations = Some fd_iops"
| "iops_of proc_fdinfo_inode_operations = Some fdinfo_iops"
| "iops_of proc_attr_dir_inode_operations = Some attr_dir_iops"
| "iops_of proc_self_inode_operations = Some self_iops"
| "iops_of proc_tgid_base_inode_operations = Some tgid_base_iops"
| "iops_of proc_tid_base_inode_operations = Some tid_base_iops"
| "iops_of proc_task_inode_operations = Some task_iops"
| "iops_of proc_net_inode_operations = None"

section \<open>\<open>dentry_operations\<close>\<close>

datatype revalidate_op = Pid_revalidate | Tid_fd_revalidate | Proc_base_revalidate

datatype delete_op = Pid_delete_dentry

record dops =
  do_revalidate :: revalidate_op
  do_delete :: delete_op

definition pid_dops :: dops where
  "pid_dops = \<lparr>do_revalidate = Pid_revalidate, do_delete = Pid_delete_dentry\<rparr>"

definition tid_fd_dops :: dops where
  "tid_fd_dops = \<lparr>do_revalidate = Tid_fd_revalidate, do_delete = Pid_delete_dentry\<rparr>"

definition base_dops :: dops where
  "base_dops = \<lparr>do_revalidate = Proc_base_revalidate, do_delete = Pid_delete_dentry\<rparr>"

fun dops_of :: "dentry_operations \<Rightarrow> dops" where
  "dops_of pid_dentry_operations = pid_dops"
| "dops_of tid_fd_dentry_operations = tid_fd_dops"
| "dops_of proc_base_dentry_operations = base_dops"

text \<open>\<open>dentry->d_op->d_revalidate\<close> and \<open>dentry->d_op->d_delete\<close>, as the VFS calls them\<close>

definition d_revalidate :: "kenv \<Rightarrow> dentry_operations \<Rightarrow> ptr \<Rightarrow> int k" where
  "d_revalidate K op dentry =
     (case do_revalidate (dops_of op) of
        Pid_revalidate \<Rightarrow> pid_revalidate K dentry
      | Tid_fd_revalidate \<Rightarrow> tid_fd_revalidate K dentry
      | Proc_base_revalidate \<Rightarrow> proc_base_revalidate K dentry)"

definition d_delete :: "kenv \<Rightarrow> dentry_operations \<Rightarrow> ptr \<Rightarrow> bool k" where
  "d_delete K op dentry = (case do_delete (dops_of op) of Pid_delete_dentry \<Rightarrow> pid_delete_dentry K dentry)"

lemmas dops_defs = pid_dops_def tid_fd_dops_def base_dops_def

section \<open>Dispatch of directories\<close>

text \<open>\<open>filp->f_op->readdir\<close>, with the fuel of the thread iterator, and \<open>dir->i_op->lookup\<close>.\<close>

definition vfs_readdir :: "kenv \<Rightarrow> kconfig \<Rightarrow> nat \<Rightarrow> readdir_op \<Rightarrow> ptr \<Rightarrow> int option k" where
  "vfs_readdir K c n op filp =
     (case op of
        Proc_readfd \<Rightarrow> map_state Some (proc_readfd K filp)
      | Proc_readfdinfo \<Rightarrow> map_state Some (proc_readfdinfo K filp)
      | Proc_attr_dir_readdir \<Rightarrow> map_state Some (proc_attr_dir_readdir K filp)
      | Proc_tgid_base_readdir \<Rightarrow> map_state Some (proc_tgid_base_readdir K c filp)
      | Proc_tid_base_readdir \<Rightarrow> map_state Some (proc_tid_base_readdir K c filp)
      | Proc_task_readdir \<Rightarrow> proc_task_readdir K c n filp)"

definition vfs_lookup :: "kenv \<Rightarrow> kconfig \<Rightarrow> lookup_op \<Rightarrow> ptr \<Rightarrow> ptr \<Rightarrow> dresult k" where
  "vfs_lookup K c op dir dentry =
     (case op of
        Proc_lookupfd \<Rightarrow> proc_lookupfd K dir dentry
      | Proc_lookupfdinfo \<Rightarrow> proc_lookupfdinfo K dir dentry
      | Proc_attr_dir_lookup \<Rightarrow> proc_attr_dir_lookup K dir dentry
      | Proc_tgid_base_lookup \<Rightarrow> proc_tgid_base_lookup K c dir dentry
      | Proc_tid_base_lookup \<Rightarrow> proc_tid_base_lookup K c dir dentry
      | Proc_task_lookup \<Rightarrow> proc_task_lookup K c dir dentry)"

section \<open>Dispatch of files and links\<close>

text \<open>
  What the sources take from the rest of the kernel: its configuration, \<open>PID_MAX_LIMIT\<close>,
  \<open>task_io_accounting_add\<close>, the place of the core dump filter in the flags and
  \<open>LT_BACKTRACEDEPTH\<close>; and the fuel of the loops.
\<close>

record vfs_params =
  vp_config :: kconfig
  vp_pm :: u32
  vp_fuel :: nat
  vp_add :: "task_io_accounting \<Rightarrow> task_io_accounting \<Rightarrow> task_io_accounting"
  vp_shift :: nat
  vp_bits :: nat
  vp_depth :: nat

text \<open>
  \<open>file->f_op->read\<close> and \<open>file->f_op->write\<close>. \<open>seq_read\<close> and
  \<open>generic_read_dir\<close> are not part of the sources; the former calls a \<open>show\<close> function.
\<close>

definition vfs_read :: "kenv \<Rightarrow> vfs_params \<Rightarrow> read_op \<Rightarrow> ptr \<Rightarrow> nat \<Rightarrow> int \<Rightarrow> (int \<times> int) option k" where
  "vfs_read K V op file cnt ppos =
     (case op of
        Proc_info_read \<Rightarrow> proc_info_read K (vp_add V) (vp_fuel V) file cnt ppos
      | Mem_read \<Rightarrow> mem_read K (vp_fuel V) file cnt ppos
      | Environ_read \<Rightarrow> environ_read K (vp_fuel V) file cnt ppos
      | Oom_adjust_read \<Rightarrow> map_state Some (oom_adjust_read K file cnt ppos)
      | Proc_loginuid_read \<Rightarrow> map_state Some (proc_loginuid_read K file cnt ppos)
      | Proc_sessionid_read \<Rightarrow> map_state Some (proc_sessionid_read K file cnt ppos)
      | Proc_fault_inject_read \<Rightarrow> map_state Some (proc_fault_inject_read K file cnt ppos)
      | Proc_fdinfo_read \<Rightarrow> map_state Some (proc_fdinfo_read K file cnt ppos)
      | Proc_pid_attr_read \<Rightarrow> map_state Some (proc_pid_attr_read K file cnt ppos)
      | Proc_coredump_filter_read \<Rightarrow>
          map_state Some (proc_coredump_filter_read K (vp_shift V) (vp_bits V) file cnt ppos)
      | _ \<Rightarrow> return None)"

definition vfs_write :: "kenv \<Rightarrow> vfs_params \<Rightarrow> write_op \<Rightarrow> ptr \<Rightarrow> ptr \<Rightarrow> nat \<Rightarrow> int \<Rightarrow> int k" where
  "vfs_write K V op file buf cnt ppos =
     (case op of
        Lstats_write \<Rightarrow> lstats_write K file cnt
      | Oom_adjust_write \<Rightarrow> oom_adjust_write K file buf cnt
      | Proc_loginuid_write \<Rightarrow> proc_loginuid_write K file buf cnt ppos
      | Proc_fault_inject_write \<Rightarrow> proc_fault_inject_write K file buf cnt
      | Sched_write \<Rightarrow> sched_write K file cnt
      | Proc_pid_attr_write \<Rightarrow> proc_pid_attr_write K file buf cnt ppos
      | Proc_coredump_filter_write \<Rightarrow> proc_coredump_filter_write K (vp_shift V) (vp_bits V) file buf cnt)"

text \<open>\<open>file->f_op->open\<close>; \<open>nonseekable_open\<close> is not part of the sources and returns 0.\<close>

definition vfs_open :: "kenv \<Rightarrow> open_op \<Rightarrow> ptr \<Rightarrow> ptr \<Rightarrow> int k" where
  "vfs_open K op inode file =
     (case op of
        Lstats_open \<Rightarrow> lstats_open K inode file
      | Mounts_open \<Rightarrow> mounts_open K inode file
      | Mountinfo_open \<Rightarrow> mountinfo_open K inode file
      | Mountstats_open \<Rightarrow> mountstats_open K inode file
      | Proc_single_open \<Rightarrow> proc_single_open K inode file
      | Mem_open \<Rightarrow> mem_open K file
      | Sched_open \<Rightarrow> sched_open K inode file
      | Nonseekable_open \<Rightarrow> return 0)"

text \<open>
  \<open>inode->i_op->readlink\<close>, and a path walk through a link: the walk holds a reference on the path
  it stands at, which \<open>follow_link\<close> takes over, and drops the one on the path it is led to.
\<close>

definition vfs_readlink :: "kenv \<Rightarrow> inode_operations \<Rightarrow> ptr \<Rightarrow> int \<Rightarrow> int k" where
  "vfs_readlink K op dentry buflen =
     (if op = proc_self_inode_operations then proc_self_readlink K dentry buflen
      else proc_pid_readlink K dentry buflen)"

definition walk_link :: "kenv \<Rightarrow> ptr \<Rightarrow> ptr \<Rightarrow> int k" where
  "walk_link K dentry nd = do {
     \<sigma> \<leftarrow> get_st;
     path_get (nd_path (nds \<sigma> nd));
     r \<leftarrow> proc_pid_follow_link K dentry nd;
     \<sigma> \<leftarrow> get_st;
     (if r = 0 then path_put (nd_path (nds \<sigma> nd)) else return ());
     return r
   }"

section \<open>Entries and their operations\<close>

text \<open>
  What an entry of a table has to offer for its type: a directory \<open>lookup\<close> and
  \<open>readdir\<close>, a link \<open>readlink\<close> and \<open>follow_link\<close>, a file that may be read
  \<open>read\<close>, and one that may be written \<open>write\<close>. Entries with operations from elsewhere
  are not judged.
\<close>

definition has_fop :: "(fops \<Rightarrow> bool) \<Rightarrow> pid_entry \<Rightarrow> bool" where
  "has_fop P e \<longleftrightarrow> (case pe_fop e of None \<Rightarrow> False
     | Some f \<Rightarrow> (case fops_of f of None \<Rightarrow> True | Some t \<Rightarrow> P t))"

definition has_iop :: "(iops \<Rightarrow> bool) \<Rightarrow> pid_entry \<Rightarrow> bool" where
  "has_iop P e \<longleftrightarrow> (case pe_iop e of None \<Rightarrow> False
     | Some f \<Rightarrow> (case iops_of f of None \<Rightarrow> True | Some t \<Rightarrow> P t))"

definition entry_typed :: "pid_entry \<Rightarrow> bool" where
  "entry_typed e \<longleftrightarrow>
     (if S_ISDIR (pe_mode e)
      then has_fop (\<lambda>t. fo_readdir t \<noteq> None) e \<and> has_iop (\<lambda>t. io_lookup t \<noteq> None) e
      else if S_ISLNK (pe_mode e) then has_iop (\<lambda>t. io_readlink t \<and> io_follow_link t) e
      else
        (pe_mode e AND S_IRUGO = 0 \<or> has_fop (\<lambda>t. fo_read t \<noteq> None) e) \<and>
        (pe_mode e AND S_IWUGO = 0 \<or> has_fop (\<lambda>t. fo_write t \<noteq> None) e \<or> pe_name e = ''mem''))"

lemma full_tables_typed:
  "list_all entry_typed (tgid_base_stuff (\<lambda>_. True))" "list_all entry_typed (tid_base_stuff (\<lambda>_. True))"
  "list_all entry_typed attr_dir_stuff" "list_all entry_typed proc_base_stuff"
  by code_simp+

lemma list_all_subseq: "subseq xs ys \<Longrightarrow> list_all P ys \<Longrightarrow> list_all P xs"
  using set_nths_subset by (fastforce simp: subseq_conv_nths list_all_iff)


end
