(* ===== verification/Vfs_Files.thy ===== *)
theory Vfs_Files
  imports Operations
begin

text \<open>
  The files and links of \<open>/proc\<close> as the VFS calls them, through the dispatch of \<open>Operations\<close>: every
  call gives back what it took and leaves the dentries as they are. A \<open>sound_call\<close> is one that is fit
  to be a step of \<open>Vfs_Steps\<close>.
\<close>

section \<open>Sound calls\<close>

text \<open>A call that is fit to be a step.\<close>

definition sound_call :: "kenv \<Rightarrow> store \<Rightarrow> 'a k \<Rightarrow> ('a \<Rightarrow> bool) \<Rightarrow> bool" where
  "sound_call K \<sigma> m returned \<longleftrightarrow>
     owns {#} \<sigma> m (\<lambda>x d \<sigma>'. returned x \<longrightarrow> d = {#} \<and> dcache_ok K \<sigma>')"

lemma sound_call_run:
  assumes "sound_call K (st s) m returned" "run_state m s = (x, s')" "returned x"
    "replay {#} (trace s) = Some {#}"
  shows "dcache_ok K (st s') \<and> replay {#} (trace s') = Some {#}"
  using owns_run [OF assms(1) [unfolded sound_call_def] refl] assms(2-) by (auto simp: replay_append)

lemma sound_callI:
  assumes "owns {#} \<sigma> m (\<lambda>x d \<sigma>'. returned x \<longrightarrow> d = {#} \<and> dentries \<sigma>' = dentries \<sigma>)" "dcache_ok K \<sigma>"
  shows "sound_call K \<sigma> m returned"
  unfolding sound_call_def using assms(2) by (intro owns_mono [OF assms(1)]) (auto intro: dcache_ok_cong)

text \<open>What the reads and writes of files rely on, with the constants \<open>V\<close> of the kernel.\<close>

definition file_laws :: "kenv \<Rightarrow> vfs_params \<Rightarrow> bool" where
  "file_laws K V \<longleftrightarrow> page_law K (vp_fuel V) \<and> simple_read_law K \<and> vp_shift V + vp_bits V \<le> 32"

lemma file_lawsD:
  assumes "file_laws K V"
  shows "page_law K (vp_fuel V)" "simple_read_law K" "vp_shift V + vp_bits V \<le> 32" "vm_law K"
  using assms by (simp_all add: file_laws_def page_law_def)

section \<open>Reads and writes\<close>

lemma posts_dentries:
  "mem_read_post K file cnt ppos \<sigma> r \<sigma>' \<Longrightarrow> dentries \<sigma>' = dentries \<sigma>"
  "environ_read_post K file cnt ppos \<sigma> r \<sigma>' \<Longrightarrow> dentries \<sigma>' = dentries \<sigma>"
  "info_read_post K cnt ppos \<sigma> r \<sigma>' \<Longrightarrow> dentries \<sigma>' = dentries \<sigma>"
  "shown K get file cnt ppos \<sigma> r' \<sigma>' \<Longrightarrow> dentries \<sigma>' = dentries \<sigma>"
  "coredump_post K sh bits file buf cnt \<sigma> i \<sigma>' \<Longrightarrow> dentries \<sigma>' = dentries \<sigma>"
  by (auto simp: mem_read_post_def environ_read_post_def info_read_post_def shown_def coredump_post_def
      dest: served_dentries)

lemma proc_info_read_other:
  assumes "\<And>f. ei_op (inodes \<sigma> (d_inode (dentries \<sigma> (f_dentry (filps \<sigma> file))))) \<noteq> Proc_read f"
  shows "owns {#} \<sigma> (proc_info_read K add n file cnt ppos) (\<lambda>r d \<sigma>'. d = {#} \<and> \<sigma>' = \<sigma>)"
  unfolding proc_info_read_def using assms
  by (auto intro!: owns_intros simp: kernel_defs split: proc_op.splits)

lemma vfs_read_sound:
  assumes laws: "file_laws K V" and "dcache_ok K \<sigma>" "cnt < vp_fuel V" "cnt < 2 ^ 31"
  shows "sound_call K \<sigma> (vfs_read K V op file cnt ppos) (\<lambda>r. r \<noteq> None)"
proof (rule sound_callI [OF _ assms(2)])
  note l = file_lawsD [OF laws]
  show "owns {#} \<sigma> (vfs_read K V op file cnt ppos)
      (\<lambda>r d \<sigma>'. r \<noteq> None \<longrightarrow> d = {#} \<and> dentries \<sigma>' = dentries \<sigma>)"
  proof (cases op)
    case Proc_info_read
    show ?thesis
    proof (cases "\<exists>f. ei_op (inodes \<sigma> (d_inode (dentries \<sigma> (f_dentry (filps \<sigma> file))))) = Proc_read f")
      case True
      then obtain f where f: "ei_op (inodes \<sigma> (d_inode (dentries \<sigma> (f_dentry (filps \<sigma> file))))) = Proc_read f" ..
      show ?thesis
        unfolding vfs_read_def Proc_info_read read_op.case
        by (rule owns_mono [OF proc_info_read_spec [OF l(1) order_refl l(2) f]])
          (auto dest: posts_dentries split: if_splits)
    next
      case False
      then show ?thesis
        unfolding vfs_read_def Proc_info_read read_op.case
        by (intro owns_mono [OF proc_info_read_other]) auto
    qed
  next
    case Mem_read
    then show ?thesis
      unfolding vfs_read_def using l assms(3,4)
      by (auto intro!: owns_mono [OF mem_read_spec] dest: posts_dentries)
  next
    case Environ_read
    then show ?thesis
      unfolding vfs_read_def using l assms(3,4)
      by (auto intro!: owns_mono [OF environ_read_spec] dest: posts_dentries)
  qed (use l in \<open>auto simp: vfs_read_def intro!: owns_intros owns_mono [OF oom_adjust_rd_spec]
      owns_mono [OF fault_inject_rd_spec] owns_mono [OF loginuid_read_spec(1)] owns_mono [OF loginuid_read_spec(2)]
      owns_mono [OF attr_spec(1)] owns_mono [OF fdinfo_read_spec] owns_mono [OF coredump_filter_read_spec]
      dest: posts_dentries served_dentries\<close>)
qed

lemma vfs_write_sound:
  assumes "file_laws K V" "dcache_ok K \<sigma>"
  shows "sound_call K \<sigma> (vfs_write K V op file buf cnt ppos) (\<lambda>_. True)"
proof (rule sound_callI [OF _ assms(2)])
  show "owns {#} \<sigma> (vfs_write K V op file buf cnt ppos)
      (\<lambda>r d \<sigma>'. True \<longrightarrow> d = {#} \<and> dentries \<sigma>' = dentries \<sigma>)"
    unfolding vfs_write_def
    using file_lawsD(3) [OF assms(1)]
    by (cases op)
      (auto intro!: owns_intros owns_mono [OF oom_adjust_wr_spec] owns_mono [OF fault_inject_wr_spec]
        owns_mono [OF loginuid_write_spec] owns_mono [OF attr_spec(2)] owns_mono [OF coredump_filter_write_spec]
        simp: lstats_write_def sched_write_def stored_def put_oom_def put_fail_def kernel_defs
        dest: posts_dentries)
qed

section \<open>The other operations of files and links\<close>

text \<open>Opening a file, other than a mount file, which holds on to what it got until it is closed.\<close>

definition holds_nothing :: "open_op \<Rightarrow> bool" where
  "holds_nothing op \<longleftrightarrow> op \<notin> {Mounts_open, Mountinfo_open, Mountstats_open}"

lemma vfs_open_sound:
  assumes "dcache_ok K \<sigma>" "holds_nothing op"
  shows "sound_call K \<sigma> (vfs_open K op inode file) (\<lambda>_. True)"
  unfolding vfs_open_def using assms
  by (intro sound_callI; cases op)
    (auto intro!: owns_intros simp: holds_nothing_def lstats_open_def proc_single_open_def sched_open_def mem_open_def
      set_seq_private_def kernel_defs split: private_data.splits)

lemma mem_lseek_sound: "dcache_ok K \<sigma> \<Longrightarrow> sound_call K \<sigma> (mem_lseek file offset orig) (\<lambda>_. True)"
  by (rule sound_callI) (auto intro!: owns_intros simp: mem_lseek_def kernel_defs)

text \<open>The functions that \<open>seq_read\<close> calls.\<close>

lemma show_sound:
  assumes "dcache_ok K \<sigma>"
  shows "sound_call K \<sigma> (proc_single_show K m) (\<lambda>_. True)" "sound_call K \<sigma> (sched_show K m) (\<lambda>_. True)"
    "sound_call K \<sigma> (lstats_show_proc K depth m) (\<lambda>_. True)"
  by (rule sound_callI [OF owns_mono [OF single.show_spec] assms], simp)
    (rule sound_callI [OF owns_mono [OF sched.show_spec] assms], simp,
     rule sound_callI [OF owns_mono [OF lstats.show_spec] assms], simp)

lemma vfs_readlink_sound:
  "dcache_ok K \<sigma> \<Longrightarrow> sound_call K \<sigma> (vfs_readlink K op dentry buflen) (\<lambda>_. True)"
  unfolding vfs_readlink_def
  by (rule sound_callI) (auto intro!: owns_mono [OF proc_pid_readlink_spec] owns_mono [OF proc_self_spec(1)])

lemma walk_link_sound:
  "dcache_ok K \<sigma> \<Longrightarrow> sound_call K \<sigma> (walk_link K dentry nd) (\<lambda>_. True)"
  unfolding walk_link_def
  by (rule sound_callI) (auto intro!: owns_intros owns_mono [OF proc_pid_follow_link_spec] simp: kernel_defs)

lemma inode_ops_sound:
  assumes "dcache_ok K \<sigma>"
  shows "sound_call K \<sigma> (proc_fd_permission K inode msk) (\<lambda>_. True)"
    "sound_call K \<sigma> (proc_setattr K dentry attr) (\<lambda>_. True)"
    "sound_call K \<sigma> (proc_self_follow_link K dentry nd) (\<lambda>_. True)"
  by (rule sound_callI [OF owns_mono [OF proc_fd_permission_spec] assms], simp)
    (rule sound_callI [OF owns_mono [OF proc_setattr_spec] assms], simp,
     rule sound_callI [OF owns_mono [OF proc_self_spec(2)] assms], simp)

lemma proc_flush_task_sound:
  "dcache_ok K \<sigma> \<Longrightarrow> sound_call K \<sigma> (proc_flush_task K task) (\<lambda>_. True)"
  by (rule sound_callI) (auto intro!: owns_intros simp: proc_flush_task_def kernel_defs)

end
