(* ===== verification/Vfs_Steps.thy ===== *)
theory Vfs_Steps
  imports Vfs_Files
begin

text \<open>
  \<open>/proc\<close> in use: the VFS calls its directories, files and links in any order, on any inode, file and
  dentry, through the operations that the inode or the dentry carries at that moment. A step is one call
  that returns, or what the VFS does between calls (a new dentry, a seek). Other processes are in the
  answers of the kernel, which may differ from call to call.
\<close>

section \<open>Dispatch through the objects\<close>

definition lookup_op_of :: "inode \<Rightarrow> lookup_op option" where
  "lookup_op_of i = Option.bind (i_op i) (\<lambda>o'. Option.bind (iops_of o') io_lookup)"

definition getattr_op_of :: "inode \<Rightarrow> getattr_op option" where
  "getattr_op_of i = Option.bind (i_op i) (\<lambda>o'. Option.bind (iops_of o') io_getattr)"

definition readdir_op_of :: "inode \<Rightarrow> readdir_op option" where
  "readdir_op_of i = Option.bind (i_fop i) (\<lambda>f. Option.bind (fops_of f) fo_readdir)"

definition read_op_of :: "inode \<Rightarrow> read_op option" where
  "read_op_of i = Option.bind (i_fop i) (\<lambda>f. Option.bind (fops_of f) fo_read)"

definition write_op_of :: "inode \<Rightarrow> write_op option" where
  "write_op_of i = Option.bind (i_fop i) (\<lambda>f. Option.bind (fops_of f) fo_write)"

definition open_op_of :: "inode \<Rightarrow> open_op option" where
  "open_op_of i = Option.bind (i_fop i) (\<lambda>f. Option.bind (fops_of f) fo_open)"

text \<open>A test of the operations an inode has, such as whether it can be read as a link.\<close>

definition offers :: "inode \<Rightarrow> inode_operations \<Rightarrow> (iops \<Rightarrow> bool) \<Rightarrow> bool" where
  "offers i op P \<longleftrightarrow> i_op i = Some op \<and> (case iops_of op of None \<Rightarrow> False | Some t \<Rightarrow> P t)"

definition vfs_getattr :: "kenv \<Rightarrow> getattr_op \<Rightarrow> ptr \<Rightarrow> (int \<times> kstat) k" where
  "vfs_getattr K op dentry =
     (case op of Pid_getattr \<Rightarrow> pid_getattr K dentry | Proc_task_getattr \<Rightarrow> proc_task_getattr K dentry)"

section \<open>Steps\<close>

text \<open>
  The positions at which directories are read: below 2^31, and for \<open>/proc\<close> from the first process
  entry to the last number. The VFS caps the count of a read. A dentry that \<open>d_lookup\<close>
  may answer is in use and not given out again. The opening of a mount file is a matter of its own,
  since it holds references until the file is closed.
\<close>

inductive vfs_step :: "kenv \<Rightarrow> vfs_params \<Rightarrow> kstate \<Rightarrow> kstate \<Rightarrow> bool"
  for K :: kenv and V :: vfs_params where
  look: "lookup_op_of (inodes (st s) dir) = Some op \<Longrightarrow>
    run_state (vfs_lookup K (vp_config V) op dir dentry) s = (r, s') \<Longrightarrow> vfs_step K V s s'"
| root_look: "run_state (proc_pid_lookup K (vp_config V) dir dentry) s = (r, s') \<Longrightarrow> vfs_step K V s s'"
| list: "readdir_op_of (inodes (st s) (dir_of (st s) filp)) = Some op \<Longrightarrow>
    f_pos (filps (st s) filp) = int p \<Longrightarrow> p < 2 ^ 31 \<Longrightarrow>
    run_state (vfs_readdir K (vp_config V) (vp_fuel V) op filp) s = (Some r, s') \<Longrightarrow> vfs_step K V s s'"
| root_list: "f_pos (filps (st s) filp) = int p \<Longrightarrow> 256 \<le> p \<Longrightarrow> int p \<le> uint (vp_pm V) + 257 \<Longrightarrow>
    run_state (proc_pid_readdir K (vp_config V) (vp_pm V) (vp_fuel V) filp) s = (Some r, s') \<Longrightarrow> vfs_step K V s s'"
| revalidate: "d_op (dentries (st s) dentry) = Some op \<Longrightarrow>
    run_state (d_revalidate K op dentry) s = (r, s') \<Longrightarrow> vfs_step K V s s'"
| drop_last: "d_op (dentries (st s) dentry) = Some op \<Longrightarrow>
    run_state (d_delete K op dentry) s = (b, s') \<Longrightarrow> vfs_step K V s s'"
| stat: "getattr_op_of (inodes (st s) (d_inode (dentries (st s) dentry))) = Some op \<Longrightarrow>
    run_state (vfs_getattr K op dentry) s = (x, s') \<Longrightarrow> vfs_step K V s s'"
| open_file: "open_op_of (inodes (st s) (dir_of (st s) file)) = Some op \<Longrightarrow> holds_nothing op \<Longrightarrow>
    run_state (vfs_open K op (dir_of (st s) file) file) s = (r, s') \<Longrightarrow> vfs_step K V s s'"
| read_file: "read_op_of (inodes (st s) (dir_of (st s) filp)) = Some op \<Longrightarrow>
    cnt < vp_fuel V \<Longrightarrow> cnt < 2 ^ 31 \<Longrightarrow>
    run_state (vfs_read K V op filp cnt ppos) s = (Some rp, s') \<Longrightarrow> vfs_step K V s s'"
| write_file: "write_op_of (inodes (st s) (dir_of (st s) file)) = Some op \<Longrightarrow>
    run_state (vfs_write K V op file buf cnt ppos) s = (r, s') \<Longrightarrow> vfs_step K V s s'"
| show_single: "run_state (proc_single_show K m) s = (rt, s') \<Longrightarrow> vfs_step K V s s'"
| show_sched: "run_state (sched_show K m) s = (rt, s') \<Longrightarrow> vfs_step K V s s'"
| show_lstats: "run_state (lstats_show_proc K (vp_depth V) m) s = (rt, s') \<Longrightarrow> vfs_step K V s s'"
| seek_mem: "run_state (mem_lseek file offset orig) s = (r, s') \<Longrightarrow> vfs_step K V s s'"
| read_link: "offers (inodes (st s) (d_inode (dentries (st s) dentry))) op io_readlink \<Longrightarrow>
    run_state (vfs_readlink K op dentry buflen) s = (r, s') \<Longrightarrow> vfs_step K V s s'"
| follow_link: "offers (inodes (st s) (d_inode (dentries (st s) dentry))) op io_follow_link \<Longrightarrow>
    op \<noteq> proc_self_inode_operations \<Longrightarrow>
    run_state (walk_link K dentry nd) s = (r, s') \<Longrightarrow> vfs_step K V s s'"
| follow_self: "run_state (proc_self_follow_link K dentry nd) s = (r, s') \<Longrightarrow> vfs_step K V s s'"
| permission: "offers (inodes (st s) inode) op io_fd_permission \<Longrightarrow>
    run_state (proc_fd_permission K inode msk) s = (r, s') \<Longrightarrow> vfs_step K V s s'"
| setattr: "offers (inodes (st s) (d_inode (dentries (st s) dentry))) op io_setattr \<Longrightarrow>
    run_state (proc_setattr K dentry attr) s = (r, s') \<Longrightarrow> vfs_step K V s s'"
| task_exit: "run_state (proc_flush_task K task) s = (u, s') \<Longrightarrow> vfs_step K V s s'"
| seek: "vfs_step K V s (s\<lparr>st := at_pos filp pos (st s)\<rparr>)"
| alloc: "(\<And>dir nm. \<not> may_ptr K (VfsQ (Q_d_lookup dir nm)) e) \<Longrightarrow>
    vfs_step K V s (s\<lparr>st := (st s)\<lparr>dentries := (dentries (st s))(e :=
      \<lparr>d_name = name, d_inode = NULL, d_op = None, d_sb = sb\<rparr>)\<rparr>\<rparr>)"

section \<open>Every call keeps the dcache in order and the references balanced\<close>

lemma vfs_lookup_sound:
  assumes "d_add_law K" "dcache_ok K \<sigma>"
  shows "sound_call K \<sigma> (vfs_lookup K c op dir dentry) (\<lambda>_. True)"
proof -
  have "list_all entry_ok (tgid_base_stuff c)" "list_all entry_ok (tid_base_stuff c)" "list_all entry_ok attr_dir_stuff"
    using table_ok_subseq tgid_base_stuff_full [of c] tid_base_stuff_full [of c] full_tables_ok
    by (auto simp: table_ok_def)
  then show ?thesis
    unfolding sound_call_def vfs_lookup_def using assms
    by (cases op)
      (auto intro!: owns_intros fd_dir.lookupfd_common_spec fdinfo_dir.lookupfd_common_spec
        dest: lookup_post_dcache simp: proc_lookupfd_def proc_lookupfdinfo_def proc_attr_dir_lookup_def
          proc_tgid_base_lookup_def proc_tid_base_lookup_def)
qed

lemma proc_pid_lookup_sound:
  "d_add_law K \<Longrightarrow> dcache_ok K \<sigma> \<Longrightarrow> sound_call K \<sigma> (proc_pid_lookup K c dir dentry) (\<lambda>_. True)"
  unfolding sound_call_def by (auto intro!: owns_intros dest: pid_lookup_post_dcache)

lemma readdir_post_dcache: "readdir_post K filp names \<sigma> r \<sigma>' \<Longrightarrow> dcache_ok K \<sigma>'"
  by (auto simp: readdir_post_def listed_part_def dest: listed_dcache split: if_splits)

lemma vfs_readdir_sound:
  assumes "d_add_law K" "task_law K" "dcache_ok K \<sigma>" "f_pos (filps \<sigma> filp) = int p" "p < 2 ^ 31"
  shows "sound_call K \<sigma> (vfs_readdir K c n op filp) (\<lambda>r. r \<noteq> None)"
  unfolding sound_call_def vfs_readdir_def using assms
  by (cases op)
    (auto intro!: owns_map_state fd_dir.readfd_common_spec fdinfo_dir.readfd_common_spec
      tgid_reader.read_spec tid_reader.read_spec attr_reader.read_spec proc_task_readdir_any
      dest: readdir_post_dcache scanned_dcache fd_scanned_dcache simp: proc_readfd_def proc_readfdinfo_def)

lemma proc_pid_readdir_sound:
  assumes "d_add_law K" "find_ge_law K pm" "unat pm < n" "dcache_ok K \<sigma>"
    "f_pos (filps \<sigma> filp) = int p" "256 \<le> p" "int p \<le> uint pm + 257"
  shows "sound_call K \<sigma> (proc_pid_readdir K c pm n filp) (\<lambda>r. r \<noteq> None)"
  unfolding sound_call_def using assms
  by (intro proc_pid_readdir_spec) (auto dest: scanned_dcache)

lemma d_revalidate_sound: "dcache_ok K \<sigma> \<Longrightarrow> sound_call K \<sigma> (d_revalidate K op dentry) (\<lambda>_. True)"
  unfolding sound_call_def d_revalidate_def
  by (cases op) (auto intro!: owns_intros simp: dops_defs proc_base_revalidate_def kernel_defs
      dest!: revalidate_frame intro: dcache_ok_cong)

lemma d_delete_sound: "dcache_ok K \<sigma> \<Longrightarrow> sound_call K \<sigma> (d_delete K op dentry) (\<lambda>_. True)"
  unfolding sound_call_def d_delete_def
  by (cases op) (auto intro!: owns_intros simp: dops_defs pid_delete_dentry_def kernel_defs)

lemma vfs_getattr_sound: "dcache_ok K \<sigma> \<Longrightarrow> sound_call K \<sigma> (vfs_getattr K op dentry) (\<lambda>_. True)"
  unfolding sound_call_def vfs_getattr_def
  by (cases op) (auto intro!: owns_mono [OF pid_getattr_owner] owns_mono [OF proc_task_getattr_links])

section \<open>The invariant\<close>

text \<open>What the VFS, the process table and the library functions promise.\<close>

definition vfs_laws :: "kenv \<Rightarrow> vfs_params \<Rightarrow> bool" where
  "vfs_laws K V \<longleftrightarrow> d_add_law K \<and> find_ge_law K (vp_pm V) \<and> task_law K \<and> unat (vp_pm V) < vp_fuel V \<and> file_laws K V"

lemma vfs_lawsD:
  assumes "vfs_laws K V"
  shows "d_add_law K" "find_ge_law K (vp_pm V)" "task_law K" "unat (vp_pm V) < vp_fuel V" "file_laws K V"
  using assms by (simp_all add: vfs_laws_def)

definition vfs_inv :: "kenv \<Rightarrow> kstate \<Rightarrow> bool" where
  "vfs_inv K s \<longleftrightarrow> dcache_ok K (st s) \<and> replay {#} (trace s) = Some {#}"

lemma sound_call_inv:
  assumes "run_state m s = (x, s')" "sound_call K (st s) m ret" "vfs_inv K s" "ret x"
  shows "vfs_inv K s'"
  using sound_call_run [OF assms(2,1,4)] assms(3) by (simp add: vfs_inv_def)

lemma vfs_inv_dcache: "vfs_inv K s \<Longrightarrow> dcache_ok K (st s)"
  by (simp add: vfs_inv_def)

text \<open>One rule per call, from the state before the call to the state after it.\<close>

lemmas dir_calls_inv =
  sound_call_inv [OF _ vfs_lookup_sound] sound_call_inv [OF _ proc_pid_lookup_sound]
  sound_call_inv [OF _ vfs_readdir_sound] sound_call_inv [OF _ proc_pid_readdir_sound]

lemmas dentry_calls_inv =
  sound_call_inv [OF _ d_revalidate_sound] sound_call_inv [OF _ d_delete_sound] sound_call_inv [OF _ vfs_getattr_sound]
  sound_call_inv [OF _ proc_flush_task_sound]

lemmas file_calls_inv =
  sound_call_inv [OF _ vfs_open_sound] sound_call_inv [OF _ vfs_read_sound] sound_call_inv [OF _ vfs_write_sound]
  sound_call_inv [OF _ show_sound(1)] sound_call_inv [OF _ show_sound(2)] sound_call_inv [OF _ show_sound(3)]
  sound_call_inv [OF _ mem_lseek_sound]

lemmas link_calls_inv =
  sound_call_inv [OF _ vfs_readlink_sound] sound_call_inv [OF _ walk_link_sound] sound_call_inv [OF _ inode_ops_sound(1)]
  sound_call_inv [OF _ inode_ops_sound(2)] sound_call_inv [OF _ inode_ops_sound(3)]

lemma vfs_step_inv:
  assumes "vfs_laws K V" "vfs_step K V s s'" "vfs_inv K s"
  shows "vfs_inv K s'"
proof -
  note laws = vfs_lawsD [OF assms(1)] and ok = vfs_inv_dcache [OF assms(3)]
  note calls = dir_calls_inv dentry_calls_inv file_calls_inv link_calls_inv
  from assms(2) show ?thesis
  proof cases
    case (seek filp pos)
    then show ?thesis using assms(3) by (simp add: vfs_inv_def)
  next
    case (alloc e name sb)
    then show ?thesis using assms(3) by (auto simp: vfs_inv_def dcache_ok_def)
  qed (erule calls, use laws ok assms(3) in simp_all)+
qed

text \<open>
  Property C5. \<open>/proc\<close> in use, for any sequence of calls that the VFS makes through the operations
  of the objects at hand - lookups, listings, revalidations, deletions, \<open>stat\<close>, opens, reads and
  writes of files (the mount files apart), links read and followed, permission checks, changes of
  attributes, the flush of an exiting task - interleaved with new dentries and seeks, and for any
  behaviour of the processes meanwhile: after every step no reference, lock, page or lookup taken by
  any call is still held, none was given up that was not held, and every dentry that carries
  operations has an inode, so that the next \<open>d_revalidate\<close> or \<open>d_delete\<close> does not follow a
  \<open>NULL\<close> pointer.
\<close>

theorem vfs_steps_safe:
  assumes "vfs_laws K V" "(vfs_step K V)\<^sup>*\<^sup>* s s'"
    "dcache_ok K (st s)" "replay {#} (trace s) = Some {#}"
  shows "replay {#} (trace s') = Some {#} \<and> dcache_ok K (st s') \<and>
    (\<forall>e. d_op (dentries (st s') e) \<noteq> None \<longrightarrow> d_inode (dentries (st s') e) \<noteq> NULL)"
proof -
  have "vfs_inv K s'"
    using assms(2,3,4) by (induction rule: rtranclp_induct) (auto simp: vfs_inv_def dest: vfs_step_inv [OF assms(1)])
  then show ?thesis by (auto simp: vfs_inv_def dcache_ok_def)
qed

text \<open>
  A kernel with one process, whose \<open>limits\<close> file is read before \<open>/proc\<close> is searched for a name.
\<close>

definition ex_vfs :: kenv where
  "ex_vfs = ex_pids\<lparr>ans_str := ans_str ex_text, ans_int := \<lambda>_ q.
     (case q of MmQ _ \<Rightarrow> 0 | VfsQ _ \<Rightarrow> 0 | _ \<Rightarrow> 1),
     ans_ptr := \<lambda>tr q. (case q of TaskQ (Q_next_thread t) \<Rightarrow> t | _ \<Rightarrow> ans_ptr ex_pids tr q)\<rparr>"

definition ex_params :: vfs_params where
  "ex_params = \<lparr>vp_config = \<lambda>_. True, vp_pm = 32768, vp_fuel = 40000, vp_add = \<lambda>a b. a, vp_shift = 2, vp_bits = 7,
     vp_depth = 12\<rparr>"

definition ex_limits :: kstate where
  "ex_limits = \<lparr>trace = [], st = ex_store\<lparr>inodes := \<lambda>p. (inodes ex_store p)
     \<lparr>i_fop := Some proc_info_file_operations, ei_op := Proc_read R_limits\<rparr>\<rparr>\<rparr>"

lemma ex_vfs_laws: "vfs_laws ex_vfs ex_params"
proof -
  have "page_law ex_vfs 40000"
    by (auto simp: page_law_def vm_law_def auxv_law_def ex_vfs_def ex_pids_def ex_text_def ex_kernel_def
        may_int_def may_str_def intro!: exI [of _ 0])
  then show ?thesis
    by (auto simp: vfs_laws_def file_laws_def ex_params_def d_add_law_def find_ge_law_def may_find_ge_def task_law_def
        simple_read_law_def ex_vfs_def ex_pids_def ex_kernel_def may_ptr_def may_int_def word_le_def split: if_splits)
qed

lemma ex_limits_ok: "dcache_ok ex_vfs (st ex_limits)" "trace ex_limits = []"
  by (auto simp: ex_limits_def ex_store_def dcache_ok_def)

lemma ex_limits_read:
  "vfs_step ex_vfs ex_params ex_limits
     (snd (run_state (vfs_read ex_vfs ex_params Proc_info_read 1 100 0) ex_limits))" (is "vfs_step _ _ _ (snd ?x)")
proof -
  have ring: "ring_law ex_vfs 40000"
    by (auto simp: ring_law_def ex_vfs_def may_ptr_def intro!: exI [of _ "\<lambda>t. t"] exI [of _ 0])
  note laws = file_lawsD [OF vfs_lawsD(5) [OF ex_vfs_laws]]
  have info: "read_op_of (inodes (st ex_limits) i) = Some Proc_info_read"
    "ei_op (inodes (st ex_limits) i) = Proc_read R_limits" for i
    by (simp_all add: ex_limits_def read_op_of_def info_file_fops_def)
  have "fst ?x \<noteq> None"
    using owns_run [OF proc_info_read_spec [OF laws(1) order_refl laws(2) info(2)] refl, of "\<lambda>a b. a" 1 100 0] ring
    by (simp add: vfs_read_def ex_params_def split: if_splits)
  then show ?thesis
    by (intro vfs_step.read_file [where filp = 1 and cnt = 100 and ppos = 0 and op = Proc_info_read
          and rp = "the (fst ?x)"])
      (simp_all add: info ex_params_def prod_eq_iff)
qed

theorem vfs_steps_safe_witness:
  "vfs_laws ex_vfs ex_params \<and> dcache_ok ex_vfs (st ex_limits) \<and> trace ex_limits = [] \<and>
   (let s = snd (run_state (vfs_read ex_vfs ex_params Proc_info_read 1 100 0) ex_limits);
        s' = snd (run_state (proc_pid_lookup ex_vfs (\<lambda>_. True) 1 2) s) in
    (vfs_step ex_vfs ex_params)\<^sup>*\<^sup>* ex_limits s' \<and> replay {#} (trace s') = Some {#})"
proof -
  let ?s = "snd (run_state (vfs_read ex_vfs ex_params Proc_info_read 1 100 0) ex_limits)"
  let ?s' = "snd (run_state (proc_pid_lookup ex_vfs (vp_config ex_params) 1 2) ?s)"
  have "vfs_step ex_vfs ex_params ?s ?s'"
    by (rule vfs_step.root_look [OF prod.collapse [symmetric]])
  with ex_limits_read have r: "(vfs_step ex_vfs ex_params)\<^sup>*\<^sup>* ex_limits ?s'"
    by (meson r_into_rtranclp rtranclp.rtrancl_into_rtrancl)
  have c: "vp_config ex_params = (\<lambda>_. True)" by (simp add: ex_params_def)
  show ?thesis
    using vfs_steps_safe [OF ex_vfs_laws r] ex_vfs_laws ex_limits_ok r by (simp add: c Let_def)
qed

end
