(* ===== verification/Exe_File.thy ===== *)
theory Exe_File
  imports Links
begin

text \<open>
  The references that memory descriptors hold on their executables. Between two calls the kernel holds,
  for every live descriptor with an executable, exactly one reference on it: an invariant of every
  sequence of the calls of \<open>mmap\<close>, \<open>exec\<close> and \<open>fork\<close>.
\<close>

definition exe_ref :: "ptr \<Rightarrow> res multiset" where
  "exe_ref f = (if f = NULL then {#} else {# RFile f #})"

definition exe_refs :: "store \<Rightarrow> ptr set \<Rightarrow> res multiset" where
  "exe_refs \<sigma> M = (\<Sum>mm \<in> M. exe_ref (exe_file \<sigma> mm))"

lemma exe_refs_remove:
  "finite M \<Longrightarrow> mm \<in> M \<Longrightarrow> exe_refs \<sigma> M = exe_ref (exe_file \<sigma> mm) + exe_refs \<sigma> (M - {mm})"
  unfolding exe_refs_def by (rule sum.remove)

lemma exe_refs_other:
  assumes "\<And>mm. mm \<in> M \<Longrightarrow> exe_file \<sigma>' mm = exe_file \<sigma> mm"
  shows "exe_refs \<sigma>' M = exe_refs \<sigma> M"
  unfolding exe_refs_def using assms by (intro sum.cong) simp_all

text \<open>The references after the executable of one descriptor changed from \<open>old\<close> to \<open>new\<close>.\<close>

lemma exe_refs_upd:
  assumes "finite M" "mm \<in> M" "\<And>x. x \<noteq> mm \<Longrightarrow> exe_file \<sigma>' x = exe_file \<sigma> x"
  shows "exe_refs \<sigma>' M = exe_ref (exe_file \<sigma>' mm) + exe_refs \<sigma> (M - {mm})"
  using exe_refs_remove [OF assms(1,2), of \<sigma>'] exe_refs_other [of "M - {mm}" \<sigma>' \<sigma>] assms(3) by simp

lemma added_spec:
  assumes "Q () d (\<sigma>\<lparr>num_exe_file_vmas := (num_exe_file_vmas \<sigma>)(mm := num_exe_file_vmas \<sigma> mm + 1)\<rparr>)"
  shows "owns d \<sigma> (added_exe_file_vma mm) Q"
  using assms unfolding added_exe_file_vma_def by (auto intro!: owns_intros simp: kernel_defs)

lemma removed_spec:
  assumes M: "finite M" "mm \<in> M"
    and Q: "\<And>\<sigma>'. (\<And>x. x \<noteq> mm \<Longrightarrow> exe_file \<sigma>' x = exe_file \<sigma> x) \<Longrightarrow>
      exe_file \<sigma>' mm \<in> {NULL, exe_file \<sigma> mm} \<Longrightarrow> Q () (exe_refs \<sigma>' M) \<sigma>'"
  shows "owns (exe_refs \<sigma> M) \<sigma> (removed_exe_file_vma mm) Q"
proof -
  let ?n = "(num_exe_file_vmas \<sigma>)(mm := num_exe_file_vmas \<sigma> mm - 1)"
  have keep: "Q () (exe_refs \<sigma> M) (\<sigma>\<lparr>num_exe_file_vmas := ?n\<rparr>)"
    using Q [of "\<sigma>\<lparr>num_exe_file_vmas := ?n\<rparr>"] by (simp add: exe_refs_def)
  have drop: "Q () (exe_refs \<sigma> M - {# RFile (exe_file \<sigma> mm) #}) (\<sigma>\<lparr>num_exe_file_vmas := ?n, exe_file := (exe_file \<sigma>)(mm := 0)\<rparr>)"
    if "exe_file \<sigma> mm \<noteq> 0"
    using Q [of "\<sigma>\<lparr>num_exe_file_vmas := ?n, exe_file := (exe_file \<sigma>)(mm := 0)\<rparr>"] that
      exe_refs_remove [OF M, of \<sigma>] exe_refs_upd [OF M, of "\<sigma>\<lparr>num_exe_file_vmas := ?n, exe_file := (exe_file \<sigma>)(mm := 0)\<rparr>" \<sigma>]
    by (simp add: exe_ref_def)
  have "RFile (exe_file \<sigma> mm) \<in># exe_refs \<sigma> M" if "exe_file \<sigma> mm \<noteq> 0"
    using exe_refs_remove [OF M, of \<sigma>] that by (simp add: exe_ref_def)
  with keep drop show ?thesis
    unfolding removed_exe_file_vma_def by (auto intro!: owns_intros simp: kernel_defs)
qed

lemma set_spec:
  assumes M: "finite M" "mm \<in> M"
    and Q: "\<And>\<sigma>'. (\<And>x. x \<noteq> mm \<Longrightarrow> exe_file \<sigma>' x = exe_file \<sigma> x) \<Longrightarrow> exe_file \<sigma>' mm = f \<Longrightarrow>
      num_exe_file_vmas \<sigma>' mm = 0 \<Longrightarrow> Q () (exe_refs \<sigma>' M) \<sigma>'"
  shows "owns (exe_refs \<sigma> M) \<sigma> (set_mm_exe_file mm f) Q"
proof -
  define \<tau> where "\<tau> = \<sigma>\<lparr>exe_file := (exe_file \<sigma>)(mm := f), num_exe_file_vmas := (num_exe_file_vmas \<sigma>)(mm := 0)\<rparr>"
  have "Q () (exe_refs \<tau> M) \<tau>" by (rule Q) (simp_all add: \<tau>_def)
  moreover have "exe_refs \<tau> M = exe_ref f + exe_refs \<sigma> (M - {mm})"
    using exe_refs_upd [OF M, of \<tau> \<sigma>] by (simp add: \<tau>_def)
  ultimately show ?thesis
    unfolding set_mm_exe_file_def exe_refs_remove [OF M, of \<sigma>]
    by (auto intro!: owns_intros simp: kernel_defs \<tau>_def exe_ref_def)
qed

lemma dup_spec:
  assumes M: "finite M" "new \<notin> M" "old \<in> M"
    and Q: "\<And>\<sigma>'. (\<And>x. x \<noteq> new \<Longrightarrow> exe_file \<sigma>' x = exe_file \<sigma> x) \<Longrightarrow> exe_file \<sigma>' new = exe_file \<sigma> old \<Longrightarrow>
      Q () (exe_refs \<sigma>' (insert new M)) \<sigma>'"
  shows "owns (exe_refs \<sigma> M) \<sigma> (dup_mm_exe_file old new) Q"
proof -
  define \<tau> where "\<tau> = \<sigma>\<lparr>exe_file := (exe_file \<sigma>)(new := exe_file \<sigma> old)\<rparr>"
  have "Q () (exe_refs \<tau> (insert new M)) \<tau>" by (rule Q) (simp_all add: \<tau>_def)
  moreover have "exe_refs \<tau> (insert new M) = exe_ref (exe_file \<sigma> old) + exe_refs \<sigma> M"
    using exe_refs_upd [of "insert new M" new \<tau> \<sigma>] M by (simp add: \<tau>_def)
  ultimately show ?thesis
    unfolding dup_mm_exe_file_def
    by (auto intro!: owns_intros simp: kernel_defs \<tau>_def exe_ref_def split: if_splits)
qed

section \<open>Sequences of calls\<close>

datatype exe_call = Added ptr | Removed ptr | Set_exe ptr ptr | Dup ptr ptr

fun run_call :: "exe_call \<Rightarrow> unit k" where
  "run_call (Added mm) = added_exe_file_vma mm"
| "run_call (Removed mm) = removed_exe_file_vma mm"
| "run_call (Set_exe mm f) = set_mm_exe_file mm f"
| "run_call (Dup old new) = dup_mm_exe_file old new"

fun run_calls :: "exe_call list \<Rightarrow> unit k" where
  "run_calls [] = return ()"
| "run_calls (c # cs) = do { run_call c; run_calls cs }"

text \<open>The live descriptors after the calls; \<open>fork\<close> makes a new one.\<close>

fun live :: "exe_call list \<Rightarrow> ptr set \<Rightarrow> ptr set" where
  "live [] M = M"
| "live (Dup old new # cs) M = live cs (insert new M)"
| "live (_ # cs) M = live cs M"

fun proper :: "exe_call list \<Rightarrow> ptr set \<Rightarrow> bool" where
  "proper [] M \<longleftrightarrow> True"
| "proper (Added mm # cs) M \<longleftrightarrow> mm \<in> M \<and> proper cs M"
| "proper (Removed mm # cs) M \<longleftrightarrow> mm \<in> M \<and> proper cs M"
| "proper (Set_exe mm f # cs) M \<longleftrightarrow> mm \<in> M \<and> proper cs M"
| "proper (Dup old new # cs) M \<longleftrightarrow> old \<in> M \<and> new \<notin> M \<and> proper cs (insert new M)"

text \<open>
  Property C27. Whatever sequence of mappings, unmappings, \<open>exec\<close>s and \<open>fork\<close>s happens, from
  a state in which the kernel holds one reference on the executable of each live memory descriptor that
  has one, it ends in such a state: no executable is released while a descriptor still points to it, none
  is released twice, and no reference is lost when a descriptor's executable is replaced, unmapped or
  shared by \<open>fork\<close>.
\<close>

theorem exe_file_references:
  assumes "finite M" "proper cs M"
  shows "owns (exe_refs \<sigma> M) \<sigma> (run_calls cs) (\<lambda>_ d \<sigma>'. d = exe_refs \<sigma>' (live cs M))"
  using assms
proof (induction cs arbitrary: M \<sigma>)
  case Nil
  then show ?case by (auto intro!: owns_intros)
next
  case (Cons c cs)
  show ?case
  proof (cases c)
    case (Added mm)
    have "exe_refs \<sigma> M = exe_refs (\<sigma>\<lparr>num_exe_file_vmas := (num_exe_file_vmas \<sigma>)(mm := num_exe_file_vmas \<sigma> mm + 1)\<rparr>) M"
      by (simp add: exe_refs_def)
    with Cons Added show ?thesis by (auto intro!: owns_bind added_spec)
  next
    case (Removed mm)
    with Cons show ?thesis by (auto intro!: owns_bind removed_spec)
  next
    case (Set_exe mm f)
    with Cons show ?thesis by (auto intro!: owns_bind set_spec)
  next
    case (Dup old new)
    with Cons show ?thesis by (auto intro!: owns_bind dup_spec)
  qed
qed

theorem exe_file_references_witness:
  "finite {1 :: ptr} \<and> proper [Set_exe 1 9, Added 1, Dup 1 2, Removed 2, Removed 1] {1} \<and>
   owns (exe_refs ex_store {1}) ex_store (run_calls [Set_exe 1 9, Added 1, Dup 1 2, Removed 2, Removed 1])
     (\<lambda>_ d \<sigma>'. d = exe_refs \<sigma>' (live [Set_exe 1 9, Added 1, Dup 1 2, Removed 2, Removed 1] {1}))"
  using exe_file_references [of "{1}" "[Set_exe 1 9, Added 1, Dup 1 2, Removed 2, Removed 1]" ex_store] by simp

end
