(* ===== verification/Proc_Header.thy ===== *)
theory Proc_Header
  imports Kernel_Env
begin

text \<open>
  The functions that \<open>proc_fs.h\<close> defines itself: \<open>proc_create\<close>, \<open>create_proc_read_entry\<close>,
  \<open>PROC_I\<close>, \<open>PDE\<close> and \<open>PDE_NET\<close>. What it only declares (\<open>create_proc_entry\<close>,
  \<open>proc_create_data\<close>) is a parameter. The types that \<open>base.c\<close> uses are in \<open>Kernel_Env\<close>.
\<close>

section \<open>Registered entries\<close>

text \<open>\<open>struct proc_dir_entry\<close>; functions and other objects are addresses.\<close>

record proc_dir_entry =
  low_ino :: u32
  namelen :: u16
  pde_name :: string
  pde_mode :: u16
  pde_nlink :: u16
  pde_uid :: u32
  pde_gid :: u32
  pde_size :: int
  proc_iops :: ptr
  proc_fops :: ptr
  pde_next :: ptr
  pde_parent :: ptr
  pde_subdir :: ptr
  pde_data :: ptr
  read_proc :: ptr
  write_proc :: ptr
  pde_count :: int
  pde_users :: int

type_synonym pdes = "ptr \<Rightarrow> proc_dir_entry"

definition proc_create ::
    "(string \<Rightarrow> u16 \<Rightarrow> ptr \<Rightarrow> ptr \<Rightarrow> ptr \<Rightarrow> pdes \<Rightarrow> ptr \<times> pdes) \<Rightarrow>
     string \<Rightarrow> u16 \<Rightarrow> ptr \<Rightarrow> ptr \<Rightarrow> pdes \<Rightarrow> ptr \<times> pdes" where
  "proc_create proc_create_data name mode parent fops s = proc_create_data name mode parent fops NULL s"

definition create_proc_read_entry ::
    "(string \<Rightarrow> u16 \<Rightarrow> ptr \<Rightarrow> pdes \<Rightarrow> ptr \<times> pdes) \<Rightarrow>
     string \<Rightarrow> u16 \<Rightarrow> ptr \<Rightarrow> ptr \<Rightarrow> ptr \<Rightarrow> pdes \<Rightarrow> ptr \<times> pdes" where
  "create_proc_read_entry create_proc_entry name mode base rd data s =
     (case create_proc_entry name mode base s of (res, s) \<Rightarrow>
        if res \<noteq> NULL then (res, s(res := (s res)\<lparr>read_proc := rd, pde_data := data\<rparr>)) else (res, s))"

text \<open>A failed creation writes nothing through the \<open>NULL\<close> pointer; any other sets exactly the two fields.\<close>

lemma create_proc_read_entry_spec:
  assumes "create_proc_entry name mode base s = (res, s1)"
    "create_proc_read_entry create_proc_entry name mode base rd data s = (res', s')"
  shows "res' = res" "res = NULL \<Longrightarrow> s' = s1" "p \<noteq> res \<Longrightarrow> s' p = s1 p"
    "res \<noteq> NULL \<Longrightarrow> s' res = (s1 res)\<lparr>read_proc := rd, pde_data := data\<rparr>"
  using assms by (auto simp: create_proc_read_entry_def split: if_splits)

definition PDE_NET :: "pdes \<Rightarrow> ptr \<Rightarrow> ptr" where
  "PDE_NET s pde = pde_data (s (pde_parent (s pde)))"

section \<open>From an inode to its \<open>proc_inode\<close>\<close>

text \<open>
  \<open>struct proc_inode\<close> on i386: six words (\<open>pid\<close>, \<open>fd\<close>, \<open>op\<close>, \<open>pde\<close>,
  \<open>sysctl\<close>, \<open>sysctl_entry\<close>), then \<open>vfs_inode\<close>. \<open>container_of\<close> subtracts that offset.
\<close>

definition vfs_inode_offset :: u32 where
  "vfs_inode_offset = 6 * 4"

definition PROC_I :: "u32 \<Rightarrow> u32" where
  "PROC_I inode = inode - vfs_inode_offset"

text \<open>\<open>&ei->vfs_inode\<close>\<close>

definition vfs_inode :: "u32 \<Rightarrow> u32" where
  "vfs_inode ei = ei + vfs_inode_offset"

text \<open>Memory in words; the field \<open>pde\<close> is the fourth.\<close>

definition PDE :: "(u32 \<Rightarrow> u32) \<Rightarrow> u32 \<Rightarrow> u32" where
  "PDE mem inode = mem (PROC_I inode + 3 * 4)"

text \<open>
  \<open>PROC_I\<close> and \<open>vfs_inode\<close> are inverse to each other, at every address: an inode of procfs and
  its \<open>proc_inode\<close> determine one another, which is why \<open>Kernel_Env\<close> keeps both in one record.
\<close>

lemma PROC_I_inverse [simp]: "PROC_I (vfs_inode ei) = ei" "vfs_inode (PROC_I inode) = inode"
  by (simp_all add: PROC_I_def vfs_inode_def)

lemma PROC_I_inj: "PROC_I i = PROC_I j \<longleftrightarrow> i = j"
  by (simp add: PROC_I_def)

lemma PDE_spec: "PDE mem (vfs_inode ei) = mem (ei + 12)"
  by (simp add: PDE_def)

end
