(* ===== verification/Chardev.thy ===== *)
theory Chardev
  imports Proc_Prelude
begin

text \<open>
  The character device of \<open>chardev/chardev.c\<close>: a device that one process at a time can open and
  that reads out a message with the number of earlier opens. The static variables of the module are the
  record \<open>chardev\<close>; \<open>msg\<close> is the C string in the buffer of \<open>BUF_LEN\<close> bytes and
  \<open>msg_Ptr\<close> the index into it. The device is a state machine driven by the VFS, which releases
  only files that were opened.
\<close>

section \<open>The module\<close>

record chardev =
  Major :: int
  Device_Open :: int
  counter :: int
  msg :: string
  msg_Ptr :: nat
  module_refs :: int

abbreviation (input) BUF_LEN :: nat where "BUF_LEN \<equiv> 80"

text \<open>\<open>major\<close> is the answer of \<open>register_chrdev\<close>.\<close>

definition chardev_init :: "int \<Rightarrow> chardev \<Rightarrow> int \<times> chardev" where
  "chardev_init major s =
     (let s = s\<lparr>Major := major\<rparr> in if Major s < 0 then (Major s, s) else (0, s))"

text \<open>\<open>cleanup_module\<close>: the number that is given to \<open>unregister_chrdev\<close>.\<close>

definition chardev_cleanup :: "chardev \<Rightarrow> int" where
  "chardev_cleanup s = Major s"

definition hello_msg :: "int \<Rightarrow> string" where
  "hello_msg n = ''I already told you '' @ fmt_d n @ '' times Hello world!'' @ [CHR 0x0A]"

text \<open>\<open>got\<close> is the answer of \<open>try_module_get\<close>, which the code ignores; the counter wraps.\<close>

definition device_open :: "bool \<Rightarrow> chardev \<Rightarrow> int \<times> chardev" where
  "device_open got s =
     (if Device_Open s \<noteq> 0 then (- EBUSY, s)
      else
        (0, s\<lparr>Device_Open := s32 (Device_Open s + 1),
              msg := hello_msg (counter s),
              counter := s32 (counter s + 1),
              msg_Ptr := 0,
              module_refs := (if got then module_refs s + 1 else module_refs s)\<rparr>))"

definition device_release :: "chardev \<Rightarrow> int \<times> chardev" where
  "device_release s = (0, s\<lparr>Device_Open := s32 (Device_Open s - 1), module_refs := module_refs s - 1\<rparr>)"

text \<open>\<open>*msg_Ptr\<close>: the terminating NUL lies behind the characters of the string.\<close>

definition at_ptr :: "chardev \<Rightarrow> char" where
  "at_ptr s = (if msg_Ptr s < length (msg s) then msg s ! msg_Ptr s else CHR 0x00)"

text \<open>The loop of \<open>device_read\<close>; \<open>out\<close> are the bytes given to \<open>put_user\<close> so far.\<close>

fun read_loop :: "nat \<Rightarrow> int \<Rightarrow> string \<Rightarrow> chardev \<Rightarrow> int \<times> string \<times> chardev" where
  "read_loop 0 bytes_read out s = (bytes_read, out, s)"
| "read_loop (Suc len) bytes_read out s =
     (if at_ptr s = CHR 0x00 then (bytes_read, out, s)
      else read_loop len (bytes_read + 1) (out @ [at_ptr s]) (s\<lparr>msg_Ptr := msg_Ptr s + 1\<rparr>))"

definition device_read :: "nat \<Rightarrow> chardev \<Rightarrow> int \<times> string \<times> chardev" where
  "device_read len s = (if at_ptr s = CHR 0x00 then (0, [], s) else read_loop len 0 [] s)"

definition device_write :: "chardev \<Rightarrow> int \<times> chardev" where
  "device_write s = (- EINVAL, s)"

section \<open>The device as a state machine\<close>

text \<open>The state next to the module: how many open files of the device there are.\<close>

inductive chardev_step :: "chardev \<times> nat \<Rightarrow> chardev \<times> nat \<Rightarrow> bool" where
  Open: "device_open True s = (0, s') \<Longrightarrow> chardev_step (s, n) (s', Suc n)"
| Busy: "device_open got s = (- EBUSY, s') \<Longrightarrow> chardev_step (s, n) (s', n)"
| Read: "0 < n \<Longrightarrow> device_read len s = (r, out, s') \<Longrightarrow> chardev_step (s, n) (s', n)"
| Write: "0 < n \<Longrightarrow> device_write s = (r, s') \<Longrightarrow> chardev_step (s, n) (s', n)"
| Release: "0 < n \<Longrightarrow> device_release s = (r, s') \<Longrightarrow> chardev_step (s, n) (s', n - 1)"

inductive_cases chardev_stepE: "chardev_step x y"

text \<open>No operation changes the number, so that unloading unregisters the one that loading was given.\<close>

lemma read_loop_Major: "read_loop len n out s = (r, out', s') \<Longrightarrow> Major s' = Major s"
  by (induction len arbitrary: n out s) (auto split: if_splits)

lemma chardev_cleanup_registered:
  "chardev_step x y \<Longrightarrow> chardev_cleanup (fst y) = chardev_cleanup (fst x)"
  by (auto simp: chardev_cleanup_def device_open_def device_read_def device_write_def device_release_def
      elim!: chardev_stepE dest: read_loop_Major split: if_splits)

definition chardev_start :: "chardev \<Rightarrow> bool" where
  "chardev_start s \<longleftrightarrow> Device_Open s = 0 \<and> counter s = 0 \<and> msg s = [] \<and> module_refs s = 0"

inductive reachable :: "chardev \<times> nat \<Rightarrow> bool" where
  start: "chardev_start s \<Longrightarrow> reachable (s, 0)"
| step: "reachable x \<Longrightarrow> chardev_step x y \<Longrightarrow> reachable y"

text \<open>
  The device is open at most once, the module is pinned exactly while it is, and the message and the read
  pointer stay within the buffer.
\<close>

definition chardev_inv :: "chardev \<times> nat \<Rightarrow> bool" where
  "chardev_inv x \<longleftrightarrow> (case x of (s, n) \<Rightarrow>
     n \<le> 1 \<and> Device_Open s = int n \<and> module_refs s = int n \<and>
     - (2 ^ 31) \<le> counter s \<and> counter s < 2 ^ 31 \<and>
     length (msg s) < BUF_LEN \<and> CHR 0x00 \<notin> set (msg s) \<and> (0 < n \<longrightarrow> msg_Ptr s \<le> length (msg s)))"

section \<open>Reading\<close>

text \<open>What is left to read: the abstract state of an open device.\<close>

definition unread :: "chardev \<Rightarrow> string" where
  "unread s = drop (msg_Ptr s) (msg s)"

lemma at_ptr_end:
  "CHR 0x00 \<notin> set (msg s) \<Longrightarrow> at_ptr s = CHR 0x00 \<longleftrightarrow> unread s = []"
  by (auto simp: at_ptr_def unread_def) (metis nth_mem)

lemma read_loop_spec:
  assumes "CHR 0x00 \<notin> set (msg s)"
  shows "read_loop len n out s =
    (n + int (length (take len (unread s))), out @ take len (unread s), s\<lparr>msg_Ptr := msg_Ptr s + length (take len (unread s))\<rparr>)"
  using assms
proof (induction len arbitrary: n out s)
  case (Suc len)
  show ?case
  proof (cases "msg_Ptr s < length (msg s)")
    case True
    then have u: "unread s = at_ptr s # unread (s\<lparr>msg_Ptr := msg_Ptr s + 1\<rparr>)"
      by (simp add: unread_def at_ptr_def Cons_nth_drop_Suc)
    moreover have "at_ptr s \<noteq> CHR 0x00" using u Suc.prems at_ptr_end by auto
    ultimately show ?thesis using Suc.IH [of "s\<lparr>msg_Ptr := msg_Ptr s + 1\<rparr>"] Suc.prems by simp
  next
    case False
    then show ?thesis using at_ptr_end [OF Suc.prems] by (simp add: unread_def)
  qed
qed simp

lemma device_read_spec:
  assumes "CHR 0x00 \<notin> set (msg s)"
  shows "device_read len s =
    (int (length (take len (unread s))), take len (unread s), s\<lparr>msg_Ptr := msg_Ptr s + length (take len (unread s))\<rparr>)"
  using at_ptr_end [OF assms] read_loop_spec [OF assms, of len 0 "[]"] by (simp add: device_read_def)

section \<open>The invariant\<close>

lemma length_hello_msg:
  assumes "- (2 ^ 31) \<le> n" "n < 2 ^ 31"
  shows "length (hello_msg n) < BUF_LEN"
proof -
  have "length (fmt_u (nat (- n))) \<le> 10" "length (fmt_u (nat n)) \<le> 10"
    using assms by (intro length_fmt_u; simp add: nat_less_iff)+
  then have "length (fmt_d n) \<le> 11" by (simp add: fmt_d_def)
  then show ?thesis by (simp add: hello_msg_def)
qed

lemma hello_msg_no_nul: "CHR 0x00 \<notin> set (hello_msg n)"
  using fmt_u_digits [of "nat n"] fmt_u_digits [of "nat (- n)"]
  by (auto simp: hello_msg_def fmt_d_def is_digit_def)

lemma chardev_step_inv: "chardev_step x y \<Longrightarrow> chardev_inv x \<Longrightarrow> chardev_inv y"
proof (induction rule: chardev_step.induct)
  case (Open s s' n)
  then show ?case
    using length_hello_msg [of "counter s"] hello_msg_no_nul s32_range [of "counter s + 1"]
    by (auto simp: chardev_inv_def device_open_def split: if_splits)
next
  case (Busy got s s' n)
  then show ?case by (auto simp: device_open_def split: if_splits)
next
  case (Read n len s r out s')
  then show ?case using device_read_spec [of s len] by (auto simp: chardev_inv_def unread_def)
next
  case (Write n s r s')
  then show ?case by (auto simp: device_write_def)
next
  case (Release n s r s')
  then show ?case by (auto simp: chardev_inv_def device_release_def)
qed

section \<open>Properties\<close>


definition ex_chardev :: chardev where
  "ex_chardev = \<lparr>Major = 250, Device_Open = 0, counter = 0, msg = [], msg_Ptr = 0, module_refs = 0\<rparr>"

lemma ex_reachable: "reachable (snd (device_open True ex_chardev), 1)"
proof -
  have "reachable (ex_chardev, 0)"
    by (rule reachable.start) (simp add: chardev_start_def ex_chardev_def)
  moreover have "chardev_step (ex_chardev, 0) (snd (device_open True ex_chardev), Suc 0)"
    by (rule chardev_step.Open) (simp add: device_open_def ex_chardev_def)
  ultimately show ?thesis by (auto intro: reachable.step)
qed


text \<open>
  Property C33. An open device refines a byte stream: the abstract state is the text not yet read, which
  after an open is the message, and a read of \<open>len\<close> bytes returns the first \<open>len\<close> of them,
  reports their number, and leaves the rest.
\<close>

theorem device_read_refines_stream:
  assumes "reachable (s, n)"
  shows "(case device_read len s of (r, out, s') \<Rightarrow>
      out = take len (unread s) \<and> r = int (length out) \<and> unread s' = drop len (unread s)) \<and>
    (case device_open True s of (r, s') \<Rightarrow> r = 0 \<and> unread s' = hello_msg (counter s) \<or> r = - EBUSY \<and> s' = s)"
proof -
  have "chardev_inv (s, n)"
    using assms by (induction rule: reachable.induct)
      (auto simp: chardev_inv_def chardev_start_def dest: chardev_step_inv)
  then have "CHR 0x00 \<notin> set (msg s)" by (simp add: chardev_inv_def)
  then show ?thesis
    using device_read_spec [of s len] by (auto simp: unread_def device_open_def min_def drop_drop add.commute)
qed

theorem device_read_refines_stream_witness:
  "reachable (snd (device_open True ex_chardev), 1) \<and>
   (case device_read 100 (snd (device_open True ex_chardev)) of (r, out, s') \<Rightarrow>
      out = take 100 (unread (snd (device_open True ex_chardev))) \<and> r = int (length out) \<and>
      unread s' = drop 100 (unread (snd (device_open True ex_chardev))))"
  by (rule conjI [OF ex_reachable conjunct1 [OF device_read_refines_stream [OF ex_reachable, of 100]]])

section \<open>Reading to the end\<close>

text \<open>A reader that asks for \<open>len\<close> bytes until it gets none, \<open>n\<close> times at most.\<close>

fun read_all :: "nat \<Rightarrow> nat \<Rightarrow> chardev \<Rightarrow> string option" where
  "read_all 0 len s = None"
| "read_all (Suc n) len s =
     (case device_read len s of (r, out, s') \<Rightarrow>
        if r = 0 then Some [] else map_option (\<lambda>rest. out @ rest) (read_all n len s'))"

lemma read_all_spec:
  assumes "CHR 0x00 \<notin> set (msg s)" "0 < len" "length (unread s) < n"
  shows "read_all n len s = Some (unread s)"
  using assms
proof (induction n arbitrary: s)
  case (Suc n)
  define s' where "s' = s\<lparr>msg_Ptr := msg_Ptr s + length (take len (unread s))\<rparr>"
  have u: "unread s' = drop len (unread s)"
    by (auto simp: s'_def unread_def min_def drop_drop add.commute)
  show ?case
  proof (cases "unread s = []")
    case False
    then have "length (unread s') < n" using Suc.prems(2,3) u by (cases "unread s") auto
    then have "read_all n len s' = Some (unread s')"
      using Suc.prems(1,2) by (intro Suc.IH) (auto simp: s'_def)
    then show ?thesis
      using False Suc.prems device_read_spec [OF Suc.prems(1), of len, folded s'_def] u
      by simp
  qed (use Suc.prems device_read_spec [OF Suc.prems(1), of len] in simp)
qed simp

text \<open>
  Property C34. A reader that opens the device and reads with any positive buffer size until it gets
  nothing comes to an end after at most 80 reads and has then read the whole message.
\<close>

theorem device_reads_end:
  assumes "- (2 ^ 31) \<le> counter s" "counter s < 2 ^ 31" "device_open got s = (0, s')" "0 < len"
  shows "read_all 80 len s' = Some (hello_msg (counter s))"
proof -
  have "msg s' = hello_msg (counter s)" "msg_Ptr s' = 0"
    using assms(3) by (auto simp: device_open_def split: if_splits)
  then show ?thesis
    using read_all_spec [of s' len 80] assms(1,2,4) length_hello_msg [of "counter s"] hello_msg_no_nul
    by (simp add: unread_def)
qed

theorem device_reads_end_witness:
  "device_open True ex_chardev = (0, snd (device_open True ex_chardev)) \<and>
   read_all 80 7 (snd (device_open True ex_chardev)) = Some (hello_msg 0)"
  using device_reads_end [of ex_chardev True "snd (device_open True ex_chardev)" 7]
  by (simp add: ex_chardev_def device_open_def)

end
