(* ===== verification/Honeypot.thy ===== *)
theory Honeypot
  imports Proc_Prelude
begin

text \<open>
  The honeypot modules that assign processes to nodes: \<open>home_hack/home_hack.c\<close> (argument check,
  marking of processes, redirection of \<open>/home/\<close> paths into the directory of the node),
  the hook of \<open>proc_hack/proc_hack.c\<close> that is meant to hide processes of other nodes,
  and \<open>module_param/module_param.c\<close>; and \<open>process/proc_trav.c\<close>, which walks the same list.
  The wrappers of the system calls are not part of the sources. The arrays \<open>pid_array\<close> and
  \<open>node_array\<close> have \<open>PID_ARRAY_MAX\<close> elements and are lists of that length; user memory is a
  partial map, in which \<open>get_user\<close> of an unmapped byte yields 0 and \<open>put_user\<close> to it
  does nothing, since the modules ignore their results.
\<close>

section \<open>Parameters\<close>

abbreviation (input) PID_ARRAY_MAX :: nat where "PID_ARRAY_MAX \<equiv> 16"

record node_params =
  pid_array :: "int list"
  pid_array_count :: nat
  node_array :: "int list"
  node_array_count :: nat

text \<open>The loop of \<open>is_target_proc\<close> from the index \<open>i\<close> on; \<open>n\<close> entries are left.\<close>

fun find_target :: "int list \<Rightarrow> int \<Rightarrow> nat \<Rightarrow> nat \<Rightarrow> int" where
  "find_target pids p_i 0 i = - 1"
| "find_target pids p_i (Suc n) i =
     (if pids ! i < 0 then - 1
      else if pids ! i = p_i then int i
      else find_target pids p_i n (Suc i))"

definition is_target_proc :: "node_params \<Rightarrow> int \<Rightarrow> int" where
  "is_target_proc P candidate_pid = find_target (pid_array P) candidate_pid (pid_array_count P) 0"

text \<open>\<open>for (i=pid_array_count; i<PID_ARRAY_MAX; ++i) node_array[i] = pid_array[i] = -1;\<close>\<close>

fun fill_unused :: "nat \<Rightarrow> nat \<Rightarrow> node_params \<Rightarrow> node_params" where
  "fill_unused 0 i P = P"
| "fill_unused (Suc n) i P =
     fill_unused n (Suc i) (P\<lparr>pid_array := (pid_array P)[i := - 1], node_array := (node_array P)[i := - 1]\<rparr>)"

definition check_args :: "node_params \<Rightarrow> int \<times> node_params" where
  "check_args P =
     (if pid_array_count P = 0 then (- 1, P)
      else if pid_array_count P \<noteq> node_array_count P then (- 1, P)
      else (0, fill_unused (PID_ARRAY_MAX - pid_array_count P) (pid_array_count P) P))"

text \<open>
  \<open>init_module\<close> of \<open>module_param.c\<close> checks the same, keeps nothing and prints the pairs: the result
  and the lines it prints, the parameters being arrays of 10 elements there.
\<close>

definition param_lines :: "node_params \<Rightarrow> nat \<Rightarrow> string list" where
  "param_lines P n =
     map (\<lambda>i. ''*** '' @ fmt_d (pid_array P ! i) @ '' : '' @ fmt_d (node_array P ! i) @ ''\<newline>'') [0..<n]"

definition module_param_init :: "node_params \<Rightarrow> int \<times> string list" where
  "module_param_init P =
     (if pid_array_count P = 0 then (- 1, [''specify node_array and pid_array\<newline>''])
      else
        let out = [''pid_array '' @ fmt_d (int (pid_array_count P)) @ ''\<newline>''] in
        if pid_array_count P \<noteq> node_array_count P
        then (- 1, out @ [''Array size mismatch: pid_array and node_array\<newline>''])
        else (0, out @ param_lines P (pid_array_count P)))"

definition module_param_cleanup :: "string list" where
  "module_param_cleanup = [''ended process module\<newline>'']"

section \<open>Marking processes\<close>

text \<open>
  The process list: \<open>next_task\<close> and \<open>task->pid\<close> are the kernel's; \<open>hp_node\<close> is the
  field the modules added. The loop runs until it is back at \<open>init_task\<close> and takes fuel.
\<close>

type_synonym marks = "ptr \<Rightarrow> int"

definition mark_task :: "node_params \<Rightarrow> (ptr \<Rightarrow> int) \<Rightarrow> ptr \<Rightarrow> marks \<Rightarrow> marks" where
  "mark_task P pid task hp_node =
     (let node_index = is_target_proc P (pid task) in
      if 0 \<le> node_index then hp_node(task := node_array P ! nat node_index) else hp_node(task := - 1))"

fun mark_loop :: "node_params \<Rightarrow> (ptr \<Rightarrow> int) \<Rightarrow> (ptr \<Rightarrow> ptr) \<Rightarrow> ptr \<Rightarrow> nat \<Rightarrow> ptr \<Rightarrow> marks \<Rightarrow> marks option" where
  "mark_loop P pid next_task init_task 0 task hp_node = None"
| "mark_loop P pid next_task init_task (Suc n) task hp_node =
     (let hp_node = mark_task P pid task hp_node; task = next_task task in
      if task \<noteq> init_task then mark_loop P pid next_task init_task n task hp_node else Some hp_node)"

definition mark_process :: "node_params \<Rightarrow> (ptr \<Rightarrow> int) \<Rightarrow> (ptr \<Rightarrow> ptr) \<Rightarrow> ptr \<Rightarrow> nat \<Rightarrow> marks \<Rightarrow> marks option" where
  "mark_process P pid next_task init_task n hp_node = mark_loop P pid next_task init_task n init_task hp_node"

text \<open>
  \<open>process/proc_trav.c\<close> walks the same list and prints, of every task, its name, its pid and the name of
  its parent; here the lines it prints.
\<close>

fun trav_loop ::
    "(ptr \<Rightarrow> string) \<Rightarrow> (ptr \<Rightarrow> int) \<Rightarrow> (ptr \<Rightarrow> ptr) \<Rightarrow> (ptr \<Rightarrow> ptr) \<Rightarrow> ptr \<Rightarrow> nat \<Rightarrow> ptr \<Rightarrow> string list option" where
  "trav_loop comm pid parent next_task init_task 0 task = None"
| "trav_loop comm pid parent next_task init_task (Suc n) task =
     (let line = ''*** '' @ comm task @ '' ['' @ fmt_d (pid task) @ ''] parent '' @ comm (parent task) @ ''\<newline>'';
          task = next_task task in
      if task \<noteq> init_task
      then map_option (\<lambda>ls. line # ls) (trav_loop comm pid parent next_task init_task n task)
      else Some [line])"

definition proc_trav_init ::
    "(ptr \<Rightarrow> string) \<Rightarrow> (ptr \<Rightarrow> int) \<Rightarrow> (ptr \<Rightarrow> ptr) \<Rightarrow> (ptr \<Rightarrow> ptr) \<Rightarrow> ptr \<Rightarrow> nat \<Rightarrow> (int \<times> string list) option" where
  "proc_trav_init comm pid parent next_task init_task n =
     map_option (\<lambda>ls. (0, ls)) (trav_loop comm pid parent next_task init_task n init_task)"

definition proc_trav_cleanup :: "string list" where
  "proc_trav_cleanup = [''ended process module\<newline>'']"

text \<open>The hook of \<open>proc_hack.c\<close>: 1 hides the process of the iterator from the reader.\<close>

definition func_proc_pid_readdir :: "marks \<Rightarrow> ptr \<Rightarrow> ptr \<Rightarrow> int" where
  "func_proc_pid_readdir hp_node cur task =
     (if 0 \<le> hp_node cur \<and> hp_node task \<noteq> hp_node cur then 1 else 0)"

section \<open>Redirecting paths\<close>

type_synonym umem = "u32 \<Rightarrow> char option"

definition get_user :: "umem \<Rightarrow> u32 \<Rightarrow> char" where
  "get_user m p = (case m p of Some c \<Rightarrow> c | None \<Rightarrow> CHR 0x00)"

definition put_user :: "char \<Rightarrow> u32 \<Rightarrow> umem \<Rightarrow> umem" where
  "put_user c p m = (if m p = None then m else m(p \<mapsto> c))"

abbreviation (input) BACKUP_LEN :: nat where "BACKUP_LEN \<equiv> 8"

text \<open>A loop that reads \<open>n\<close> bytes from \<open>p\<close> on, and one that writes them.\<close>

definition get_bytes :: "umem \<Rightarrow> u32 \<Rightarrow> nat \<Rightarrow> string" where
  "get_bytes m p n = map (\<lambda>i. get_user m (p + of_nat i)) [0..<n]"

fun put_bytes :: "string \<Rightarrow> u32 \<Rightarrow> umem \<Rightarrow> umem" where
  "put_bytes [] p m = m"
| "put_bytes (c # cs) p m = put_bytes cs (p + 1) (put_user c p m)"

record redirect =
  umem :: umem
  hp_buf :: string

text \<open>\<open>%05ld\<close>\<close>

definition fmt_05ld :: "int \<Rightarrow> string" where
  "fmt_05ld n = (if n < 0 then CHR ''-'' # fmt_zpad 4 (fmt_u (nat (- n))) else fmt_zpad 5 (fmt_u (nat n)))"

definition node_dir :: "int \<Rightarrow> string" where
  "node_dir hp_node = snprintf_buf 12 (''/j/'' @ fmt_05ld hp_node)"

text \<open>The result is \<open>NULL\<close> (0) or the new start of the path.\<close>

definition replace_path_if_necessary :: "int \<Rightarrow> u32 \<Rightarrow> redirect \<Rightarrow> u32 \<times> redirect" where
  "replace_path_if_necessary hp_node filename s =
     (let filename_prefix = get_bytes (umem s) filename 12 in
      if take 6 filename_prefix \<noteq> ''/home/'' then (0, s)
      else
        let s = s\<lparr>hp_buf := get_bytes (umem s) (filename - of_nat BACKUP_LEN) BACKUP_LEN\<rparr>;
            tmp_buf = node_dir hp_node
        in (filename - of_nat BACKUP_LEN,
            s\<lparr>umem := put_bytes (take BACKUP_LEN tmp_buf) (filename - of_nat BACKUP_LEN) (umem s)\<rparr>))"

definition restore_path :: "u32 \<Rightarrow> redirect \<Rightarrow> redirect" where
  "restore_path filename s = s\<lparr>umem := put_bytes (hp_buf s) (filename - of_nat BACKUP_LEN) (umem s)\<rparr>"

section \<open>Lemmas on user memory\<close>

lemma put_bytes_dom: "put_bytes cs p m q = None \<longleftrightarrow> m q = None"
  by (induction cs arbitrary: p m) (auto simp: put_user_def)

text \<open>Fewer than \<open>2\<^sup>32\<close> consecutive bytes have distinct addresses.\<close>

lemma put_bytes_nth:
  assumes "length cs < 2 ^ 32"
  shows "put_bytes cs p m q =
    (if unat (q - p) < length cs \<and> m q \<noteq> None then Some (cs ! unat (q - p)) else m q)"
  using assms
proof (induction cs arbitrary: p m)
  case (Cons c cs)
  have IH: "put_bytes cs (p + 1) (put_user c p m) q =
      (if unat (q - (p + 1)) < length cs \<and> put_user c p m q \<noteq> None then Some (cs ! unat (q - (p + 1)))
       else put_user c p m q)"
    using Cons by simp
  show ?case
  proof (cases "q = p")
    case True
    have "unat (q - (p + 1)) = 2 ^ 32 - 1" using True by (simp add: unsigned_minus_1_eq_mask mask_eq_exp_minus_1)
    then show ?thesis using IH True Cons.prems by (simp add: put_user_def)
  next
    case False
    then have "q - (p + 1) \<noteq> - 1" by (auto simp: diff_eq_eq)
    then have "q - (p + 1) < - 1" by (simp only: word_order.not_eq_extremum)
    from unat_inc [OF this] have "unat (q - p) = Suc (unat (q - (p + 1)))" by simp
    then show ?thesis using IH False by (simp add: put_user_def)
  qed
qed simp

lemma get_bytes_simps [simp]: "length (get_bytes m p n) = n"
  "i < n \<Longrightarrow> get_bytes m p n ! i = get_user m (p + of_nat i)"
  by (simp_all add: get_bytes_def)

text \<open>The distance of an address that lies \<open>i\<close> bytes behind another one.\<close>

lemma unat_offset: "i < 2 ^ 32 \<Longrightarrow> unat ((p + of_nat i) - p :: u32) = i"
  by (simp add: unat_of_nat)

text \<open>Bytes written over what was there, and the old bytes written back.\<close>

lemma put_bytes_back:
  assumes "length cs = n" "n < 2 ^ 32"
  shows "put_bytes (get_bytes m p n) p (put_bytes cs p m) = m"
proof
  fix q
  show "put_bytes (get_bytes m p n) p (put_bytes cs p m) q = m q"
  proof (cases "unat (q - p) < n \<and> m q \<noteq> None")
    case True
    then have "get_bytes m p n ! unat (q - p) = get_user m q" by (simp add: get_bytes_def)
    with True show ?thesis using assms by (auto simp: put_bytes_nth put_bytes_dom get_user_def split: option.splits)
  next
    case False
    then show ?thesis using assms by (auto simp: put_bytes_nth)
  qed
qed

text \<open>What is read back from where bytes were put.\<close>

lemma get_bytes_put_bytes:
  assumes "length d = m" "m + n < 2 ^ 32" "\<And>i. i < m \<Longrightarrow> mem (p + of_nat i) \<noteq> None"
  shows "get_bytes (put_bytes d p mem) p (m + n) = d @ get_bytes mem (p + of_nat m) n"
proof (rule nth_equalityI)
  fix i
  assume "i < length (get_bytes (put_bytes d p mem) p (m + n))"
  then have i: "i < m + n" by simp
  then have o: "unat ((p + of_nat i) - p) = i" using assms(2) by (intro unat_offset) simp
  have "get_user (put_bytes d p mem) (p + of_nat i) = (d @ get_bytes mem (p + of_nat m) n) ! i"
  proof (cases "i < m")
    case True
    then show ?thesis using assms o by (auto simp: get_user_def put_bytes_nth nth_append)
  next
    case False
    then have "put_bytes d p mem (p + of_nat i) = mem (p + of_nat m + of_nat (i - m))"
      using assms(1,2) o by (simp add: put_bytes_nth of_nat_diff)
    then show ?thesis using False i assms(1) by (simp add: nth_append get_user_def)
  qed
  then show "get_bytes (put_bytes d p mem) p (m + n) ! i = (d @ get_bytes mem (p + of_nat m) n) ! i"
    using i by simp
qed (use assms(1) in simp)

lemma length_node_dir: "8 \<le> length (node_dir n)"
  by (auto simp: node_dir_def snprintf_buf_def fmt_05ld_def fmt_zpad_def)

lemma node_dir_small:
  assumes "0 \<le> n" "n < 100000"
  shows "take 8 (node_dir n) = ''/j/'' @ fmt_zpad 5 (fmt_u (nat n))" "length (fmt_zpad 5 (fmt_u (nat n))) = 5"
proof -
  have "length (fmt_u (nat n)) \<le> 5" using assms by (intro length_fmt_u) simp_all
  then show "length (fmt_zpad 5 (fmt_u (nat n))) = 5" by (simp add: fmt_zpad_def)
  then show "take 8 (node_dir n) = ''/j/'' @ fmt_zpad 5 (fmt_u (nat n))"
    using assms(1) by (simp add: node_dir_def snprintf_buf_def fmt_05ld_def)
qed

section \<open>Lemmas on marking\<close>

text \<open>Which entry of the array is the first one for a process, before the first unused entry.\<close>

definition target_at :: "node_params \<Rightarrow> int \<Rightarrow> nat \<Rightarrow> bool" where
  "target_at P p i \<longleftrightarrow> i < pid_array_count P \<and> pid_array P ! i = p \<and>
     (\<forall>j \<le> i. 0 \<le> pid_array P ! j) \<and> (\<forall>j < i. pid_array P ! j \<noteq> p)"

lemma find_target_spec:
  assumes "\<forall>j < i. 0 \<le> pids ! j \<and> pids ! j \<noteq> p"
  shows "(let r = find_target pids p n i in
     r = - 1 \<and> (\<forall>k < i + n. pids ! k = p \<longrightarrow> (\<exists>j \<le> k. pids ! j < 0)) \<or>
     (\<exists>k < i + n. r = int k \<and> pids ! k = p \<and> (\<forall>j \<le> k. 0 \<le> pids ! j) \<and> (\<forall>j < k. pids ! j \<noteq> p)))"
  using assms
proof (induction n arbitrary: i)
  case 0
  then show ?case by auto
next
  case (Suc n)
  consider "pids ! i < 0" | "0 \<le> pids ! i" "pids ! i = p" | "0 \<le> pids ! i" "pids ! i \<noteq> p" by linarith
  then show ?case
  proof cases
    case 1
    have "\<exists>j \<le> k. pids ! j < 0" if "pids ! k = p" for k
    proof -
      have "i \<le> k"
      proof (rule ccontr)
        assume "\<not> i \<le> k"
        then show False using Suc.prems that by auto
      qed
      with 1 show ?thesis by blast
    qed
    with 1 show ?thesis by simp
  next
    case 2
    with Suc.prems show ?thesis by (auto simp: le_less intro!: exI [of _ i])
  next
    case 3
    have "\<forall>j < Suc i. 0 \<le> pids ! j \<and> pids ! j \<noteq> p" using 3 Suc.prems by (auto simp: less_Suc_eq)
    from Suc.IH [OF this] 3 show ?thesis by simp
  qed
qed

lemma is_target_proc_spec:
  "is_target_proc P p = - 1 \<and> (\<nexists>i. target_at P p i) \<or> (\<exists>i. target_at P p i \<and> is_target_proc P p = int i)"
  using find_target_spec [of 0 "pid_array P" p "pid_array_count P"]
  unfolding is_target_proc_def target_at_def Let_def by fastforce

text \<open>The node a process belongs to, or -1.\<close>

definition node_for :: "node_params \<Rightarrow> int \<Rightarrow> int" where
  "node_for P p = (let r = is_target_proc P p in if 0 \<le> r then node_array P ! nat r else - 1)"

lemma mark_task_eq: "mark_task P pid task hp = hp(task := node_for P (pid task))"
  by (simp add: mark_task_def node_for_def Let_def)

lemma mark_loop_spec:
  assumes "j \<le> k" "k - j < n" "(next_task ^^ Suc k) init_task = init_task"
    "\<And>i. 0 < i \<Longrightarrow> i \<le> k \<Longrightarrow> (next_task ^^ i) init_task \<noteq> init_task"
  shows "mark_loop P pid next_task init_task n ((next_task ^^ j) init_task) hp =
    Some (\<lambda>t. if \<exists>i. j \<le> i \<and> i \<le> k \<and> t = (next_task ^^ i) init_task then node_for P (pid t) else hp t)"
  using assms(1,2)
proof (induction n arbitrary: j hp)
  case (Suc n)
  have s: "next_task ((next_task ^^ j) init_task) = (next_task ^^ Suc j) init_task" by simp
  show ?case
  proof (cases "j = k")
    case True
    then show ?thesis using assms(3) s by (auto simp: mark_task_eq Let_def fun_eq_iff)
  next
    case False
    then have "(next_task ^^ Suc j) init_task \<noteq> init_task" using Suc.prems(1) by (intro assms(4)) simp_all
    moreover have "mark_loop P pid next_task init_task n ((next_task ^^ Suc j) init_task) hp' =
        Some (\<lambda>t. if \<exists>i. Suc j \<le> i \<and> i \<le> k \<and> t = (next_task ^^ i) init_task then node_for P (pid t) else hp' t)" for hp'
      using False Suc.prems by (intro Suc.IH) simp_all
    moreover have "(\<exists>i. j \<le> i \<and> i \<le> k \<and> t = (next_task ^^ i) init_task) \<longleftrightarrow>
        t = (next_task ^^ j) init_task \<or> (\<exists>i. Suc j \<le> i \<and> i \<le> k \<and> t = (next_task ^^ i) init_task)" for t
      using Suc.prems(1) by (metis Suc_leD le_antisym not_less_eq_eq)
    ultimately show ?thesis by (auto simp: mark_task_eq Let_def fun_eq_iff)
  qed
qed simp

text \<open>A process list that is a ring of \<open>k + 1\<close> processes.\<close>

definition ring :: "(ptr \<Rightarrow> ptr) \<Rightarrow> ptr \<Rightarrow> nat \<Rightarrow> bool" where
  "ring next_task init_task k \<longleftrightarrow> (next_task ^^ Suc k) init_task = init_task \<and>
     (\<forall>i. 0 < i \<longrightarrow> i \<le> k \<longrightarrow> (next_task ^^ i) init_task \<noteq> init_task)"

definition ring_tasks :: "(ptr \<Rightarrow> ptr) \<Rightarrow> ptr \<Rightarrow> nat \<Rightarrow> ptr set" where
  "ring_tasks next_task init_task k = (\<lambda>i. (next_task ^^ i) init_task) ` {..k}"

lemma mark_process_ring:
  assumes "ring next_task init_task k" "k < n"
  shows "mark_process P pid next_task init_task n hp =
    Some (\<lambda>t. if t \<in> ring_tasks next_task init_task k then node_for P (pid t) else hp t)"
proof -
  have "(\<exists>i. 0 \<le> i \<and> i \<le> k \<and> t = (next_task ^^ i) init_task) \<longleftrightarrow> t \<in> ring_tasks next_task init_task k" for t
    by (auto simp: ring_tasks_def)
  then show ?thesis
    using mark_loop_spec [of 0 k n next_task init_task P pid hp] assms by (simp add: mark_process_def ring_def)
qed

text \<open>Filling the unused entries does not change which node a process belongs to.\<close>

lemma find_target_cong:
  "(\<And>j. j < i + n \<Longrightarrow> pids ! j = pids' ! j) \<Longrightarrow> find_target pids p n i = find_target pids' p n i"
  by (induction n arbitrary: i) simp_all

lemma fill_unused_used:
  "pid_array_count (fill_unused n i P) = pid_array_count P"
  "j < i \<Longrightarrow> pid_array (fill_unused n i P) ! j = pid_array P ! j"
  "j < i \<Longrightarrow> node_array (fill_unused n i P) ! j = node_array P ! j"
  by (induction n arbitrary: i P) simp_all

lemma check_args_node_for:
  assumes "check_args P = (r, P')"
  shows "node_for P' p = node_for P p"
proof -
  let ?Q = "fill_unused (16 - pid_array_count P) (pid_array_count P) P"
  have t: "is_target_proc ?Q p = is_target_proc P p"
    unfolding is_target_proc_def fill_unused_used(1) by (rule find_target_cong) (simp add: fill_unused_used)
  have "is_target_proc P p < int (pid_array_count P) \<or> is_target_proc P p = - 1"
    using is_target_proc_spec [of P p] by (auto simp: target_at_def)
  then have "node_for ?Q p = node_for P p"
    by (auto simp: node_for_def t fill_unused_used Let_def nat_less_iff)
  then show ?thesis using assms by (auto simp: check_args_def split: if_splits)
qed

lemma trav_loop_spec:
  assumes "j \<le> k" "k - j < n" "(next_task ^^ Suc k) init_task = init_task"
    "\<And>i. 0 < i \<Longrightarrow> i \<le> k \<Longrightarrow> (next_task ^^ i) init_task \<noteq> init_task"
  shows "trav_loop comm pid parent next_task init_task n ((next_task ^^ j) init_task) =
    Some (map (\<lambda>i. let t = (next_task ^^ i) init_task in
      ''*** '' @ comm t @ '' ['' @ fmt_d (pid t) @ ''] parent '' @ comm (parent t) @ ''\<newline>'') [j..<Suc k])"
  using assms(1,2)
proof (induction n arbitrary: j)
  case (Suc n)
  have s: "next_task ((next_task ^^ j) init_task) = (next_task ^^ Suc j) init_task" by simp
  show ?case
  proof (cases "j = k")
    case True
    then show ?thesis using assms(3) s by (simp add: Let_def)
  next
    case False
    then have "(next_task ^^ Suc j) init_task \<noteq> init_task" using Suc.prems(1) by (intro assms(4)) simp_all
    moreover have "[j..<Suc k] = j # [Suc j..<Suc k]" using Suc.prems(1) by (intro upt_conv_Cons) simp
    ultimately show ?thesis
      using Suc.IH [of "Suc j"] False Suc.prems by (simp add: Let_def del: upt_Suc)
  qed
qed simp

text \<open>On a ring of processes \<open>proc_trav\<close> ends and prints every process once, in the order of the ring.\<close>

lemma proc_trav_prints_ring:
  assumes "ring next_task init_task k" "k < n"
  shows "proc_trav_init comm pid parent next_task init_task n =
    Some (0, map (\<lambda>i. let t = (next_task ^^ i) init_task in
      ''*** '' @ comm t @ '' ['' @ fmt_d (pid t) @ ''] parent '' @ comm (parent t) @ ''\<newline>'') [0..<Suc k])"
  using trav_loop_spec [of 0 k n next_task init_task comm pid parent] assms
  by (simp add: proc_trav_init_def ring_def del: upt_Suc)

section \<open>Properties\<close>

text \<open>
  Property C35. \<open>mark_process\<close> comes to an end on a process list that is a ring, however long, and
  then every process of the ring carries the node of the first entry of \<open>pid_array\<close> with its pid
  that stands before any unused entry, or -1; no other mark is touched.
\<close>

theorem mark_process_correct:
  assumes "ring next_task init_task k" "k < n"
  shows "mark_process P pid next_task init_task n hp =
      Some (\<lambda>t. if t \<in> ring_tasks next_task init_task k then node_for P (pid t) else hp t) \<and>
    ((\<forall>i. \<not> target_at P (pid t) i) \<and> node_for P (pid t) = - 1 \<or>
     (\<exists>i. target_at P (pid t) i \<and> node_for P (pid t) = node_array P ! i))"
  using mark_process_ring [OF assms] is_target_proc_spec [of P "pid t"] by (auto simp: node_for_def)

definition ex_params :: node_params where
  "ex_params = \<lparr>pid_array = [4232, 17], pid_array_count = 2, node_array = [1, 2], node_array_count = 2\<rparr>"

lemma ex_ring: "ring (\<lambda>t. 1 - t) 0 1" "ring_tasks (\<lambda>t. 1 - t) 0 1 = {0, 1}"
  by (auto simp: ring_def ring_tasks_def le_Suc_eq atMost_Suc)

theorem mark_process_correct_witness:
  "ring (\<lambda>t. 1 - t) 0 1 \<and>
   mark_process ex_params (\<lambda>t. if t = 1 then 4232 else 5) (\<lambda>t. 1 - t) 0 2 (\<lambda>_. 9) =
     Some (\<lambda>t. if t \<in> {0, 1} then node_for ex_params (if t = 1 then 4232 else 5) else 9)"
  using mark_process_correct [OF ex_ring(1), of 2 ex_params "\<lambda>t. if t = 1 then 4232 else 5" "\<lambda>_. 9"]
    ex_ring by simp

text \<open>
  Property C36. Redirecting a path and restoring it is the identity on user memory, for every memory,
  mapped or not, every address, wrapping around or not, and every node: a path that does not start with
  \<open>/home/\<close> is left alone, and otherwise \<open>restore_path\<close> puts back exactly what
  \<open>replace_path_if_necessary\<close> overwrote.
\<close>

theorem redirect_roundtrip:
  "(case replace_path_if_necessary hp_node filename s of (p, s') \<Rightarrow>
     if get_bytes (umem s) filename 6 = ''/home/''
     then p = filename - 8 \<and> umem (restore_path filename s') = umem s
     else p = 0 \<and> s' = s)"
proof -
  have t: "take 6 (get_bytes (umem s) filename 12) = get_bytes (umem s) filename 6"
    by (simp add: get_bytes_def take_map)
  have "length (take 8 (node_dir hp_node)) = 8" using length_node_dir [of hp_node] by simp
  from put_bytes_back [OF this] show ?thesis
    by (simp add: replace_path_if_necessary_def restore_path_def t Let_def)
qed

text \<open>
  Property C37. For a node below 100000, and mapped memory in front of the path, the redirected path is
  the directory \<open>/j/NNNNN\<close> of the node followed by the old path, of any length \<open>n\<close>.
\<close>

theorem redirect_prepends_node_dir:
  assumes "get_bytes (umem s) filename 6 = ''/home/''" "0 \<le> hp_node" "hp_node < 100000"
    "\<And>i. i < 8 \<Longrightarrow> umem s (filename - 8 + of_nat i) \<noteq> None" "n + 8 < 2 ^ 32"
  shows "(case replace_path_if_necessary hp_node filename s of (p, s') \<Rightarrow>
    get_bytes (umem s') p (n + 8) =
      ''/j/'' @ fmt_zpad 5 (fmt_u (nat hp_node)) @ get_bytes (umem s) filename n)"
proof -
  have t: "take 6 (get_bytes (umem s) filename 12) = ''/home/''"
    using assms(1) by (simp add: get_bytes_def take_map)
  note d = node_dir_small [OF assms(2,3)]
  have "get_bytes (put_bytes (take 8 (node_dir hp_node)) (filename - 8) (umem s)) (filename - 8) (8 + n) =
      take 8 (node_dir hp_node) @ get_bytes (umem s) (filename - 8 + of_nat 8) n"
    using d assms(4,5) by (intro get_bytes_put_bytes) simp_all
  then show ?thesis using t d(1) by (simp add: replace_path_if_necessary_def Let_def add.commute)
qed

definition ex_redirect :: redirect where
  "ex_redirect = \<lparr>umem = \<lambda>a. Some (if 0x1000 \<le> a \<and> a < 0x1006 then ''/home/'' ! unat (a - 0x1000) else CHR ''z''),
     hp_buf = []\<rparr>"

lemma ex_redirect_path: "get_bytes (umem ex_redirect) 0x1000 6 = ''/home/''"
  by (simp add: get_bytes_def get_user_def ex_redirect_def upt_rec)

theorem redirect_prepends_node_dir_witness:
  "get_bytes (umem ex_redirect) 0x1000 6 = ''/home/'' \<and>
   (case replace_path_if_necessary 42 0x1000 ex_redirect of (p, s') \<Rightarrow>
    get_bytes (umem s') p (6 + 8) = ''/j/'' @ fmt_zpad 5 (fmt_u (nat 42)) @ get_bytes (umem ex_redirect) 0x1000 6)"
  using redirect_prepends_node_dir [OF ex_redirect_path, of 42 6] ex_redirect_path
  by (simp add: ex_redirect_def)

text \<open>Larger nodes do not fit the eight bytes: distinct nodes share a directory.\<close>

lemma node_dir_collision: "take 8 (node_dir 123456) = take 8 (node_dir 12345)"
  by (simp add: node_dir_def snprintf_buf_def fmt_05ld_def fmt_zpad_def radix_str_step radix_str_small)

text \<open>The hook of \<open>proc_hack.c\<close> hides exactly the processes of other nodes from a process in a node.\<close>

lemma func_proc_pid_readdir_hides:
  "func_proc_pid_readdir hp cur task = 1 \<longleftrightarrow> 0 \<le> hp cur \<and> hp task \<noteq> hp cur"
  by (simp add: func_proc_pid_readdir_def)

text \<open>After a successful \<open>check_args\<close> the used entries are as given and the others are -1.\<close>

lemma fill_unused_spec:
  "j < length (pid_array P) \<Longrightarrow>
     pid_array (fill_unused n i P) ! j = (if i \<le> j \<and> j < i + n then - 1 else pid_array P ! j) \<and>
     length (pid_array (fill_unused n i P)) = length (pid_array P)"
  by (induction n arbitrary: i P) (auto simp: nth_list_update)

lemma check_args_spec:
  assumes "check_args P = (0, P')" "length (pid_array P) = PID_ARRAY_MAX" "j < PID_ARRAY_MAX"
  shows "0 < pid_array_count P" "pid_array_count P = node_array_count P"
    "pid_array P' ! j = (if j < pid_array_count P then pid_array P ! j else - 1)"
  using assms fill_unused_spec [of j P "16 - pid_array_count P" "pid_array_count P"]
  by (auto simp: check_args_def split: if_splits)

text \<open>\<open>module_param.c\<close> accepts what \<open>home_hack.c\<close> accepts, and then prints a line for each pair.\<close>

lemma module_param_init_agrees:
  "fst (module_param_init P) = fst (check_args P)"
  "fst (module_param_init P) = 0 \<Longrightarrow> tl (snd (module_param_init P)) = param_lines P (pid_array_count P)"
  by (auto simp: module_param_init_def check_args_def Let_def split: if_splits)

end
