(* ===== verification/Syscall_Hooks.thy ===== *)
theory Syscall_Hooks
  imports Honeypot
begin

text \<open>
  The modules that replace entries of the system call table:
  \<open>home_hack.c\<close> (seven calls, through the macros \<open>MAKE_REPLACE_SYSCALL\<close>,
  \<open>ADD_HOOK_SYS\<close> and \<open>CLEANUP_SYSCALL\<close>), \<open>syscall/syscall.c\<close> (\<open>open\<close>),
  \<open>kmap/kmap.c\<close> (\<open>open\<close>,
  through a second mapping of the page of the table) and the user program
  \<open>mmap/kill_syscalltable.c\<close>. Functions are addresses. All of them follow one protocol, the locale
  \<open>hook_slot\<close>: save the old entry, write one's own, and on removal write the old one back unless
  somebody else has replaced the entry since.
\<close>

section \<open>The protocol\<close>

locale hook_slot =
  fixes slot :: "'s \<Rightarrow> 'f" and saved :: "'s \<Rightarrow> 'f" and wrapper :: 'f
    and install :: "'s \<Rightarrow> 's" and uninstall :: "'s \<Rightarrow> 's"
  assumes install_slot: "slot (install s) = wrapper"
    and install_saved: "saved (install s) = slot s"
    and uninstall_own: "slot s = wrapper \<Longrightarrow> slot (uninstall s) = saved s"
    and uninstall_foreign: "slot s \<noteq> wrapper \<Longrightarrow> uninstall s = s"
begin

lemma uninstall_install: "slot (uninstall (install s)) = slot s"
  by (simp add: uninstall_own install_slot install_saved)

text \<open>
  Another writer of the slot in between: if it puts the wrapper back, removal restores the entry;
  if it does not, its entry stays.
\<close>

lemma uninstall_after:
  assumes "saved (g (install s)) = saved (install s)"
  shows "slot (uninstall (g (install s))) =
    (if slot (g (install s)) = wrapper then slot s else slot (g (install s)))"
  using assms by (simp add: uninstall_own uninstall_foreign install_saved)

text \<open>A second installation loses the original entry: the wrapper is then saved as the original.\<close>

lemma install_twice: "saved (install (install s)) = wrapper"
  by (simp add: install_slot install_saved)

end

section \<open>\<open>home_hack.c\<close>\<close>

datatype hooked = H_open | H_chdir | H_stat | H_stat64 | H_lstat64 | H_unlink | H_ioctl

text \<open>The numbers of i386.\<close>

fun NR :: "hooked \<Rightarrow> nat" where
  "NR H_open = 5" | "NR H_chdir = 12" | "NR H_stat = 106" | "NR H_stat64 = 195"
| "NR H_lstat64 = 196" | "NR H_unlink = 10" | "NR H_ioctl = 54"

record syscall_state =
  sys_call_table :: "nat \<Rightarrow> ptr"
  original_sys :: "hooked \<Rightarrow> ptr"

text \<open>\<open>MAKE_REPLACE_SYSCALL(call)\<close>; \<open>w\<close> gives the address of \<open>sys_call_wrapper\<close>.\<close>

definition add_hook_sys :: "(hooked \<Rightarrow> ptr) \<Rightarrow> hooked \<Rightarrow> syscall_state \<Rightarrow> int \<times> syscall_state" where
  "add_hook_sys w c s =
     (let s = s\<lparr>original_sys := (original_sys s)(c := sys_call_table s (NR c))\<rparr>;
          s = s\<lparr>sys_call_table := (sys_call_table s)(NR c := w c)\<rparr>
      in if sys_call_table s (NR c) \<noteq> w c then (- 1, s) else (0, s))"

text \<open>A sequence of \<open>ADD_HOOK_SYS\<close>, each of which returns -1 from the caller when it fails.\<close>

fun add_hooks :: "(hooked \<Rightarrow> ptr) \<Rightarrow> hooked list \<Rightarrow> syscall_state \<Rightarrow> int \<times> syscall_state" where
  "add_hooks w [] s = (0, s)"
| "add_hooks w (c # cs) s =
     (case add_hook_sys w c s of (r, s) \<Rightarrow> if r \<noteq> 0 then (- 1, s) else add_hooks w cs s)"

definition CLEANUP_SYSCALL :: "(hooked \<Rightarrow> ptr) \<Rightarrow> hooked \<Rightarrow> syscall_state \<Rightarrow> syscall_state" where
  "CLEANUP_SYSCALL w c s =
     (if sys_call_table s (NR c) \<noteq> w c then s
      else s\<lparr>sys_call_table := (sys_call_table s)(NR c := original_sys s c)\<rparr>)"

definition all_hooks :: "hooked list" where
  "all_hooks = [H_open, H_chdir, H_stat, H_stat64, H_lstat64, H_unlink, H_ioctl]"

text \<open>\<open>init_module\<close>; the process list is that of \<open>mark_process\<close>, with its fuel.\<close>

definition home_hack_init ::
    "(hooked \<Rightarrow> ptr) \<Rightarrow> (ptr \<Rightarrow> int) \<Rightarrow> (ptr \<Rightarrow> ptr) \<Rightarrow> ptr \<Rightarrow> nat \<Rightarrow>
     node_params \<Rightarrow> marks \<Rightarrow> syscall_state \<Rightarrow> (int \<times> node_params \<times> marks \<times> syscall_state) option" where
  "home_hack_init w pid next_task init_task n P hp s =
     (case check_args P of (r, P) \<Rightarrow>
        if r < 0 then Some (- 1, P, hp, s)
        else
          case mark_process P pid next_task init_task n hp of
            None \<Rightarrow> None
          | Some hp \<Rightarrow> (case add_hooks w all_hooks s of (r, s) \<Rightarrow> Some (r, P, hp, s)))"

definition home_hack_cleanup :: "(hooked \<Rightarrow> ptr) \<Rightarrow> syscall_state \<Rightarrow> syscall_state" where
  "home_hack_cleanup w s = fold (CLEANUP_SYSCALL w) all_hooks s"

interpretation home: hook_slot "\<lambda>s. sys_call_table s (NR c)" "\<lambda>s. original_sys s c" "w c"
    "\<lambda>s. snd (add_hook_sys w c s)" "CLEANUP_SYSCALL w c"
  by unfold_locales (simp_all add: add_hook_sys_def CLEANUP_SYSCALL_def Let_def)

lemma add_hook_sys_ok: "fst (add_hook_sys w c s) = 0"
  by (simp add: add_hook_sys_def Let_def)

lemma add_hooks_ok: "add_hooks w cs s = (0, fold (\<lambda>c s. snd (add_hook_sys w c s)) cs s)"
proof (induction cs arbitrary: s)
  case (Cons c cs)
  then show ?case using add_hook_sys_ok [of w c s] by (cases "add_hook_sys w c s") simp
qed simp

lemma NR_inj: "NR c = NR d \<longleftrightarrow> c = d"
  by (cases c; cases d) simp_all

lemma add_hook_sys_other:
  "d \<noteq> c \<Longrightarrow> original_sys (snd (add_hook_sys w c s)) d = original_sys s d"
  "n \<noteq> NR c \<Longrightarrow> sys_call_table (snd (add_hook_sys w c s)) n = sys_call_table s n"
  by (simp_all add: add_hook_sys_def Let_def)

text \<open>What the table and the saved entries are after hooks on distinct calls.\<close>

lemma add_hooks_state:
  "distinct cs \<Longrightarrow>
     (\<forall>c \<in> set cs. sys_call_table (fold (\<lambda>c s. snd (add_hook_sys w c s)) cs s) (NR c) = w c \<and>
        original_sys (fold (\<lambda>c s. snd (add_hook_sys w c s)) cs s) c = sys_call_table s (NR c)) \<and>
     (\<forall>n. n \<notin> NR ` set cs \<longrightarrow> sys_call_table (fold (\<lambda>c s. snd (add_hook_sys w c s)) cs s) n = sys_call_table s n) \<and>
     (\<forall>c. c \<notin> set cs \<longrightarrow> original_sys (fold (\<lambda>c s. snd (add_hook_sys w c s)) cs s) c = original_sys s c)"
proof (induction cs arbitrary: s)
  case (Cons c cs)
  then have d: "distinct cs" "c \<notin> set cs" by simp_all
  have "NR c \<notin> NR ` set cs" "\<And>x. x \<in> set cs \<Longrightarrow> NR x \<noteq> NR c" using d(2) by (auto simp: NR_inj)
  with Cons.IH [OF d(1), of "snd (add_hook_sys w c s)"] d(2)
  show ?case
    using home.install_slot [of w c s] home.install_saved [of w c s]
    by (auto simp: add_hook_sys_other NR_inj)
qed simp

lemma cleanups_restore:
  "distinct cs \<Longrightarrow> (\<And>c. c \<in> set cs \<Longrightarrow> sys_call_table s (NR c) = w c \<and> original_sys s c = t (NR c)) \<Longrightarrow>
   (\<And>n. n \<notin> NR ` set cs \<Longrightarrow> sys_call_table s n = t n) \<Longrightarrow>
   sys_call_table (fold (CLEANUP_SYSCALL w) cs s) = t"
proof (induction cs arbitrary: s)
  case Nil
  then show ?case by (simp add: fun_eq_iff)
next
  case (Cons c cs)
  then have "c \<notin> set cs" by simp
  then have "NR d \<noteq> NR c" if "d \<in> set cs" for d using that by (auto simp: NR_inj)
  with Cons.prems show ?case
    by (simp, intro Cons.IH) (auto simp: CLEANUP_SYSCALL_def)
qed

section \<open>\<open>syscall.c\<close>\<close>

record spy =
  spy_table :: "nat \<Rightarrow> ptr"
  original_call :: ptr

text \<open>
  \<open>our\<close> is the address of \<open>our_sys_open\<close> and \<open>table\<close> that of the table; the spy works only
  where the kernel has one, that is where \<open>table\<close> is not \<open>NULL\<close>.
\<close>

definition spy_open :: "ptr \<Rightarrow> spy \<Rightarrow> spy" where
  "spy_open our s =
     (let s = s\<lparr>original_call := spy_table s (NR H_open)\<rparr>
      in s\<lparr>spy_table := (spy_table s)(NR H_open := our)\<rparr>)"

definition syscall_init :: "ptr \<Rightarrow> ptr \<Rightarrow> spy \<Rightarrow> int \<times> spy" where
  "syscall_init table our s = (if table = NULL then (1, s) else (0, spy_open our s))"

definition syscall_cleanup :: "ptr \<Rightarrow> spy \<Rightarrow> spy" where
  "syscall_cleanup our s =
     (if spy_table s (NR H_open) \<noteq> our then s
      else s\<lparr>spy_table := (spy_table s)(NR H_open := original_call s)\<rparr>)"

text \<open>
  \<open>our_sys_open\<close>: the characters it prints, the terminating NUL included, when the caller is the
  one that is spied on, and the result of the original call.
\<close>

fun report_name :: "nat \<Rightarrow> umem \<Rightarrow> u32 \<Rightarrow> string option" where
  "report_name 0 m p = None"
| "report_name (Suc n) m p =
     (let ch = get_user m p in
      if ch \<noteq> CHR 0x00 then map_option (\<lambda>s. ch # s) (report_name n m (p + 1)) else Some [ch])"

definition our_sys_open ::
    "nat \<Rightarrow> int \<Rightarrow> int \<Rightarrow> (u32 \<Rightarrow> int \<Rightarrow> int \<Rightarrow> int) \<Rightarrow> umem \<Rightarrow> u32 \<Rightarrow> int \<Rightarrow> int \<Rightarrow> (string \<times> int) option" where
  "our_sys_open n uid current_uid original m filename flags mode =
     (if uid = current_uid
      then map_option (\<lambda>s. (s, original filename flags mode)) (report_name n m filename)
      else Some ([], original filename flags mode))"

interpretation spying: hook_slot "\<lambda>s. spy_table s (NR H_open)" original_call our
    "spy_open our" "syscall_cleanup our"
  by unfold_locales (simp_all add: spy_open_def syscall_cleanup_def Let_def)

section \<open>\<open>kmap.c\<close>\<close>

text \<open>
  Kernel memory, in words. \<open>alias a\<close> is the word that the window
  \<open>vmap(virt_to_page(a)) + (a & 0xFFF)\<close> reaches; for an address of the linear mapping it is
  \<open>a\<close> itself. \<open>lookup\<close> is the answer of \<open>kallsyms_lookup_name\<close>.
\<close>

record kmap_state =
  kmem :: "u32 \<Rightarrow> u32"
  kmap_table :: u32
  kmap_original :: u32

definition open_slot :: "u32 \<Rightarrow> u32" where
  "open_slot tbl = tbl + 4 * of_nat (NR H_open)"

definition kmap_init :: "(u32 \<Rightarrow> u32) \<Rightarrow> u32 \<Rightarrow> u32 \<Rightarrow> kmap_state \<Rightarrow> int \<times> kmap_state" where
  "kmap_init alias lookup our s =
     (let open_addr = open_slot (kmap_table s);
          s = s\<lparr>kmap_table := lookup\<rparr>
      in if kmap_table s = 0 then (1, s)
         else
           let target = alias open_addr;
               s = s\<lparr>kmap_original := kmem s (open_slot (kmap_table s))\<rparr>
           in (0, s\<lparr>kmem := (kmem s)(target := our)\<rparr>))"

definition kmap_cleanup :: "(u32 \<Rightarrow> u32) \<Rightarrow> u32 \<Rightarrow> kmap_state \<Rightarrow> kmap_state" where
  "kmap_cleanup alias our s =
     (let target = alias (open_slot (kmap_table s))
      in if kmem s target \<noteq> our then s else s\<lparr>kmem := (kmem s)(target := kmap_original s)\<rparr>)"

text \<open>Its \<open>our_sys_open\<close>, which compares with \<open>current->uid\<close>.\<close>

definition kmap_sys_open ::
    "nat \<Rightarrow> int \<Rightarrow> int \<Rightarrow> (u32 \<Rightarrow> int \<Rightarrow> int \<Rightarrow> int) \<Rightarrow> umem \<Rightarrow> u32 \<Rightarrow> int \<Rightarrow> int \<Rightarrow> (string \<times> int) option" where
  "kmap_sys_open n uid current_uid original m filename flags mode =
     (case (if uid = current_uid then report_name n m filename else Some []) of
        None \<Rightarrow> None
      | Some s \<Rightarrow> Some (s, original filename flags mode))"

lemma kmap_sys_open_eq: "kmap_sys_open = our_sys_open"
  by (intro ext) (simp add: kmap_sys_open_def our_sys_open_def split: option.splits)

section \<open>\<open>kill_syscalltable.c\<close>\<close>

abbreviation (input) kst_table :: u32 where "kst_table \<equiv> 0xC042CA00"

definition kst_offset :: u32 where
  "kst_offset = (kst_table - 0xC0000000) AND NOT (4096 - 1)"

text \<open>The address of the entry it reads, when the page of the table is mapped at \<open>vaddr\<close>.\<close>

definition kst_entry :: "u32 \<Rightarrow> u32" where
  "kst_entry vaddr = open_slot (vaddr + kst_offset)"

text \<open>
  \<open>main\<close>: what it prints to its output, and its result, or \<open>None\<close> for a fault. The answers of
  \<open>open\<close> and \<open>mmap\<close> are parameters, and so is the memory it can read.
\<close>

definition fmt_p :: "u32 \<Rightarrow> string" where
  "fmt_p a = (if a = 0 then ''(nil)'' else ''0x'' @ fmt_x (unat a))"

definition kst_main :: "int \<Rightarrow> u32 \<Rightarrow> (u32 \<Rightarrow> u32 option) \<Rightarrow> string list \<times> int option" where
  "kst_main fd vaddr_dm mem =
     (let memsize = 4096 :: u32;
          out = [fmt_x (unat memsize) @ ''\<newline>'', fmt_x (unat kst_table) @ ''\<newline>'', fmt_x (unat kst_offset) @ ''\<newline>'']
      in if fd < 0 then (out, Some 0)
         else if sint vaddr_dm = - 1 then (out, Some 0)
         else
           let bkup = kst_entry vaddr_dm;
               out = out @ [''vaddr_dm '' @ fmt_p vaddr_dm @ ''\<newline>'',
                 ''syscall_offset '' @ fmt_x (unat kst_offset) @ ''\<newline>'', ''open '' @ fmt_p bkup @ ''\<newline>'']
           in case mem bkup of
                None \<Rightarrow> (out, None)
              | Some entry \<Rightarrow> (out @ [''open '' @ fmt_p entry @ ''\<newline>''], Some 0))"

section \<open>Properties\<close>

text \<open>The table with the wrappers in their places.\<close>

definition hooked_table :: "(hooked \<Rightarrow> ptr) \<Rightarrow> (nat \<Rightarrow> ptr) \<Rightarrow> nat \<Rightarrow> ptr" where
  "hooked_table w t n = (case find (\<lambda>c. NR c = n) all_hooks of Some c \<Rightarrow> w c | None \<Rightarrow> t n)"

lemma home_hack_hooks:
  assumes "add_hooks w all_hooks s = (r, s')"
  shows "r = 0" "sys_call_table s' = hooked_table w (sys_call_table s)"
    "sys_call_table (home_hack_cleanup w s') = sys_call_table s"
proof -
  have d: "distinct all_hooks" "set all_hooks = UNIV"
    using hooked.exhaust by (auto simp: all_hooks_def)
  have s': "r = 0" "s' = fold (\<lambda>c s. snd (add_hook_sys w c s)) all_hooks s"
    using assms by (simp_all add: add_hooks_ok)
  note st = add_hooks_state [OF d(1), of w s, folded s'(2)]
  show "r = 0" by (rule s'(1))
  show "sys_call_table s' = hooked_table w (sys_call_table s)"
  proof
    fix n
    show "sys_call_table s' n = hooked_table w (sys_call_table s) n"
    proof (cases "find (\<lambda>c. NR c = n) all_hooks")
      case None
      then have "n \<notin> NR ` set all_hooks" by (auto simp: find_None_iff)
      with None st show ?thesis by (simp add: hooked_table_def)
    next
      case (Some c)
      then have "NR c = n" by (auto simp: find_Some_iff)
      moreover have "sys_call_table s' (NR c) = w c" using st d(2) by blast
      ultimately show ?thesis using Some by (simp add: hooked_table_def)
    qed
  qed
  show "sys_call_table (home_hack_cleanup w s') = sys_call_table s"
    unfolding home_hack_cleanup_def using st d by (intro cleanups_restore) auto
qed

text \<open>
  Property C38. Loading \<open>home_hack\<close> and unloading it again, on a process list that is a ring: loading
  ends. With no or unequal numbers of arguments it fails with -1 and changes nothing. Otherwise it
  succeeds, every process of the ring carries the node its pid was given (or -1) and no other mark is
  touched, the seven wrappers are in their places and every other system call is as before; unloading
  then gives back exactly the table from before, for every table and all wrappers.
\<close>

theorem home_hack_roundtrip:
  assumes "ring next_task init_task k" "k < n"
  shows "\<exists>r P' hp' s'. home_hack_init w pid next_task init_task n P hp s = Some (r, P', hp', s') \<and>
    (if pid_array_count P = 0 \<or> pid_array_count P \<noteq> node_array_count P
     then r = - 1 \<and> P' = P \<and> hp' = hp \<and> s' = s
     else r = 0 \<and>
       hp' = (\<lambda>t. if t \<in> ring_tasks next_task init_task k then node_for P (pid t) else hp t) \<and>
       sys_call_table s' = hooked_table w (sys_call_table s) \<and>
       sys_call_table (home_hack_cleanup w s') = sys_call_table s)"
proof (cases "pid_array_count P = 0 \<or> pid_array_count P \<noteq> node_array_count P")
  case True
  then show ?thesis by (auto simp: home_hack_init_def check_args_def)
next
  case False
  then obtain P' where P': "check_args P = (0, P')" by (simp add: check_args_def)
  obtain r s' where h: "add_hooks w all_hooks s = (r, s')" by fastforce
  show ?thesis
    unfolding home_hack_init_def P' mark_process_ring [OF assms] h
    using False home_hack_hooks [OF h] by (simp add: check_args_node_for [OF P'] cong: if_cong)
qed

theorem home_hack_roundtrip_witness:
  "ring (\<lambda>t. 1 - t) 0 1 \<and>
   (\<exists>P' hp' s'. home_hack_init (\<lambda>_. 77) (\<lambda>t. if t = 1 then 4232 else 5) (\<lambda>t. 1 - t) 0 2 ex_params (\<lambda>_. 9)
        \<lparr>sys_call_table = \<lambda>n. n, original_sys = \<lambda>_. 0\<rparr> = Some (0, P', hp', s') \<and>
      sys_call_table s' 5 = 77 \<and> sys_call_table s' 6 = 6 \<and>
      sys_call_table (home_hack_cleanup (\<lambda>_. 77) s') = (\<lambda>n. n))"
proof -
  have "pid_array_count ex_params = 2" "node_array_count ex_params = 2" by (simp_all add: ex_params_def)
  moreover have "hooked_table (\<lambda>_. 77) (\<lambda>n. n) 5 = 77" "hooked_table (\<lambda>_. 77) (\<lambda>n. n) 6 = 6"
    by (simp_all add: hooked_table_def all_hooks_def)
  ultimately show ?thesis
    using home_hack_roundtrip [OF ex_ring(1), of 2 "\<lambda>_. 77" "\<lambda>t. if t = 1 then 4232 else 5" ex_params "\<lambda>_. 9"
        "\<lparr>sys_call_table = \<lambda>n. n, original_sys = \<lambda>_. 0\<rparr>"] ex_ring(1) by auto
qed



text \<open>
  \<open>kill_syscalltable\<close> adds the offset of the page within the device to the address where that page
  is mapped: the entry it reads lies more than four megabytes behind the mapping of 4096 bytes. With
  nothing else mapped there the program faults whenever it gets the mapping.
\<close>

lemma kst_entry_offset: "kst_entry vaddr - vaddr = 0x42C014"
  by (simp add: kst_entry_def open_slot_def kst_offset_def)

lemma kst_entry_outside: "\<not> kst_entry vaddr - vaddr < 4096"
  by (simp add: kst_entry_offset)

lemma kst_main_faults:
  assumes "0 \<le> fd" "sint vaddr \<noteq> - 1" "\<And>a. mem a \<noteq> None \<Longrightarrow> a - vaddr < 4096"
  shows "snd (kst_main fd vaddr mem) = None"
proof -
  have "mem (kst_entry vaddr) = None" using assms(3) [of "kst_entry vaddr"] kst_entry_outside [of vaddr] by blast
  then show ?thesis using assms(1,2) by (simp add: kst_main_def Let_def)
qed

text \<open>The report of \<open>our_sys_open\<close> ends at the NUL of the name, if the name has one.\<close>

lemma report_name_spec:
  assumes "get_user m (p + of_nat k) = CHR 0x00" "\<And>i. i < k \<Longrightarrow> get_user m (p + of_nat i) \<noteq> CHR 0x00" "k < n"
  shows "report_name n m p = Some (get_bytes m p (Suc k))"
  using assms
proof (induction n arbitrary: p k)
  case (Suc n)
  show ?case
  proof (cases k)
    case 0
    then show ?thesis using Suc.prems by (simp add: get_bytes_def)
  next
    case (Suc j)
    have "report_name n m (p + 1) = Some (get_bytes m (p + 1) (Suc j))"
      using Suc.prems Suc by (intro Suc.IH) (force simp: add.assoc)+
    moreover have "get_bytes m p (Suc (Suc j)) = get_user m p # get_bytes m (p + 1) (Suc j)"
      unfolding get_bytes_def by (subst upt_conv_Cons) (simp_all add: map_Suc_upt [symmetric] add.assoc del: upt_Suc)
    ultimately show ?thesis using Suc.prems(2) [of 0] Suc by simp
  qed
qed simp

end
