(* ===== verification/Proc_Hack.thy ===== *)
theory Proc_Hack
  imports Pid_Readdir Syscall_Hooks
begin

text \<open>
  \<open>proc_hack/proc_hack.c\<close>: the module that marks processes with nodes and installs a hook in the table
  that \<open>base.c\<close> exports, so that the listing of \<open>/proc\<close> would leave out the processes of other nodes.
  The table is the \<open>honeypot_hooks\<close> of the kernel's store; the module keeps the function that was there
  before. Its \<open>is_target_proc\<close> and \<open>mark_process\<close> are those of \<open>home_hack.c\<close>, written a second
  time.
\<close>

section \<open>The module\<close>

definition proc_hack_is_target_proc :: "node_params \<Rightarrow> int \<Rightarrow> int" where
  "proc_hack_is_target_proc P candidate_pid = find_target (pid_array P) candidate_pid (pid_array_count P) 0"

definition proc_hack_mark_task :: "node_params \<Rightarrow> (ptr \<Rightarrow> int) \<Rightarrow> ptr \<Rightarrow> marks \<Rightarrow> marks" where
  "proc_hack_mark_task P pid task hp_node =
     (let node_index = proc_hack_is_target_proc P (pid task) in
      if 0 \<le> node_index then hp_node(task := node_array P ! nat node_index) else hp_node(task := - 1))"

fun proc_hack_mark_loop ::
    "node_params \<Rightarrow> (ptr \<Rightarrow> int) \<Rightarrow> (ptr \<Rightarrow> ptr) \<Rightarrow> ptr \<Rightarrow> nat \<Rightarrow> ptr \<Rightarrow> marks \<Rightarrow> marks option" where
  "proc_hack_mark_loop P pid next_task init_task 0 task hp_node = None"
| "proc_hack_mark_loop P pid next_task init_task (Suc n) task hp_node =
     (let hp_node = proc_hack_mark_task P pid task hp_node; task = next_task task in
      if task \<noteq> init_task then proc_hack_mark_loop P pid next_task init_task n task hp_node else Some hp_node)"

definition proc_hack_mark_process ::
    "node_params \<Rightarrow> (ptr \<Rightarrow> int) \<Rightarrow> (ptr \<Rightarrow> ptr) \<Rightarrow> ptr \<Rightarrow> nat \<Rightarrow> marks \<Rightarrow> marks option" where
  "proc_hack_mark_process P pid next_task init_task n hp_node =
     proc_hack_mark_loop P pid next_task init_task n init_task hp_node"

record proc_hack =
  ph_hooks :: honeypot_hooks_s
  original_in_proc_pid_readdir :: hook_fn

text \<open>\<open>func\<close> is the function \<open>func_proc_pid_readdir\<close> as a value of the hook.\<close>

definition set_readdir_hook :: "hook_fn \<Rightarrow> proc_hack \<Rightarrow> proc_hack" where
  "set_readdir_hook func s =
     (let s = s\<lparr>original_in_proc_pid_readdir := in_proc_pid_readdir (ph_hooks s)\<rparr>
      in s\<lparr>ph_hooks := (ph_hooks s)\<lparr>in_proc_pid_readdir := func\<rparr>\<rparr>)"

text \<open>\<open>init_module\<close>: unlike \<open>home_hack.c\<close>, it marks the processes without checking the arguments.\<close>

definition proc_hack_init ::
    "hook_fn \<Rightarrow> (ptr \<Rightarrow> int) \<Rightarrow> (ptr \<Rightarrow> ptr) \<Rightarrow> ptr \<Rightarrow> nat \<Rightarrow> node_params \<Rightarrow> marks \<Rightarrow> proc_hack \<Rightarrow>
     (int \<times> marks \<times> proc_hack) option" where
  "proc_hack_init func pid next_task init_task n P hp s =
     (case proc_hack_mark_process P pid next_task init_task n hp of
        None \<Rightarrow> None
      | Some hp \<Rightarrow> Some (0, hp, set_readdir_hook func s))"

definition proc_hack_cleanup :: "hook_fn \<Rightarrow> proc_hack \<Rightarrow> proc_hack" where
  "proc_hack_cleanup func s =
     (if in_proc_pid_readdir (ph_hooks s) = func
      then s\<lparr>ph_hooks := (ph_hooks s)\<lparr>in_proc_pid_readdir := original_in_proc_pid_readdir s\<rparr>\<rparr>
      else s)"

interpretation readdir_hook: hook_slot "\<lambda>s. in_proc_pid_readdir (ph_hooks s)" original_in_proc_pid_readdir func
    "set_readdir_hook func" "proc_hack_cleanup func" for func
  by unfold_locales (simp_all add: set_readdir_hook_def proc_hack_cleanup_def Let_def)

section \<open>What it does\<close>

lemma proc_hack_mark_task_eq: "proc_hack_mark_task = mark_task"
  by (intro ext) (simp add: proc_hack_mark_task_def mark_task_def proc_hack_is_target_proc_def is_target_proc_def)

lemma proc_hack_mark_loop_eq:
  "proc_hack_mark_loop P pid next_task init_task n task hp = mark_loop P pid next_task init_task n task hp"
  by (induction n arbitrary: task hp) (simp_all add: proc_hack_mark_task_eq Let_def)

lemma proc_hack_init_ring:
  assumes "ring next_task init_task k" "k < n"
  shows "proc_hack_init func pid next_task init_task n P hp s =
    Some (0, \<lambda>t. if t \<in> ring_tasks next_task init_task k then node_for P (pid t) else hp t, set_readdir_hook func s)"
  using mark_process_ring [OF assms, of P pid hp]
  by (simp add: proc_hack_init_def proc_hack_mark_process_def proc_hack_mark_loop_eq mark_process_def cong: if_cong)

text \<open>
  Loading ends, marks the processes of the ring and puts the function into the table; unloading then gives
  back the table from before.
\<close>

theorem proc_hack_roundtrip:
  assumes "ring next_task init_task k" "k < n"
  shows "\<exists>hp' s'. proc_hack_init func pid next_task init_task n P hp s = Some (0, hp', s') \<and>
    hp' = (\<lambda>t. if t \<in> ring_tasks next_task init_task k then node_for P (pid t) else hp t) \<and>
    ph_hooks s' = (ph_hooks s)\<lparr>in_proc_pid_readdir := func\<rparr> \<and> ph_hooks (proc_hack_cleanup func s') = ph_hooks s"
  by (simp add: proc_hack_init_ring [OF assms] set_readdir_hook_def proc_hack_cleanup_def Let_def)

text \<open>
  With the module loaded, a reader of \<open>/proc\<close> still gets every process, also one that the function of
  the module asks to hide from it: the listing ignores the answer of the hook.
\<close>

theorem proc_hack_hides_nothing:
  assumes "proc_hack_init func pid next_task init_task f P hp s = Some (r, hp', s')"
    and "honeypot_hooks \<sigma> = ph_hooks s'"
    and "d_add_law K" "find_ge_law K pm" "dcache_ok K \<sigma>" "f_pos (filps \<sigma> filp) = 256" "unat pm < n"
      "pinned K (f_dentry (filps \<sigma> filp))" "leaders_stay K L" "\<not> task_gone K (dir_of \<sigma> filp)"
    and "i \<in> L" "0 \<le> i" "i < uint pm" "func_proc_pid_readdir hp' cur (task i) = 1"
  shows "in_proc_pid_readdir (honeypot_hooks \<sigma>) = func \<and>
    owns {#} \<sigma> (read_times (proc_pid_readdir K c pm n) filp k)
      (\<lambda>rs d \<sigma>'. d = {#} \<and> (\<exists>new. dirents \<sigma>' = dirents \<sigma> @ new \<and>
         (i + 257 < f_pos (filps \<sigma>' filp) \<longrightarrow> once (fmt_d i) new)))"
proof
  have "s' = set_readdir_hook func s" using assms(1) by (auto simp: proc_hack_init_def split: option.splits)
  then show "in_proc_pid_readdir (honeypot_hooks \<sigma>) = func" using assms(2) by (simp add: readdir_hook.install_slot)
  show "owns {#} \<sigma> (read_times (proc_pid_readdir K c pm n) filp k)
      (\<lambda>rs d \<sigma>'. d = {#} \<and> (\<exists>new. dirents \<sigma>' = dirents \<sigma> @ new \<and>
         (i + 257 < f_pos (filps \<sigma>' filp) \<longrightarrow> once (fmt_d i) new)))"
    using assms(3-) by (intro pid_read_times_spec [where L = L]) (auto simp: pids_delivered_def)
qed

end
