(* ===== verification/Small_Modules.thy ===== *)
theory Small_Modules
  imports Proc_Prelude
begin

text \<open>
  Two small modules. \<open>list/list.c\<close> keeps ten thousand objects on a kernel list; the list operations
  are those of \<open>linux/list.h\<close>, of which only the sequence of objects on the list matters here.
  \<open>secfs/secfs.c\<close> keeps a directory of securityfs. A dereferenced \<open>NULL\<close> is the error value
  \<open>None\<close>.
\<close>

section \<open>\<open>list.c\<close>\<close>

record my_object =
  sec :: int
  tty_name :: string

text \<open>The list, from its head on, the objects on the heap, and what \<open>kfree\<close> was called on.\<close>

record list_module =
  my_object_list :: "ptr list"
  heap :: "ptr \<Rightarrow> my_object option"
  freed :: "ptr list"
  printed :: "(string \<times> int) list"

definition list_add_tail :: "ptr \<Rightarrow> list_module \<Rightarrow> list_module" where
  "list_add_tail p s = s\<lparr>my_object_list := my_object_list s @ [p]\<rparr>"

definition list_del :: "ptr \<Rightarrow> list_module \<Rightarrow> list_module" where
  "list_del p s = s\<lparr>my_object_list := remove1 p (my_object_list s)\<rparr>"

definition list_kfree :: "ptr \<Rightarrow> list_module \<Rightarrow> list_module" where
  "list_kfree p s = s\<lparr>heap := (heap s)(p := None), freed := freed s @ [p]\<rparr>"

text \<open>One round of the loop: \<open>alloc i\<close> is the answer of \<open>kmalloc\<close>, which is not checked.\<close>

definition append_object :: "(nat \<Rightarrow> ptr) \<Rightarrow> nat \<Rightarrow> list_module \<Rightarrow> list_module option" where
  "append_object alloc i s =
     (let myobj = alloc i in
      if myobj = NULL then None
      else Some (list_add_tail myobj
        (s\<lparr>heap := (heap s)(myobj \<mapsto> \<lparr>sec = int i, tty_name = ''tty''\<rparr>)\<rparr>)))"

text \<open>The loop from \<open>i\<close> on; \<open>n\<close> rounds are left.\<close>

fun append_objects :: "(nat \<Rightarrow> ptr) \<Rightarrow> nat \<Rightarrow> nat \<Rightarrow> list_module \<Rightarrow> list_module option" where
  "append_objects alloc 0 i s = Some s"
| "append_objects alloc (Suc n) i s =
     (case append_object alloc i s of None \<Rightarrow> None | Some s' \<Rightarrow> append_objects alloc n (Suc i) s')"

text \<open>\<open>list_for_each\<close>\<close>

fun print_objects :: "ptr list \<Rightarrow> list_module \<Rightarrow> list_module option" where
  "print_objects [] s = Some s"
| "print_objects (p # ps) s =
     (case heap s p of None \<Rightarrow> None
      | Some obj \<Rightarrow> print_objects ps (s\<lparr>printed := printed s @ [(tty_name obj, sec obj)]\<rparr>))"

definition list_init :: "(nat \<Rightarrow> ptr) \<Rightarrow> list_module \<Rightarrow> (int \<times> list_module) option" where
  "list_init alloc s =
     (case append_objects alloc 10000 0 s of None \<Rightarrow> None
      | Some s \<Rightarrow>
          (case print_objects (my_object_list s) s of None \<Rightarrow> None | Some s \<Rightarrow> Some (0, s)))"

text \<open>\<open>while (!list_empty(...))\<close>\<close>

function list_cleanup :: "list_module \<Rightarrow> list_module" where
  "list_cleanup s =
     (case my_object_list s of [] \<Rightarrow> s
      | myobj # _ \<Rightarrow> list_cleanup (list_kfree myobj (list_del myobj s)))"
  by auto
termination
  by (relation "measure (\<lambda>s. length (my_object_list s))") (auto simp: list_kfree_def list_del_def)

declare list_cleanup.simps [simp del]

lemma append_objects_spec:
  assumes "\<And>j. i \<le> j \<Longrightarrow> j < i + n \<Longrightarrow> alloc j \<noteq> NULL" "inj_on alloc {i..<i + n}"
  shows "\<exists>h. append_objects alloc n i s =
      Some (s\<lparr>my_object_list := my_object_list s @ map alloc [i..<i + n], heap := h\<rparr>) \<and>
    (\<forall>j. i \<le> j \<and> j < i + n \<longrightarrow> h (alloc j) = Some \<lparr>sec = int j, tty_name = ''tty''\<rparr>) \<and>
    (\<forall>p. p \<notin> alloc ` {i..<i + n} \<longrightarrow> h p = heap s p)"
  using assms
proof (induction n arbitrary: i s)
  case 0
  show ?case by (rule exI [of _ "heap s"]) auto
next
  case (Suc n)
  define s1 where "s1 = list_add_tail (alloc i)
    (s\<lparr>heap := (heap s)(alloc i \<mapsto> \<lparr>sec = int i, tty_name = ''tty''\<rparr>)\<rparr>)"
  have a: "append_object alloc i s = Some s1"
    using Suc.prems(1) [of i] by (simp add: append_object_def s1_def Let_def)
  have "inj_on alloc {Suc i..<Suc i + n}"
    using Suc.prems(2) by (rule inj_on_subset) auto
  with Suc.IH [of "Suc i" s1] Suc.prems(1) obtain h where
    h: "append_objects alloc n (Suc i) s1 =
        Some (s1\<lparr>my_object_list := my_object_list s1 @ map alloc [Suc i..<Suc i + n], heap := h\<rparr>)"
      "\<forall>j. Suc i \<le> j \<and> j < Suc i + n \<longrightarrow> h (alloc j) = Some \<lparr>sec = int j, tty_name = ''tty''\<rparr>"
      "\<forall>p. p \<notin> alloc ` {Suc i..<Suc i + n} \<longrightarrow> h p = heap s1 p"
    by auto
  have "alloc i \<notin> alloc ` {Suc i..<Suc i + n}"
    using Suc.prems(2) by (auto dest: inj_onD)
  then have "h (alloc i) = Some \<lparr>sec = int i, tty_name = ''tty''\<rparr>"
    using h(3) by (simp add: s1_def list_add_tail_def)
  then have "\<forall>j. i \<le> j \<and> j < i + Suc n \<longrightarrow> h (alloc j) = Some \<lparr>sec = int j, tty_name = ''tty''\<rparr>"
    using h(2) by (metis Suc_leI add_Suc add_Suc_right le_neq_implies_less)
  moreover have "\<forall>p. p \<notin> alloc ` {i..<i + Suc n} \<longrightarrow> h p = heap s p"
  proof (intro allI impI)
    fix p
    assume p: "p \<notin> alloc ` {i..<i + Suc n}"
    then have "p \<noteq> alloc i" "p \<notin> alloc ` {Suc i..<Suc i + n}" by auto
    then show "h p = heap s p" using h(3) by (simp add: s1_def list_add_tail_def)
  qed
  moreover have "my_object_list s1 @ map alloc [Suc i..<Suc i + n] = my_object_list s @ map alloc [i..<i + Suc n]"
    using upt_conv_Cons [of i "i + Suc n"] by (simp add: s1_def list_add_tail_def del: upt_Suc)
  ultimately show ?case
    using a h(1) by (intro exI [of _ h]) (simp add: s1_def list_add_tail_def del: upt_Suc)
qed

lemma print_objects_spec:
  assumes "\<And>p. p \<in> set ps \<Longrightarrow> heap s p = Some (obj p)"
  shows "print_objects ps s = Some (s\<lparr>printed := printed s @ map (\<lambda>p. (tty_name (obj p), sec (obj p))) ps\<rparr>)"
  using assms by (induction ps arbitrary: s) simp_all

lemma list_cleanup_spec:
  "list_cleanup s = s\<lparr>my_object_list := [], freed := freed s @ my_object_list s,
     heap := (\<lambda>p. if p \<in> set (my_object_list s) then None else heap s p)\<rparr>"
proof (induction s rule: list_cleanup.induct)
  case (1 s)
  show ?case
  proof (cases "my_object_list s")
    case Nil
    then show ?thesis by (subst list_cleanup.simps) (cases s, simp)
  next
    case (Cons p ps)
    then show ?thesis
      using 1 [OF Cons]
      by (subst list_cleanup.simps) (auto simp: list_kfree_def list_del_def fun_eq_iff)
  qed
qed

lemma append_print:
  assumes "\<And>j. j < n \<Longrightarrow> alloc j \<noteq> NULL" "inj_on alloc {..<n}" "my_object_list s = []"
  shows "\<exists>h s1. append_objects alloc n 0 s = Some s1 \<and> my_object_list s1 = map alloc [0..<n] \<and>
    print_objects (my_object_list s1) s1 =
      Some (s\<lparr>my_object_list := map alloc [0..<n], heap := h,
        printed := printed s @ map (\<lambda>i. (''tty'', int i)) [0..<n]\<rparr>)"
proof -
  have i: "inj_on alloc {0..<0 + n}" using assms(2) by (simp add: lessThan_atLeast0)
  obtain h where h: "append_objects alloc n 0 s = Some (s\<lparr>my_object_list := map alloc [0..<n], heap := h\<rparr>)"
      "\<And>j. j < n \<Longrightarrow> h (alloc j) = Some \<lparr>sec = int j, tty_name = ''tty''\<rparr>"
    using append_objects_spec [OF _ i, of s] assms(1,3) by auto
  define s1 where "s1 = s\<lparr>my_object_list := map alloc [0..<n], heap := h\<rparr>"
  have "print_objects (map alloc [0..<n]) s1 =
      Some (s1\<lparr>printed := printed s1 @ map (\<lambda>p. (tty_name (the (h p)), sec (the (h p)))) (map alloc [0..<n])\<rparr>)"
    using h(2) by (intro print_objects_spec) (auto simp: s1_def)
  moreover have "map (\<lambda>p. (tty_name (the (h p)), sec (the (h p)))) (map alloc [0..<n]) = map (\<lambda>i. (''tty'', int i)) [0..<n]"
    using h(2) by simp
  ultimately show ?thesis
    using h(1) by (intro exI [of _ h] exI [of _ s1]) (simp add: s1_def)
qed

text \<open>
  Property C40. \<open>list.c\<close>, for an allocator that never fails and never gives out the same object
  twice: loading succeeds, puts the ten thousand objects on the list in the order of their numbers and
  prints them in that order; unloading ends, leaves the list empty, and frees every object exactly once,
  in the same order.
\<close>

theorem list_module_correct:
  assumes "\<And>j. j < 10000 \<Longrightarrow> alloc j \<noteq> NULL" "inj_on alloc {..<10000}"
    "my_object_list s = []" "printed s = []" "freed s = []"
  shows "\<exists>s'. list_init alloc s = Some (0, s') \<and>
    my_object_list s' = map alloc [0..<10000] \<and>
    printed s' = map (\<lambda>i. (''tty'', int i)) [0..<10000] \<and>
    my_object_list (list_cleanup s') = [] \<and>
    freed (list_cleanup s') = map alloc [0..<10000] \<and> distinct (freed (list_cleanup s'))"
proof -
  obtain h s1 where h: "append_objects alloc 10000 0 s = Some s1" 
      "print_objects (my_object_list s1) s1 =
        Some (s\<lparr>my_object_list := map alloc [0..<10000], heap := h,
          printed := printed s @ map (\<lambda>i. (''tty'', int i)) [0..<10000]\<rparr>)"
    using append_print [of 10000 alloc s] assms(1-3) by blast
  have "distinct (map alloc [0..<10000])"
    using assms(2) by (simp only: distinct_map distinct_upt set_upt lessThan_atLeast0)
  with h show ?thesis
    using assms(4,5) by (simp add: list_init_def list_cleanup_spec del: upt_rec_numeral)
qed

definition ex_list :: list_module where
  "ex_list = \<lparr>my_object_list = [], heap = Map.empty, freed = [], printed = []\<rparr>"

theorem list_module_correct_witness:
  "\<exists>s'. list_init Suc ex_list = Some (0, s') \<and>
    my_object_list s' = map Suc [0..<10000] \<and>
    printed s' = map (\<lambda>i. (''tty'', int i)) [0..<10000] \<and>
    my_object_list (list_cleanup s') = [] \<and>
    freed (list_cleanup s') = map Suc [0..<10000] \<and> distinct (freed (list_cleanup s'))"
  by (rule list_module_correct) (simp_all add: ex_list_def)

text \<open>Without the assumption on the allocator the module dereferences a null pointer.\<close>

lemma append_object_unchecked: "alloc i = NULL \<Longrightarrow> append_object alloc i s = None"
  by (simp add: append_object_def)

section \<open>\<open>secfs.c\<close>\<close>

text \<open>
  The pointer \<open>hp_dir_entry\<close> as a signed value: \<open>securityfs_create_dir\<close> answers with an
  entry, with 0, or with a negative error code as a pointer. The second component of the results is the
  argument of \<open>securityfs_remove\<close>, if it is called.
\<close>

definition secfs_init :: "int \<Rightarrow> int \<times> int" where
  "secfs_init answer =
     (let hp_dir_entry = answer in
      if hp_dir_entry = - ENODEV then (0, 0) else (0, hp_dir_entry))"

definition secfs_cleanup :: "int \<Rightarrow> int option" where
  "secfs_cleanup hp_dir_entry = (if hp_dir_entry \<noteq> 0 then Some hp_dir_entry else None)"

text \<open>
  A directory that was created is removed, and nothing when securityfs is missing; but any other error
  code, such as \<open>-EEXIST\<close> (-17), is kept as the entry and handed to \<open>securityfs_remove\<close>.
\<close>

lemma secfs_cleanup_init:
  "0 < p \<Longrightarrow> secfs_cleanup (snd (secfs_init p)) = Some p"
  "secfs_cleanup (snd (secfs_init (- ENODEV))) = None"
  "e < 0 \<Longrightarrow> e \<noteq> - ENODEV \<Longrightarrow> secfs_cleanup (snd (secfs_init e)) = Some e"
  by (simp_all add: secfs_init_def secfs_cleanup_def)

end
