(* ===== verification/Small_Programs.thy ===== *)
theory Small_Programs
  imports Proc_Prelude
begin

text \<open>
  The demonstration modules that only print (\<open>hello-1\<close>, \<open>hello-5\<close>, \<open>multifile\<close>,
  \<open>security_ops_hack\<close>) and the two user programs that ask the kernel for network interfaces
  (\<open>siocgifconf.c\<close>, \<open>miniifconf.c\<close>). An initialisation gives its result and the lines that it
  prints, without the level; an \<open>ioctl\<close> is a parameter.
\<close>

section \<open>Modules that print\<close>

definition hello_1_init :: "int \<times> string list" where
  "hello_1_init = (0, [''Hello world!\<newline>''])"

definition hello_1_cleanup :: "string list" where
  "hello_1_cleanup = [''Goodbye world.\<newline>'']"

definition print_hello :: "string list" where
  "print_hello = [''Hello World!!!!!!!\<newline>'']"

definition multifile_init :: "int \<times> string list" where
  "multifile_init = (0, print_hello)"

definition multifile_cleanup :: "string list" where
  "multifile_cleanup = [''Goodbye world.\<newline>'']"

text \<open>\<open>security_ops_hack.c\<close> reads \<open>security_ops\<close> into a variable that it does not use.\<close>

definition security_ops_init :: "ptr \<Rightarrow> int" where
  "security_ops_init security_ops = (let sec_ops = security_ops in 0)"

definition security_ops_cleanup :: "string list" where
  "security_ops_cleanup = [''ended process module\<newline>'']"

section \<open>\<open>hello-5.c\<close>\<close>

record hello_5 =
  myshort :: int
  myint :: int
  mylong :: int
  mystring :: string
  myintArray :: "int list"
  arr_argc :: int

text \<open>The values without module parameters.\<close>

definition hello_5_default :: hello_5 where
  "hello_5_default = \<lparr>myshort = 1, myint = 420, mylong = 9999, mystring = ''blah'',
     myintArray = [- 1, - 1], arr_argc = 0\<rparr>"

text \<open>The loop from \<open>i\<close> on; \<open>n\<close> elements are left.\<close>

fun print_array :: "int list \<Rightarrow> nat \<Rightarrow> nat \<Rightarrow> string list" where
  "print_array xs 0 i = []"
| "print_array xs (Suc n) i =
     (''myintArray['' @ fmt_d (int i) @ ''] = '' @ fmt_d (xs ! i) @ ''\<newline>'') # print_array xs n (Suc i)"

definition hello_5_init :: "hello_5 \<Rightarrow> int \<times> string list" where
  "hello_5_init s =
     (0, [''Hello, World 5\<newline>==============\<newline>'',
          ''myshort is a short integer:: '' @ fmt_d (myshort s) @ ''\<newline>'',
          ''myint is a integer: '' @ fmt_d (myint s) @ ''\<newline>'',
          ''mylong is a long integer: '' @ fmt_d (mylong s) @ ''\<newline>'',
          ''mystring is a string: '' @ mystring s @ ''\<newline>''] @
         print_array (myintArray s) 2 0 @
         [''got '' @ fmt_d (arr_argc s) @ '' arguments for myintArray.\<newline>''])"

definition hello_5_exit :: "hello_5 \<Rightarrow> string list" where
  "hello_5_exit s = [''Goodbye, world 5 myint '' @ fmt_d (myint s) @ ''\<newline>'']"

text \<open>The loop stays within the array and prints every element once, in order.\<close>

lemma print_array_spec:
  "i + n \<le> length xs \<Longrightarrow>
   print_array xs n i = map (\<lambda>j. ''myintArray['' @ fmt_d (int j) @ ''] = '' @ fmt_d (xs ! j) @ ''\<newline>'') [i..<i + n]"
  by (induction n arbitrary: i) (simp_all add: upt_conv_Cons del: upt_Suc)

section \<open>\<open>siocgifconf.c\<close>\<close>

text \<open>\<open>struct ifreq\<close>: the name, and the fourteen bytes of \<open>ifr_addr.sa_data\<close>; it has 32 bytes.\<close>

record ifreq =
  ifr_name :: string
  sa_data :: "char list"

abbreviation (input) SIZEOF_IFREQ :: nat where "SIZEOF_IFREQ \<equiv> 32"

text \<open>\<open>%02x\<close> of a byte\<close>

definition hex_byte :: "char \<Rightarrow> string" where
  "hex_byte ch = fmt_zpad 2 (fmt_x (of_char ch))"

definition print_ifr :: "ifreq \<Rightarrow> string" where
  "print_ifr r = ifr_name r @ ''\<newline>'' @ concat (map (\<lambda>j. hex_byte (sa_data r ! j)) [0..<14]) @ ''\<newline>''"

text \<open>The loop from \<open>i\<close> on; an access behind the array is the error value \<open>None\<close>.\<close>

fun print_ifs :: "ifreq list \<Rightarrow> nat \<Rightarrow> nat \<Rightarrow> string option" where
  "print_ifs ifr 0 i = Some []"
| "print_ifs ifr (Suc n) i =
     (if i < length ifr then map_option (\<lambda>s. print_ifr (ifr ! i) @ s) (print_ifs ifr n (Suc i)) else None)"

text \<open>
  \<open>ioctl\<close> gets the length and the array, of ten elements, and answers its result, the length and the
  array; the division is unsigned.
\<close>

definition siocgifconf_main :: "(int \<Rightarrow> ifreq list \<Rightarrow> int \<times> int \<times> ifreq list) \<Rightarrow> ifreq list \<Rightarrow> (int \<times> string) option" where
  "siocgifconf_main ioctl ifr =
     (case ioctl (int (10 * SIZEOF_IFREQ)) ifr of (_, ifc_len, ifr) \<Rightarrow>
        let nifs = unat ((word_of_int ifc_len :: u32) div of_nat SIZEOF_IFREQ)
        in map_option (\<lambda>s. (0, s)) (print_ifs ifr nifs 0))"

lemma print_ifs_spec:
  "i + n \<le> length ifr \<Longrightarrow> print_ifs ifr n i = Some (concat (map print_ifr (take n (drop i ifr))))"
proof (induction n arbitrary: i)
  case (Suc n)
  then have "drop i ifr = ifr ! i # drop (Suc i) ifr" by (simp add: Cons_nth_drop_Suc)
  with Suc show ?case by simp
qed simp

lemma siocgifconf_prints:
  assumes "ioctl 320 ifr = (r, int len, ifr')" "len \<le> 320" "length ifr' = 10"
  shows "siocgifconf_main ioctl ifr = Some (0, concat (map print_ifr (take (len div 32) ifr')))"
proof -
  have "unat ((word_of_int (int len) :: u32) div 32) = len div 32"
    using assms(2) by (simp add: unat_div unat_of_nat)
  moreover have "len div 32 \<le> 10" using assms(2) by simp
  ultimately show ?thesis
    using assms(1,3) by (simp add: siocgifconf_main_def print_ifs_spec Let_def)
qed

text \<open>
  The result of \<open>ioctl\<close> is not looked at: when it fails and leaves everything as it was, ten
  interfaces are printed from the array that nobody has written to.
\<close>

lemma siocgifconf_unchecked:
  assumes "ioctl 320 ifr = (- 1, 320, ifr)" "length ifr = 10"
  shows "siocgifconf_main ioctl ifr = Some (0, concat (map print_ifr ifr))"
  using siocgifconf_prints [of ioctl ifr "- 1" 320 ifr] assms by simp

lemma length_hex_byte: "length (hex_byte ch) = 2"
proof -
  have "(of_char ch :: nat) \<in> {0..<256}" using range_nat_of_char by blast
  then have "length (fmt_x (of_char ch)) \<le> 2" by (intro length_radix_str) simp_all
  then show ?thesis by (simp add: hex_byte_def fmt_zpad_def)
qed

section \<open>\<open>miniifconf.c\<close>\<close>

text \<open>\<open>strncpy(dest, src, n)\<close> pads with NULs up to \<open>n\<close> bytes and leaves the rest of \<open>dest\<close>.\<close>

definition strncpy :: "string \<Rightarrow> string \<Rightarrow> nat \<Rightarrow> string" where
  "strncpy dest src n = take n (src @ replicate n (CHR 0x00)) @ drop n dest"

definition inet_ntoa :: "char list \<Rightarrow> string" where
  "inet_ntoa a = fmt_u (of_char (a ! 0)) @ ''.'' @ fmt_u (of_char (a ! 1)) @ ''.'' @
     fmt_u (of_char (a ! 2)) @ ''.'' @ fmt_u (of_char (a ! 3))"

text \<open>
  \<open>ioctl\<close> gets the name and the bytes of \<open>ifr_addr\<close> behind the family, and answers its result and
  these bytes; the address is the four bytes behind the port.
\<close>

definition miniifconf_main :: "(string \<Rightarrow> char list \<Rightarrow> int \<times> char list) \<Rightarrow> string \<Rightarrow> char list \<Rightarrow> int \<times> string" where
  "miniifconf_main ioctl name data =
     (let name = strncpy name ''eth2'' (16 - 1)
      in case ioctl name data of (_, data) \<Rightarrow> (0, inet_ntoa (take 4 (drop 2 data)) @ ''\<newline>''))"

text \<open>The kernel sees the name \<open>eth2\<close>, whatever was in the buffer, and only its last byte is not set.\<close>

lemma miniifconf_name:
  assumes "length name = 16"
  shows "takeWhile (\<lambda>ch. ch \<noteq> CHR 0x00) (strncpy name ''eth2'' (16 - 1)) = ''eth2''"
    "length (strncpy name ''eth2'' (16 - 1)) = 16"
  using assms by (simp_all add: strncpy_def numeral_eq_Suc)

end
