(* ===== verification/Spec2Isabelle.thy ===== *)
theory Spec2Isabelle
  imports Vfs_Steps Exe_File Proc_Header Chardev Proc_Hack Small_Modules Small_Programs
begin

text \<open>
  \<^bold>\<open>A verification of the process part of procfs and of the modules around it\<close>

  \<^bold>\<open>The program.\<close> The repository is a study of the Linux 2.6 kernel on i386: the file
  \<open>src/fs/proc/base.c\<close> (the part of \<open>/proc\<close> that shows processes, with a hook added to its
  directory listing), its header \<open>src/include/linux/proc_fs.h\<close>, and loadable modules that mark
  processes, redirect paths, replace system calls, or demonstrate kernel interfaces. The VFS calls
  \<open>base.c\<close> through tables of operations; \<open>base.c\<close> calls the process table, the dcache, memory
  management and the security modules, none of which are among the sources. The modules share the field
  \<open>hp_node\<close> of a task and the table of hooks with each other and with \<open>base.c\<close>.

  \<^bold>\<open>How it is modelled.\<close>
  \<^item> \<open>Proc_Prelude\<close>: machine integers, error numbers, formatted output, lemmas on digit strings.
  \<^item> \<open>Kernel_Env\<close>, \<open>Kernel_Calls\<close>: the objects \<open>base.c\<close> reads and writes are records
    in a \<open>store\<close>. Code outside the sources is the parameter \<open>kenv\<close>: an answer to every
    query, which may depend on the whole history, so that every interleaving with the rest of the kernel is
    an instance. Computations are in the state monad and log the references and locks they take and drop;
    \<open>owns\<close> is a total-correctness calculus that accounts for all of them. A hypothesis such as
    \<open>d_add_law\<close>, \<open>vm_law\<close> or \<open>simple_read_law\<close> names documented behaviour of
    that code, and a witness instantiates it.
  \<^item> \<open>Pid_Entries\<close> (\<open>struct pid_entry\<close>, its macros, the four tables for all kernel
    configurations), \<open>Name_Int\<close> (\<open>name_to_int\<close>), \<open>Pid_Inode\<close> (inode construction,
    ownership, \<open>d_revalidate\<close>, the six \<open>instantiate_t\<close> functions), \<open>Lookup\<close> (all
    \<open>lookup\<close> operations), \<open>Readdir\<close> (\<open>proc_fill_cache\<close>, listing of tables, the contracts
    of readers and what follows for several calls), \<open>Fd_Readdir\<close> (listing of descriptors),
    \<open>Pid_Readdir\<close> (listing of processes, with the honeypot hook),
    \<open>Task_Readdir\<close> (listing of threads), \<open>Proc_Mem\<close> (\<open>cmdline\<close>, \<open>auxv\<close>,
    \<open>mem\<close>, \<open>environ\<close>, \<open>mm_for_maps\<close>), \<open>Proc_Text\<close> (the other
    \<open>proc_read\<close> and \<open>proc_show\<close> files), \<open>Proc_Settings\<close> (the writable files),
    \<open>Links\<close> (links, \<open>fdinfo\<close>, permissions), \<open>Exe_File\<close> (the references on
    executables), \<open>Mounts_Flush\<close> (the mount files, \<open>proc_flush_task\<close>),
    \<open>Operations\<close> (the tables of operations and the dispatch through them): \<open>base.c\<close>.
    \<open>Vfs_Files\<close>, \<open>Vfs_Steps\<close>: \<open>/proc\<close> in use, as a step relation of calls on
    directories, files and links through these tables.
    \<open>Proc_Header\<close>: the inline functions of \<open>proc_fs.h\<close>.
  \<^item> \<open>Chardev\<close>: \<open>chardev/chardev.c\<close>. \<open>Honeypot\<close>: \<open>home_hack/home_hack.c\<close>,
    \<open>module_param/module_param.c\<close>, \<open>process/proc_trav.c\<close>. \<open>Syscall_Hooks\<close>: the
    hooks of \<open>home_hack.c\<close>, \<open>syscall/syscall.c\<close>,
    \<open>kmap/kmap.c\<close>, \<open>mmap/kill_syscalltable.c\<close>. \<open>Proc_Hack\<close>:
    \<open>proc_hack/proc_hack.c\<close>, together with the listing of \<open>base.c\<close> that it hooks.
    \<open>Small_Modules\<close>: \<open>list/list.c\<close>, \<open>secfs/secfs.c\<close>. \<open>Small_Programs\<close>:
    \<open>hello-1\<close>, \<open>hello-5\<close>, \<open>multifile\<close>, \<open>security_ops_hack\<close>,
    \<open>siocgifconf.c\<close>, \<open>miniifconf.c\<close>.
  One definition models one function, under its C name; a loop or a labelled block of a function has a
  definition of its own. Early returns and \<open>goto\<close>s to cleanup labels are branches.

  \<^bold>\<open>What is shown.\<close> Every operation gives back each reference and lock on every path. Beyond
  that: listings of every kind of directory deliver each entry once, in order, across any number of calls, and
  every process, thread and descriptor that is there throughout, under a name that leads back to it, and
  stop early only at an entry that the caller refuses (the dentry of an open directory is in use, the
  hypothesis \<open>pinned\<close>; the process table and the tables of descriptors are bounded, \<open>find_ge_law\<close>
  and \<open>fds_below\<close>); lookups find exactly the names of the directory and fail only where the task, the
  descriptor or the memory is missing; names and numbers convert back and forth; an inode is as its entry
  says and shows its owner only if the process is dumpable; memory, links and maps are shown only to
  callers allowed to see them; whatever calls the VFS makes on directories, files and links, in any order,
  the dcache stays in order and no reference is left (only an open mount file holds some, until it is
  closed); text fits the buffers it is printed into;
  settings are registers with the stated domain; the references on executables balance over any sequence
  of calls; opens unwind; the tables offer the operations that types and modes promise; the character
  device is a byte stream with an invariant; redirected paths, replaced system calls and hooks are
  restored, and the hook that is meant to hide processes hides none.
  Interfaces are locales (\<open>instantiator\<close>, \<open>fd_instantiator\<close>, \<open>table_reader\<close>,
  \<open>scan_reader\<close>, \<open>seq_show\<close>, \<open>int_setting\<close>, \<open>link_getter\<close>, \<open>hook_slot\<close>), interpreted on
  the functions of the code.

  \<^bold>\<open>Loops and fuel.\<close> Loops bounded by data are structural or have a measure. Loops whose end
  depends on answers of the kernel take fuel, and the theorems say how much is enough: the process
  iterator needs no more steps than there are pids, the thread walk as many as threads, a read of
  \<open>mem\<close> or \<open>environ\<close>, or a write to \<open>mem\<close>, as many as bytes are asked for, the walk
  over the auxiliary vector and over a ring of tasks as many as entries.

  \<^bold>\<open>Not modelled.\<close> The text of \<open>status\<close>, \<open>stat\<close>, \<open>statm\<close>,
  \<open>maps\<close> and the mount files, which other files of the kernel produce; what \<open>proc_fs.h\<close> only
  declares, and its empty stubs for kernels without procfs; the wrappers of system calls in
  \<open>home_hack\<close>, which are missing from the sources; the messages that the modules log, where nothing
  depends on them, and the sockets of the two programs that call an \<open>ioctl\<close>.
\<close>

section \<open>Listing and lookup agree\<close>

text \<open>A directory as an abstract object: the finite map from its names to its entries.\<close>

definition directory :: "pid_entry list \<Rightarrow> string \<rightharpoonup> pid_entry" where
  "directory ents = map_of (map (\<lambda>e. (pe_name e, e)) ents)"

text \<open>What a listing shows of the table: the names, in order, after the two dot entries.\<close>

definition lookup_refines :: "pid_entry list \<Rightarrow> bool" where
  "lookup_refines ents \<longleftrightarrow>
     find_entry ents = directory ents \<and> dom (directory ents) = set (drop 2 (dir_names ents)) \<and>
     distinct (dir_names ents) \<and> list_all (\<lambda>nm. name_to_int nm = ERR_U) (dir_names ents)"

lemma directory_named: "directory ents name = entry_named ents name"
  by (induction ents) (auto simp: directory_def entry_named_def)

lemma table_ok_refines:
  assumes "table_ok ents"
  shows "lookup_refines ents"
proof -
  have t: "list_all entry_ok ents" "distinct (map pe_name ents)" using assms by (simp_all add: table_ok_def)
  have "find_entry ents = directory ents"
    by (simp add: fun_eq_iff find_entry_named [OF t(1)] directory_named)
  moreover have "dom (directory ents) = set (map pe_name ents)"
    by (auto simp: directory_def dom_map_of_conv_image_fst image_image)
  moreover have "distinct (dir_names ents)" "list_all (\<lambda>nm. name_to_int nm = ERR_U) (dir_names ents)"
    using t by (auto simp: dir_names_def list_all_iff entry_ok_def name_to_int_spec canonical_def is_digit_def)
  ultimately show ?thesis by (simp add: lookup_refines_def dir_names_def)
qed


end
